(* ===== verification/SensorQueue.thy ===== *)
theory SensorQueue
  imports Prelude
begin

text \<open>
  The circular event queue of the sensor multi-HAL, \<^verbatim>\<open>hal/sensors/SensorEventQueue.cpp\<close>:
  its fields, its operations, the region a writer may fill without the lock, and the
  abstraction of the readable part to a list. The locale \<open>fifo_reader\<close> is what a reader of
  queues relies on, \<open>fifo\<close> adds what a writer relies on; the queue interprets both.
\<close>

section \<open>The queue\<close>

text \<open>
  The counters are C ints that no operation makes negative: \<^verbatim>\<open>mSize--\<close> is guarded, the
  rest are sums and remainders. The array's elements are whatever \<^verbatim>\<open>new\<close> left there until
  they are written.
\<close>

record 'e squeue =
  mCapacity :: nat
  mStart :: nat
  mSize :: nat
  mData :: "'e list"

definition SensorEventQueue :: "(nat \<Rightarrow> 'e) \<Rightarrow> nat \<Rightarrow> 'e squeue" where
  "SensorEventQueue uninit capacity =
     \<lparr>mCapacity = capacity, mStart = 0, mSize = 0, mData = map uninit [0..<capacity]\<rparr>"

text \<open>The result is the length of the region and its first index, \<open>None\<close> for \<^verbatim>\<open>NULL\<close>.\<close>

definition getWritableRegion :: "'e squeue \<Rightarrow> int \<Rightarrow> int \<times> nat option" where
  "getWritableRegion q requestedLength =
     (if mSize q = mCapacity q \<or> requestedLength \<le> 0 then (0, None)
      else
        let firstWritable = int ((mStart q + mSize q) mod mCapacity q);
            last0 = wrap32 (firstWritable + requestedLength - 1);
            last1 = (if last0 > int (mCapacity q) - 1 then int (mCapacity q) - 1 else last0);
            lastWritable = (if firstWritable < int (mStart q) \<and> last1 \<ge> int (mStart q)
                            then int (mStart q) - 1 else last1)
        in (lastWritable - firstWritable + 1, Some (nat firstWritable)))"

definition markAsWritten :: "'e squeue \<Rightarrow> nat \<Rightarrow> 'e squeue" where
  "markAsWritten q count = q\<lparr>mSize := mSize q + count\<rparr>"

definition getSize :: "'e squeue \<Rightarrow> nat" where
  "getSize q = mSize q"

definition peek :: "'e squeue \<Rightarrow> 'e option" where
  "peek q = (if mSize q = 0 then None else Some (mData q ! mStart q))"

text \<open>The second component tells whether the writers waiting for space are woken.\<close>

definition dequeue :: "'e squeue \<Rightarrow> 'e squeue \<times> bool" where
  "dequeue q =
     (if mSize q = 0 then (q, False)
      else (q\<lparr>mSize := mSize q - 1, mStart := (mStart q + 1) mod mCapacity q\<rparr>,
            mSize q = mCapacity q))"

text \<open>
  The wait loop runs on the states of the queue at the successive wake-ups of the condition
  variable; \<open>None\<close> is a writer that still waits after all of them.
\<close>

fun waitForSpace :: "bool \<Rightarrow> 'e squeue \<Rightarrow> 'e squeue list \<Rightarrow> (bool \<times> 'e squeue) option" where
  "waitForSpace waited q [] = (if mSize q = mCapacity q then None else Some (waited, q))"
| "waitForSpace waited q (q' # wakes) =
     (if mSize q = mCapacity q then waitForSpace True q' wakes else Some (waited, q))"

text \<open>The sub-HAL stores events through the pointer it was given.\<close>

definition store_events :: "'e squeue \<Rightarrow> nat \<Rightarrow> 'e list \<Rightarrow> 'e squeue" where
  "store_events q off evs =
     q\<lparr>mData := take off (mData q) @ evs @ drop (off + length evs) (mData q)\<rparr>"

section \<open>Invariant and abstraction\<close>

definition squeue_inv :: "'e squeue \<Rightarrow> bool" where
  "squeue_inv q \<longleftrightarrow>
     0 < mCapacity q \<and> length (mData q) = mCapacity q \<and>
     mStart q < mCapacity q \<and> mSize q \<le> mCapacity q"

definition slot :: "'e squeue \<Rightarrow> nat \<Rightarrow> nat" where
  "slot q k = (mStart q + k) mod mCapacity q"

definition readable :: "'e squeue \<Rightarrow> 'e list" where
  "readable q = map (\<lambda>k. mData q ! slot q k) [0..<mSize q]"

lemma length_readable [simp]: "length (readable q) = mSize q"
  by (simp add: readable_def)

lemma squeue_inv_new: "0 < capacity \<Longrightarrow> squeue_inv (SensorEventQueue uninit capacity)"
  by (simp add: squeue_inv_def SensorEventQueue_def)

lemma readable_new [simp]: "readable (SensorEventQueue uninit capacity) = []"
  by (simp add: readable_def SensorEventQueue_def)

lemma slot_less: "squeue_inv q \<Longrightarrow> slot q k < mCapacity q"
  by (simp add: slot_def squeue_inv_def)

lemma slot_cases:
  assumes "squeue_inv q" "k \<le> mCapacity q"
  shows "slot q k = (if mStart q + k < mCapacity q then mStart q + k else mStart q + k - mCapacity q)"
  using assms by (auto simp: slot_def squeue_inv_def mod_if)

lemma slot_inject:
  assumes "squeue_inv q" "i < mCapacity q" "j < mCapacity q" "slot q i = slot q j"
  shows "i = j"
proof -
  have "mStart q < mCapacity q" using assms(1) by (simp add: squeue_inv_def)
  with assms show ?thesis
    using slot_cases [OF assms(1), of i] slot_cases [OF assms(1), of j]
    by (auto split: if_splits)
qed

section \<open>Reading\<close>

lemma peek_readable:
  "squeue_inv q \<Longrightarrow> peek q = (case readable q of [] \<Rightarrow> None | e # _ \<Rightarrow> Some e)"
  by (cases "mSize q")
    (auto simp: peek_def readable_def slot_def squeue_inv_def upt_conv_Cons simp del: upt_Suc)

lemma squeue_inv_dequeue: "squeue_inv q \<Longrightarrow> squeue_inv (fst (dequeue q))"
  by (auto simp: squeue_inv_def dequeue_def)

lemma slot_dequeue:
  "0 < mSize q \<Longrightarrow> slot (fst (dequeue q)) k = slot q (Suc k)"
  by (simp add: slot_def dequeue_def mod_add_left_eq)

lemma readable_dequeue:
  assumes "squeue_inv q"
  shows "readable (fst (dequeue q)) = tl (readable q)"
proof (cases "mSize q")
  case 0
  then show ?thesis by (simp add: readable_def dequeue_def)
next
  case (Suc n)
  have "readable (fst (dequeue q)) = map (\<lambda>k. mData q ! slot q (Suc k)) [0..<n]"
    using Suc by (simp add: readable_def slot_dequeue) (simp add: dequeue_def)
  also have "\<dots> = map (\<lambda>k. mData q ! slot q k) [Suc 0..<Suc n]"
    by (simp only: map_Suc_upt [symmetric] map_map o_def)
  finally show ?thesis
    by (simp add: readable_def Suc upt_conv_Cons del: upt_Suc)
qed

section \<open>Writing\<close>

lemma getWritableRegion_spec:
  assumes inv: "squeue_inv q" and space: "mSize q < mCapacity q"
    and req: "0 < req" "req \<le> 2147483647 - int (mCapacity q)"
    and region: "getWritableRegion q req = (n, out)"
  shows "out = Some (slot q (mSize q))" "0 < n" "n \<le> req"
    "mSize q + nat n \<le> mCapacity q" "slot q (mSize q) + nat n \<le> mCapacity q"
proof -
  let ?f = "slot q (mSize q)"
  have f: "?f < mCapacity q" using inv by (rule slot_less)
  have start: "mStart q < mCapacity q" using inv by (simp add: squeue_inv_def)
  have w: "wrap32 (int ?f + req - 1) = int ?f + req - 1"
    using f req by (intro wrap32_id) auto
  have fc: "?f = (if mStart q + mSize q < mCapacity q then mStart q + mSize q
                 else mStart q + mSize q - mCapacity q)"
    using slot_cases [OF inv, of "mSize q"] space by simp
  from region show "out = Some ?f"
    using space req by (auto simp: getWritableRegion_def slot_def Let_def)
  define l1 where "l1 = min (int ?f + req - 1) (int (mCapacity q) - 1)"
  define l where "l = (if int ?f < int (mStart q) \<and> l1 \<ge> int (mStart q) then int (mStart q) - 1 else l1)"
  have n: "n = l - int ?f + 1"
    using region space req w
    by (simp add: getWritableRegion_def slot_def [symmetric] Let_def l_def l1_def min_def
        split: if_splits)
  have l1: "int ?f \<le> l1" "l1 < int ?f + req" "l1 < int (mCapacity q)"
    using f req by (simp_all add: l1_def)
  have l: "int ?f \<le> l" "l \<le> l1"
    using l1 by (simp_all add: l_def)
  show "0 < n" "n \<le> req" "?f + nat n \<le> mCapacity q"
    using n l l1 by linarith+
  show "mSize q + nat n \<le> mCapacity q"
  proof (cases "mStart q + mSize q < mCapacity q")
    case True
    then show ?thesis using fc n l l1 by simp
  next
    case False
    then have wrapped: "?f < mStart q" "?f + mCapacity q = mStart q + mSize q"
      using fc start space by auto
    then have "l < int (mStart q)" by (simp add: l_def)
    then show ?thesis using wrapped n l by linarith
  qed
qed

lemma squeue_inv_store:
  "squeue_inv q \<Longrightarrow> off + length evs \<le> mCapacity q \<Longrightarrow> squeue_inv (store_events q off evs)"
  by (simp add: squeue_inv_def store_events_def)

lemma store_events_nth:
  assumes "off + length evs \<le> length (mData q)" "i < length (mData q)"
  shows "mData (store_events q off evs) ! i =
           (if off \<le> i \<and> i < off + length evs then evs ! (i - off) else mData q ! i)"
  using assms by (auto simp: store_events_def nth_append min_def)

lemma slot_store [simp]: "slot (store_events q off evs) = slot q"
  by (simp add: slot_def store_events_def fun_eq_iff)

lemma slot_mark [simp]: "slot (markAsWritten q n) = slot q"
  by (simp add: slot_def markAsWritten_def fun_eq_iff)

lemma mSize_store [simp]: "mSize (store_events q off evs) = mSize q"
  by (simp add: store_events_def)

lemma mCapacity_store [simp]: "mCapacity (store_events q off evs) = mCapacity q"
  by (simp add: store_events_def)

text \<open>A slot of the free region lies \<open>k\<close> places behind the readable part.\<close>

lemma region_slot:
  assumes "squeue_inv q" "mSize q + k < mCapacity q" "slot q (mSize q) + k < mCapacity q"
  shows "slot q (mSize q + k) = slot q (mSize q) + k"
  using assms slot_cases [of q "mSize q"] slot_cases [of q "mSize q + k"]
  by (auto simp: squeue_inv_def split: if_splits)

lemma readable_slot_outside:
  assumes "squeue_inv q" "j < mSize q" "mSize q + n \<le> mCapacity q"
    "slot q (mSize q) + n \<le> mCapacity q"
  shows "\<not> (slot q (mSize q) \<le> slot q j \<and> slot q j < slot q (mSize q) + n)"
proof
  assume b: "slot q (mSize q) \<le> slot q j \<and> slot q j < slot q (mSize q) + n"
  then obtain k where k: "slot q j = slot q (mSize q) + k" "k < n"
    by (metis add_less_cancel_left le_Suc_ex)
  have "slot q (mSize q + k) = slot q (mSize q) + k"
    by (rule region_slot [OF assms(1)]) (use assms(3,4) k(2) in linarith)+
  with k(1) have "slot q (mSize q + k) = slot q j" by (simp only:)
  then have "mSize q + k = j"
    by (rule slot_inject [OF assms(1), rotated 2]) (use assms(2,3) k(2) in linarith)+
  with assms(2) show False by simp
qed

lemma readable_store:
  assumes "squeue_inv q" "off = slot q (mSize q)" "mSize q + length evs \<le> mCapacity q"
    "off + length evs \<le> mCapacity q"
  shows "readable (store_events q off evs) = readable q"
proof -
  have "mData (store_events q off evs) ! slot q k = mData q ! slot q k" if "k < mSize q" for k
    using readable_slot_outside [of q k "length evs"] assms that
    by (subst store_events_nth) (auto simp: squeue_inv_def slot_less)
  then show ?thesis by (simp add: readable_def)
qed

lemma squeue_inv_mark:
  "squeue_inv q \<Longrightarrow> mSize q + n \<le> mCapacity q \<Longrightarrow> squeue_inv (markAsWritten q n)"
  by (simp add: squeue_inv_def markAsWritten_def)

text \<open>
  What lies in the array behind the readable part. Marking makes it readable, so a region
  that was filled earlier is appended whatever the reader dequeued in between.
\<close>

definition pending :: "'e squeue \<Rightarrow> nat \<Rightarrow> 'e list" where
  "pending q n = map (\<lambda>k. mData q ! slot q (mSize q + k)) [0..<n]"

lemma readable_mark: "readable (markAsWritten q n) = readable q @ pending q n"
proof -
  have "readable (markAsWritten q n) = map (\<lambda>k. mData q ! slot q k) [0..<mSize q + n]"
    by (simp add: readable_def) (simp add: markAsWritten_def)
  then show ?thesis
    by (simp only: upt_0_add map_append map_map o_def readable_def pending_def)
qed

lemma pending_dequeue: "pending (fst (dequeue q)) n = pending q n"
proof (cases "mSize q")
  case 0
  then show ?thesis by (simp add: dequeue_def)
next
  case (Suc m)
  then show ?thesis
    by (simp add: pending_def slot_dequeue) (simp add: dequeue_def)
qed

lemma pending_store:
  assumes "squeue_inv q" "off = slot q (mSize q)" "mSize q + length evs \<le> mCapacity q"
    "off + length evs \<le> mCapacity q"
  shows "pending (store_events q off evs) (length evs) = evs"
proof -
  have "mData (store_events q off evs) ! slot q (mSize q + k) = evs ! k"
    if "k < length evs" for k
    using region_slot [of q k] assms that
    by (subst store_events_nth) (auto simp: squeue_inv_def)
  then show ?thesis
    by (intro nth_equalityI) (auto simp: pending_def)
qed

lemma waitForSpace_space:
  "waitForSpace waited q wakes = Some (w, q') \<Longrightarrow> mSize q' \<noteq> mCapacity q'"
  by (induction waited q wakes rule: waitForSpace.induct) (auto split: if_splits)

section \<open>The contract of the queue\<close>

text \<open>What a reader relies on: the contents as a list, looked at and taken from the front.\<close>

locale fifo_reader =
  fixes inv :: "'q \<Rightarrow> bool"
    and contents :: "'q \<Rightarrow> 'e list"
    and front :: "'q \<Rightarrow> 'e option"
    and deq :: "'q \<Rightarrow> 'q"
  assumes front: "inv q \<Longrightarrow> front q = (case contents q of [] \<Rightarrow> None | e # _ \<Rightarrow> Some e)"
    and contents_deq: "inv q \<Longrightarrow> contents (deq q) = tl (contents q)"
    and inv_deq: "inv q \<Longrightarrow> inv (deq q)"
begin

lemma front_None_iff: "inv q \<Longrightarrow> front q = None \<longleftrightarrow> contents q = []"
  by (simp add: front split: list.split)

lemma front_Some: "inv q \<Longrightarrow> front q = Some e \<Longrightarrow> contents q = e # contents (deq q)"
  by (simp add: front contents_deq split: list.splits)

lemma deq_funpow: "inv q \<Longrightarrow> inv ((deq ^^ d) q) \<and> contents ((deq ^^ d) q) = drop d (contents q)"
  by (induction d) (auto simp: inv_deq contents_deq drop_Suc drop_tl)

end

text \<open>
  What a writer relies on: \<open>room\<close> hands out a region, \<open>fill\<close> stores events there without
  making them readable, \<open>publish\<close> makes them readable. Taking events from the front does
  not touch a filled region.
\<close>

locale fifo = fifo_reader inv contents front deq
  for inv :: "'q \<Rightarrow> bool" and contents :: "'q \<Rightarrow> 'e list"
    and front :: "'q \<Rightarrow> 'e option" and deq :: "'q \<Rightarrow> 'q" +
  fixes room :: "'q \<Rightarrow> int \<Rightarrow> int \<times> nat option"
    and limit :: "'q \<Rightarrow> int"
    and fill :: "'q \<Rightarrow> nat \<Rightarrow> 'e list \<Rightarrow> 'q"
    and filled :: "'q \<Rightarrow> nat \<Rightarrow> 'e list"
    and publish :: "'q \<Rightarrow> nat \<Rightarrow> 'q"
  assumes fill_keeps:
    "inv q \<Longrightarrow> 0 < req \<Longrightarrow> req \<le> limit q \<Longrightarrow> room q req = (n, Some off) \<Longrightarrow>
     int (length evs) \<le> n \<Longrightarrow> inv (fill q off evs) \<and> contents (fill q off evs) = contents q"
    and filled_fill:
    "inv q \<Longrightarrow> 0 < req \<Longrightarrow> req \<le> limit q \<Longrightarrow> room q req = (n, Some off) \<Longrightarrow>
     int (length evs) \<le> n \<Longrightarrow> filled (fill q off evs) (length evs) = evs"
    and filled_deq: "filled (deq q) k = filled q k"
    and contents_publish: "contents (publish q k) = contents q @ filled q k"
begin

text \<open>
  The reader may take any number of events between the store and the publication: what it
  finds afterwards is what was left, followed by the new events in order.
\<close>

lemma filled_deq_funpow: "filled ((deq ^^ d) q) n = filled q n"
  by (induction d) (simp_all add: filled_deq)

theorem publish_after_reads:
  assumes "inv q" "0 < req" "req \<le> limit q" "room q req = (n, Some off)" "int (length evs) \<le> n"
  shows "contents (publish ((deq ^^ d) (fill q off evs)) (length evs)) =
           drop d (contents q) @ evs"
  using fill_keeps [OF assms] filled_fill [OF assms]
  by (simp add: contents_publish filled_deq_funpow deq_funpow)

end

abbreviation "dequeue_q q \<equiv> fst (dequeue q)"

interpretation sq: fifo_reader squeue_inv readable peek dequeue_q
  by unfold_locales (simp_all add: peek_readable readable_dequeue squeue_inv_dequeue)

lemma region_bounds:
  assumes "squeue_inv q" "0 < req" "req \<le> 2147483647 - int (mCapacity q)"
    and "getWritableRegion q req = (n, Some off)" "int (length evs) \<le> n"
  shows "off = slot q (mSize q)" "mSize q + length evs \<le> mCapacity q"
    "off + length evs \<le> mCapacity q"
proof -
  from assms(1,4) have "mSize q < mCapacity q"
    by (auto simp: getWritableRegion_def squeue_inv_def split: if_splits)
  note * = getWritableRegion_spec [OF assms(1) this assms(2,3,4)]
  from * assms(5) show "off = slot q (mSize q)" "mSize q + length evs \<le> mCapacity q"
    "off + length evs \<le> mCapacity q"
    by auto
qed

interpretation sq: fifo squeue_inv readable peek dequeue_q getWritableRegion
  "\<lambda>q. 2147483647 - int (mCapacity q)" store_events pending markAsWritten
proof (unfold_locales, goal_cases)
  case (1 q req n off evs)
  with region_bounds [OF this] show ?case
    by (auto intro: squeue_inv_store readable_store)
next
  case (2 q req n off evs)
  with region_bounds [OF this] show ?case
    by (auto intro: pending_store)
next
  case (3 q n)
  show ?case by (rule pending_dequeue)
next
  case (4 q n)
  show ?case by (rule readable_mark)
qed

section \<open>Properties\<close>

lemma mCapacity_dequeue_funpow [simp]: "mCapacity ((dequeue_q ^^ d) q) = mCapacity q"
  by (induction d) (simp_all add: dequeue_def)

lemma mSize_dequeue_funpow: "squeue_inv q \<Longrightarrow> mSize ((dequeue_q ^^ d) q) = mSize q - d"
  using sq.deq_funpow [of q d] length_readable [of "(dequeue_q ^^ d) q"] by simp

text \<open>C7.
  The region a writer is handed while it does not hold the lock is not empty when the queue
  has space, lies inside the array and shares no slot with the readable part.
\<close>

theorem region_safe:
  assumes "squeue_inv q" "mSize q < mCapacity q"
    and "0 < req" "req \<le> 2147483647 - int (mCapacity q)"
    and "getWritableRegion q req = (n, out)"
  shows "0 < n \<and> n \<le> req \<and> (\<exists>off. out = Some off \<and> off + nat n \<le> length (mData q) \<and>
           (\<forall>k < nat n. \<forall>j < mSize q. off + k \<noteq> slot q j))"
proof -
  note * = getWritableRegion_spec [OF assms]
  have "slot q (mSize q) + k \<noteq> slot q j" if "k < nat n" "j < mSize q" for k j
    using readable_slot_outside [OF assms(1) that(2) *(4,5)] that(1) by auto
  with * assms(1) show ?thesis by (simp add: squeue_inv_def)
qed

definition ex_full :: "nat squeue" where
  "ex_full = \<lparr>mCapacity = 4, mStart = 2, mSize = 3, mData = [10, 11, 12, 13]\<rparr>"

lemma ex_full_inv: "squeue_inv ex_full" "mSize ex_full < mCapacity ex_full"
  by (simp_all add: ex_full_def squeue_inv_def)

lemma ex_full_region: "getWritableRegion ex_full 4 = (1, Some 1)"
  by (simp add: ex_full_def getWritableRegion_def Let_def wrap32_def)

lemma ex_full_req: "(0::int) < 4" "4 \<le> 2147483647 - int (mCapacity ex_full)"
  by (simp_all add: ex_full_def)

theorem region_safe_witness:
  "squeue_inv ex_full \<and> getWritableRegion ex_full 4 = (1, Some 1) \<and>
   1 \<noteq> slot ex_full 0 \<and> 1 \<noteq> slot ex_full 2"
proof -
  have "0 < mSize ex_full" "2 < mSize ex_full" by (simp_all add: ex_full_def)
  with region_safe [OF ex_full_inv ex_full_req ex_full_region] ex_full_inv(1) ex_full_region
  show ?thesis by simp
qed

text \<open>C3.
  Events stored in a writable region and marked as written after the reader has taken any
  number of events in between are appended, in order, to what the reader left, and the
  queue stays well-formed.
\<close>

theorem write_then_mark_appends:
  assumes "squeue_inv q" "0 < req" "req \<le> 2147483647 - int (mCapacity q)"
    and "getWritableRegion q req = (n, Some off)" "int (length evs) \<le> n"
  shows "readable (markAsWritten ((dequeue_q ^^ d) (store_events q off evs)) (length evs)) =
           drop d (readable q) @ evs \<and>
         squeue_inv (markAsWritten ((dequeue_q ^^ d) (store_events q off evs)) (length evs))"
proof -
  note b = region_bounds [OF assms]
  have inv: "squeue_inv (store_events q off evs)"
    using assms(1) b by (simp add: squeue_inv_store)
  then have "squeue_inv ((dequeue_q ^^ d) (store_events q off evs))"
    using sq.deq_funpow by blast
  moreover have "mSize ((dequeue_q ^^ d) (store_events q off evs)) + length evs \<le> mCapacity q"
    using b(2) mSize_dequeue_funpow [OF inv, of d] by simp
  ultimately show ?thesis
    using sq.publish_after_reads [OF assms] by (simp add: squeue_inv_mark)
qed

lemma ex_full_readable: "readable ex_full = [12, 13, 10]"
  by code_simp

theorem write_then_mark_appends_witness:
  "squeue_inv ex_full \<and> getWritableRegion ex_full 4 = (1, Some 1) \<and>
   readable (markAsWritten ((dequeue_q ^^ 2) (store_events ex_full 1 [7])) 1) = [10, 7]"
  using write_then_mark_appends [OF ex_full_inv(1) ex_full_req ex_full_region, of "[7]" 2]
    ex_full_inv(1) ex_full_region
  by (simp only: ex_full_readable) simp

text \<open>C11.
  A writer leaves the wait for space with a queue that has space, and one dequeue is enough
  to let it go: the dequeue on a full queue broadcasts.
\<close>

theorem waitForSpace_wakes:
  assumes "squeue_inv q"
  shows "(\<forall>waited wakes w q'. waitForSpace waited q wakes = Some (w, q') \<longrightarrow> mSize q' \<noteq> mCapacity q') \<and>
         (mSize q = mCapacity q \<longrightarrow>
            snd (dequeue q) \<and> (\<forall>waited rest. waitForSpace waited q (dequeue_q q # rest) = Some (True, dequeue_q q)))"
proof -
  have "waitForSpace True (dequeue_q q) rest = Some (True, dequeue_q q)"
    if "mSize q = mCapacity q" for rest
    using that assms by (cases rest) (auto simp: dequeue_def squeue_inv_def)
  moreover have "snd (dequeue q)" if "mSize q = mCapacity q"
    using that assms by (simp add: dequeue_def squeue_inv_def)
  ultimately show ?thesis
    by (simp add: waitForSpace_space)
qed

theorem waitForSpace_wakes_witness:
  "squeue_inv (markAsWritten ex_full 1) \<and> snd (dequeue (markAsWritten ex_full 1))"
proof -
  have "squeue_inv (markAsWritten ex_full 1)" "mSize (markAsWritten ex_full 1) = mCapacity (markAsWritten ex_full 1)"
    by (simp_all add: ex_full_def markAsWritten_def squeue_inv_def)
  with waitForSpace_wakes show ?thesis by blast
qed

end
