(* ===== verification/MultiHal.thy ===== *)
theory MultiHal
  imports SensorQueue
begin

text \<open>
  The sensor multi-HAL, \<^verbatim>\<open>hal/sensors/multihal.cpp\<close>: the translation between global and
  local sensor handles, the loading of the sub-HALs and of the merged sensor list, the poll
  loop that drains the sub-HALs' queues in turn, and the device operations it forwards.
  The sub-HALs, the dynamic linker and the configuration files are parameters.
\<close>

section \<open>Handles\<close>

datatype FullHandle = FullHandle (moduleIndex: int) (localHandle: int)

text \<open>The comparison the keys of \<^verbatim>\<open>full_to_global\<close> are ordered by.\<close>

definition FullHandle_less :: "FullHandle \<Rightarrow> FullHandle \<Rightarrow> bool" where
  "FullHandle_less this that =
     (if moduleIndex this < moduleIndex that then True
      else if moduleIndex this > moduleIndex that then False
      else localHandle this < localHandle that)"

instantiation FullHandle :: linorder
begin

definition less_FullHandle :: "FullHandle \<Rightarrow> FullHandle \<Rightarrow> bool" where
  "less_FullHandle = FullHandle_less"

definition less_eq_FullHandle :: "FullHandle \<Rightarrow> FullHandle \<Rightarrow> bool" where
  "less_eq_FullHandle this that = (this = that \<or> this < that)"

instance
proof
  fix x y z :: FullHandle
  show "(x < y) = (x \<le> y \<and> \<not> y \<le> x)"
    by (cases x; cases y) (auto simp: FullHandle_less_def less_FullHandle_def less_eq_FullHandle_def)
  show "x \<le> x"
    by (simp add: less_eq_FullHandle_def)
  show "x \<le> y \<Longrightarrow> y \<le> z \<Longrightarrow> x \<le> z"
    by (cases x; cases y; cases z)
      (auto simp: FullHandle_less_def less_FullHandle_def less_eq_FullHandle_def split: if_splits)
  show "x \<le> y \<Longrightarrow> y \<le> x \<Longrightarrow> x = y"
    by (cases x; cases y) (auto simp: FullHandle_less_def less_FullHandle_def less_eq_FullHandle_def split: if_splits)
  show "x \<le> y \<or> y \<le> x"
    by (cases x; cases y) (auto simp: FullHandle_less_def less_FullHandle_def less_eq_FullHandle_def)
qed

end

record handles =
  global_to_full :: "int \<rightharpoonup> FullHandle"
  full_to_global :: "FullHandle \<rightharpoonup> int"
  next_global_handle :: int

definition init_handles :: handles where
  "init_handles =
     \<lparr>global_to_full = Map.empty, full_to_global = Map.empty, next_global_handle = 1\<rparr>"

definition assign_global_handle :: "handles \<Rightarrow> int \<Rightarrow> int \<Rightarrow> int \<times> handles" where
  "assign_global_handle h module_index local_handle =
     (let global_handle = next_global_handle h;
          full_handle = FullHandle module_index local_handle
      in (global_handle,
          h\<lparr>next_global_handle := next_global_handle h + 1,
            full_to_global := (full_to_global h)(full_handle \<mapsto> global_handle),
            global_to_full := (global_to_full h)(global_handle \<mapsto> full_handle)\<rparr>))"

definition get_local_handle :: "handles \<Rightarrow> int \<Rightarrow> int" where
  "get_local_handle h global_handle =
     (case global_to_full h global_handle of None \<Rightarrow> -1 | Some f \<Rightarrow> localHandle f)"

definition get_module_index :: "handles \<Rightarrow> int \<Rightarrow> int" where
  "get_module_index h global_handle =
     (case global_to_full h global_handle of None \<Rightarrow> -1 | Some f \<Rightarrow> moduleIndex f)"

definition get_global_handle :: "handles \<Rightarrow> FullHandle \<Rightarrow> int" where
  "get_global_handle h full_handle =
     (case full_to_global h full_handle of None \<Rightarrow> -1 | Some g \<Rightarrow> g)"

section \<open>Events, devices and the poll context\<close>

text \<open>
  Of \<^verbatim>\<open>sensors_event_t\<close> the code reads the type, the sensor field and, in a meta-data
  event, the nested sensor field; the rest is carried along.
\<close>

datatype sensor_type =
    SENSOR_TYPE_META_DATA | SENSOR_TYPE_PROXIMITY | SENSOR_TYPE_TILT_DETECTOR
  | SENSOR_TYPE_LIGHT | SENSOR_TYPE_OTHER nat

record sensor_event =
  ev_type :: sensor_type
  ev_sensor :: int
  ev_meta_sensor :: int
  ev_payload :: nat

record sub_device =
  d_addr :: nat
  d_version :: int

text \<open>The context of the opened multi-HAL device, with one queue per opened sub-device.\<close>

record poll_context =
  sub_hw_devices :: "sub_device list"
  queues :: "sensor_event squeue list"
  nextReadIndex :: nat

definition SENSOR_EVENT_QUEUE_CAPACITY :: nat where
  "SENSOR_EVENT_QUEUE_CAPACITY = 36"

definition addSubHwDevice ::
  "(nat \<Rightarrow> sensor_event) \<Rightarrow> poll_context \<Rightarrow> sub_device \<Rightarrow> poll_context" where
  "addSubHwDevice uninit c dev =
     c\<lparr>sub_hw_devices := sub_hw_devices c @ [dev],
       queues := queues c @ [SensorEventQueue uninit SENSOR_EVENT_QUEUE_CAPACITY]\<rparr>"

text \<open>\<^verbatim>\<open>get_v1_device_by_handle\<close> is the same lookup with another cast of the pointer.\<close>

definition get_v0_device_by_handle :: "handles \<Rightarrow> poll_context \<Rightarrow> int \<Rightarrow> sub_device option" where
  "get_v0_device_by_handle h c global_handle =
     (let sub_index = get_module_index h global_handle
      in if sub_index < 0 \<or> sub_index \<ge> int (length (sub_hw_devices c)) then None
         else Some (sub_hw_devices c ! nat sub_index))"

definition get_v1_device_by_handle :: "handles \<Rightarrow> poll_context \<Rightarrow> int \<Rightarrow> sub_device option" where
  "get_v1_device_by_handle h c global_handle =
     (let sub_index = get_module_index h global_handle
      in if sub_index < 0 \<or> sub_index \<ge> int (length (sub_hw_devices c)) then None
         else Some (sub_hw_devices c ! nat sub_index))"

definition get_device_version_by_handle :: "handles \<Rightarrow> poll_context \<Rightarrow> int \<Rightarrow> int" where
  "get_device_version_by_handle h c handle =
     (case get_v0_device_by_handle h c handle of Some v0 \<Rightarrow> d_version v0 | None \<Rightarrow> -1)"

definition halIsAPILevelCompliant :: "handles \<Rightarrow> poll_context \<Rightarrow> int \<Rightarrow> int \<Rightarrow> bool" where
  "halIsAPILevelCompliant h c handle level =
     (let version = get_device_version_by_handle h c handle
      in version \<noteq> -1 \<and> version \<ge> level)"

section \<open>Forwarded operations\<close>

text \<open>
  The calls into a sub-device; what they return is the parameter \<open>ret\<close>. The API levels of
  \<^verbatim>\<open>hardware/sensors.h\<close> are the parameter \<open>API\<close>, from the minor number of the level.
\<close>

datatype hal_call =
    Activate nat int int
  | SetDelay nat int int
  | Batch nat int int int int
  | Flush nat int
  | Inject nat nat sensor_event
  | Close nat

definition EINVAL :: int where
  "EINVAL = 22"

definition activate ::
  "(hal_call \<Rightarrow> int) \<Rightarrow> handles \<Rightarrow> poll_context \<Rightarrow> int \<Rightarrow> int \<Rightarrow> int \<times> hal_call list" where
  "activate ret h c handle enabled =
     (let local_handle = get_local_handle h handle
      in case get_v0_device_by_handle h c handle of
           Some v0 \<Rightarrow>
             if local_handle \<ge> 0
             then let call = Activate (d_addr v0) local_handle enabled in (ret call, [call])
             else (- EINVAL, [])
         | None \<Rightarrow> (- EINVAL, []))"

definition setDelay ::
  "(hal_call \<Rightarrow> int) \<Rightarrow> handles \<Rightarrow> poll_context \<Rightarrow> int \<Rightarrow> int \<Rightarrow> int \<times> hal_call list" where
  "setDelay ret h c handle ns =
     (let local_handle = get_local_handle h handle
      in case get_v0_device_by_handle h c handle of
           Some v0 \<Rightarrow>
             if local_handle \<ge> 0
             then let call = SetDelay (d_addr v0) local_handle ns in (ret call, [call])
             else (- EINVAL, [])
         | None \<Rightarrow> (- EINVAL, []))"

text \<open>
  Of \<^verbatim>\<open>sensor_t\<close> the code reads the handle, the type, the flags and the delay bounds.
\<close>

record sensor =
  s_handle :: int
  s_type :: sensor_type
  s_flags :: int
  s_minDelay :: int
  s_maxDelay :: int
  s_info :: nat

text \<open>
  The merged sensor list is read at the index of the module; \<open>None\<close> is a read outside of
  it. The fallback passes the global handle on, as the code does.
\<close>

definition batch ::
  "(nat \<Rightarrow> int) \<Rightarrow> (hal_call \<Rightarrow> int) \<Rightarrow> handles \<Rightarrow> sensor list \<Rightarrow> poll_context \<Rightarrow>
   int \<Rightarrow> int \<Rightarrow> int \<Rightarrow> int \<Rightarrow> (int \<times> hal_call list) option" where
  "batch API ret h global_sensors_list c handle flags period_ns timeout =
     (let local_handle = get_local_handle h handle
      in case get_v1_device_by_handle h c handle of
           Some v1 \<Rightarrow>
             if local_handle \<ge> 0 then
               if halIsAPILevelCompliant h c handle (API 1)
               then let call = Batch (d_addr v1) local_handle flags period_ns timeout
                    in Some (ret call, [call])
               else if period_ns < 0 \<or> timeout < 0 then Some (- EINVAL, [])
               else do {
                 s \<leftarrow> rd global_sensors_list (get_module_index h handle);
                 let period = (if period_ns < s_minDelay s then s_minDelay s
                               else if period_ns > s_maxDelay s then s_maxDelay s
                               else period_ns);
                 let call = SetDelay (d_addr v1) handle period;
                 Some (ret call, [call])
               }
             else Some (- EINVAL, [])
         | None \<Rightarrow> Some (- EINVAL, []))"

definition flush ::
  "(nat \<Rightarrow> int) \<Rightarrow> (hal_call \<Rightarrow> int) \<Rightarrow> handles \<Rightarrow> poll_context \<Rightarrow> int \<Rightarrow>
   int \<times> hal_call list" where
  "flush API ret h c handle =
     (let local_handle = get_local_handle h handle
      in case get_v1_device_by_handle h c handle of
           Some v1 \<Rightarrow>
             if local_handle \<ge> 0 then
               if halIsAPILevelCompliant h c handle (API 1)
               then let call = Flush (d_addr v1) local_handle in (ret call, [call])
               else (- EINVAL, [])
             else (- EINVAL, [])
         | None \<Rightarrow> (- EINVAL, []))"

text \<open>
  The injection calls the sub-device's function with the device it was itself called with,
  the proxy, as its argument.
\<close>

definition inject_sensor_data ::
  "(nat \<Rightarrow> int) \<Rightarrow> (hal_call \<Rightarrow> int) \<Rightarrow> handles \<Rightarrow> poll_context \<Rightarrow> nat \<Rightarrow> sensor_event \<Rightarrow>
   int \<times> hal_call list" where
  "inject_sensor_data API ret h c dev data =
     (let local_handle = get_local_handle h (ev_sensor data)
      in case get_v1_device_by_handle h c (ev_sensor data) of
           Some v1 \<Rightarrow>
             if halIsAPILevelCompliant h c (ev_sensor data) (API 4) \<and> local_handle \<ge> 0
             then let call = Inject (d_addr v1) dev data in (ret call, [call])
             else (- EINVAL, [])
         | None \<Rightarrow> (- EINVAL, []))"

definition close :: "(hal_call \<Rightarrow> int) \<Rightarrow> poll_context \<Rightarrow> int \<times> hal_call list" where
  "close ret c = (0, map (\<lambda>dev. Close (d_addr dev)) (sub_hw_devices c))"

definition device__close :: "(hal_call \<Rightarrow> int) \<Rightarrow> poll_context option \<Rightarrow> int \<times> hal_call list" where
  "device__close ret ctx = (case ctx of None \<Rightarrow> (0, []) | Some c \<Rightarrow> (0, snd (close ret c)))"

text \<open>The entry points of the proxy device; \<^verbatim>\<open>device__batch\<close> only sets the delay.\<close>

definition device__activate ::
  "(hal_call \<Rightarrow> int) \<Rightarrow> handles \<Rightarrow> poll_context \<Rightarrow> int \<Rightarrow> int \<Rightarrow> int \<times> hal_call list" where
  "device__activate ret h ctx handle enabled = activate ret h ctx handle enabled"

definition device__setDelay ::
  "(hal_call \<Rightarrow> int) \<Rightarrow> handles \<Rightarrow> poll_context \<Rightarrow> int \<Rightarrow> int \<Rightarrow> int \<times> hal_call list" where
  "device__setDelay ret h ctx handle ns = setDelay ret h ctx handle ns"

definition device__batch ::
  "(hal_call \<Rightarrow> int) \<Rightarrow> handles \<Rightarrow> poll_context \<Rightarrow> int \<Rightarrow> int \<Rightarrow> int \<Rightarrow> int \<Rightarrow>
   int \<times> hal_call list" where
  "device__batch ret h ctx handle flags period_ns timeout =
     (0, snd (setDelay ret h ctx handle period_ns))"

definition device__flush ::
  "(nat \<Rightarrow> int) \<Rightarrow> (hal_call \<Rightarrow> int) \<Rightarrow> handles \<Rightarrow> poll_context \<Rightarrow> int \<Rightarrow>
   int \<times> hal_call list" where
  "device__flush API ret h ctx handle = flush API ret h ctx handle"

definition device__inject_sensor_data ::
  "(nat \<Rightarrow> int) \<Rightarrow> (hal_call \<Rightarrow> int) \<Rightarrow> handles \<Rightarrow> poll_context \<Rightarrow> nat \<Rightarrow> sensor_event \<Rightarrow>
   int \<times> hal_call list" where
  "device__inject_sensor_data API ret h ctx dev data = inject_sensor_data API ret h ctx dev data"

definition apiNumToStr :: "(nat \<Rightarrow> int) \<Rightarrow> int \<Rightarrow> string" where
  "apiNumToStr API version =
     (if version = API 0 then ''SENSORS_DEVICE_API_VERSION_1_0''
      else if version = API 1 then ''SENSORS_DEVICE_API_VERSION_1_1''
      else if version = API 2 then ''SENSORS_DEVICE_API_VERSION_1_2''
      else if version = API 3 then ''SENSORS_DEVICE_API_VERSION_1_3''
      else if version = API 4 then ''SENSORS_DEVICE_API_VERSION_1_4''
      else ''UNKNOWN'')"

section \<open>Polling\<close>

definition copy_event_remap_handle :: "handles \<Rightarrow> sensor_event \<Rightarrow> int \<Rightarrow> sensor_event" where
  "copy_event_remap_handle h src sub_index =
     (if ev_type src = SENSOR_TYPE_META_DATA
      then src\<lparr>ev_meta_sensor := get_global_handle h (FullHandle sub_index (ev_meta_sensor src))\<rparr>
      else src\<lparr>ev_sensor := get_global_handle h (FullHandle sub_index (ev_sensor src))\<rparr>)"

text \<open>
  The scan of the queues in turn. \<open>data\<close> holds the events kept so far, so its length is
  \<^verbatim>\<open>eventsRead\<close>; \<open>None\<close> is the exception of \<^verbatim>\<open>queues.at\<close>.
\<close>

function poll_scan ::
  "handles \<Rightarrow> int \<Rightarrow> nat \<Rightarrow> sensor_event list \<Rightarrow> poll_context \<Rightarrow>
   (sensor_event list \<times> poll_context) option" where
  "poll_scan h maxReads empties data c =
     (if empties < length (queues c) \<and> int (length data) < maxReads then
        if nextReadIndex c < length (queues c) then
          let queue = queues c ! nextReadIndex c;
              next = (nextReadIndex c + 1) mod length (queues c)
          in case peek queue of
               None \<Rightarrow> poll_scan h maxReads (empties + 1) data (c\<lparr>nextReadIndex := next\<rparr>)
             | Some event \<Rightarrow>
                 let copied = copy_event_remap_handle h event (int (nextReadIndex c));
                     kept = (if ev_sensor copied = -1 then data else data @ [copied]);
                     rest = (queues c)[nextReadIndex c := fst (dequeue queue)]
                 in poll_scan h maxReads 0 kept (c\<lparr>queues := rest, nextReadIndex := next\<rparr>)
        else None
      else Some (data, c))"
  by pat_completeness auto

termination
  by (relation "measures [\<lambda>(h, maxReads, empties, data, c). sum_list (map mSize (queues c)),
                          \<lambda>(h, maxReads, empties, data, c). length (queues c) - empties]")
    (auto simp: map_update dequeue_def peek_def intro!: sum_list_update_less split: if_splits)

declare poll_scan.simps [simp del]

text \<open>
  The poll call waits when a scan kept no event; the vector of queues itself is only
  extended while the device is opened, so its length is the \<^verbatim>\<open>queueCount\<close> of the code. \<open>wakes\<close> holds the queues at the
  successive wake-ups of the condition variable; \<open>PollWaits\<close> is a call that still waits.
\<close>

datatype poll_result =
    PollReturns "sensor_event list" poll_context
  | PollWaits poll_context
  | PollThrows

fun poll ::
  "handles \<Rightarrow> int \<Rightarrow> poll_context \<Rightarrow> sensor_event squeue list list \<Rightarrow> poll_result" where
  "poll h maxReads c [] =
     (case poll_scan h maxReads 0 [] c of
        None \<Rightarrow> PollThrows
      | Some (data, c') \<Rightarrow> if data = [] then PollWaits c' else PollReturns data c')"
| "poll h maxReads c (qs # wakes) =
     (case poll_scan h maxReads 0 [] c of
        None \<Rightarrow> PollThrows
      | Some (data, c') \<Rightarrow>
          if data = [] then poll h maxReads (c'\<lparr>queues := qs\<rparr>) wakes else PollReturns data c')"

definition device__poll ::
  "handles \<Rightarrow> int \<Rightarrow> poll_context \<Rightarrow> sensor_event squeue list list \<Rightarrow> poll_result" where
  "device__poll h count ctx wakes = poll h count ctx wakes"

section \<open>Loading the sub-HALs\<close>

definition starts_with :: "string option \<Rightarrow> string option \<Rightarrow> bool" where
  "starts_with s pre =
     (case (s, pre) of
        (Some s', Some p) \<Rightarrow> length s' \<ge> length p \<and> take (length p) s' = p
      | _ \<Rightarrow> False)"

definition MULTI_HAL_CONFIG_FILE_PATH :: string where
  "MULTI_HAL_CONFIG_FILE_PATH = ''/vendor/etc/sensors/_hals.conf''"

definition DEPRECATED_MULTI_HAL_CONFIG_FILE_PATH :: string where
  "DEPRECATED_MULTI_HAL_CONFIG_FILE_PATH = ''/system/etc/sensors/_hals.conf''"

text \<open>
  The environment: the lines of a configuration file that can be opened, the module symbol
  of a library that can be loaded, the sensors of a module and the result of its open call.
  Modules are named by their address.
\<close>

record hal_env =
  config_lines :: "string \<Rightarrow> string list option"
  dlopen :: "string \<Rightarrow> nat option"
  dlsym :: "nat \<Rightarrow> nat option"
  module_sensors :: "nat \<Rightarrow> sensor list"
  module_open :: "nat \<Rightarrow> int + sub_device"

definition get_so_paths :: "hal_env \<Rightarrow> string list" where
  "get_so_paths env =
     (case config_lines env MULTI_HAL_CONFIG_FILE_PATH of
        Some lines \<Rightarrow> lines
      | None \<Rightarrow> (case config_lines env DEPRECATED_MULTI_HAL_CONFIG_FILE_PATH of
                  Some lines \<Rightarrow> lines
                | None \<Rightarrow> []))"

record mhal =
  sub_hw_modules :: "nat list option"
  sub_hw_versions :: "(nat \<rightharpoonup> int) option"
  hal_handles :: handles
  global_sensors_list :: "sensor list option"
  global_sensors_count :: int

definition init_mhal :: mhal where
  "init_mhal =
     \<lparr>sub_hw_modules = None, sub_hw_versions = None, hal_handles = init_handles,
      global_sensors_list = None, global_sensors_count = -1\<rparr>"

fun load_modules :: "hal_env \<Rightarrow> string list \<Rightarrow> nat list" where
  "load_modules env [] = []"
| "load_modules env (path # paths) =
     (case dlopen env path of
        None \<Rightarrow> load_modules env paths
      | Some lib_handle \<Rightarrow>
          (case dlsym env lib_handle of
             None \<Rightarrow> load_modules env paths
           | Some module \<Rightarrow> module # load_modules env paths))"

definition lazy_init_modules :: "hal_env \<Rightarrow> mhal \<Rightarrow> mhal" where
  "lazy_init_modules env s =
     (case sub_hw_modules s of
        Some _ \<Rightarrow> s
      | None \<Rightarrow> s\<lparr>sub_hw_modules := Some (load_modules env (get_so_paths env))\<rparr>)"

text \<open>The flag bits are those of \<^verbatim>\<open>hardware/sensors.h\<close>: wake-up is 1, on-change is 2.\<close>

definition SENSOR_FLAG_WAKE_UP :: int where
  "SENSOR_FLAG_WAKE_UP = 1"

definition SENSOR_FLAG_ON_CHANGE_MODE :: int where
  "SENSOR_FLAG_ON_CHANGE_MODE = 2"

definition fix_sensor_flags :: "(nat \<Rightarrow> int) \<Rightarrow> int \<Rightarrow> sensor \<Rightarrow> sensor" where
  "fix_sensor_flags API version s =
     (if version \<le> API 0 then
        let s1 = (if s_type s = SENSOR_TYPE_PROXIMITY \<or> s_type s = SENSOR_TYPE_TILT_DETECTOR
                  then s\<lparr>s_flags := or SENSOR_FLAG_WAKE_UP SENSOR_FLAG_ON_CHANGE_MODE\<rparr> else s)
        in if s_type s1 = SENSOR_TYPE_LIGHT
           then s1\<lparr>s_flags := SENSOR_FLAG_ON_CHANGE_MODE\<rparr> else s1
      else s)"

text \<open>
  The version of a module is looked up for each of its sensors: a null map is dereferenced
  when the device was not opened before, \<^verbatim>\<open>at\<close> throws for a module that failed to open.
\<close>

datatype mh_error = NullVersions | NoVersion

definition version_at :: "(nat \<rightharpoonup> int) option \<Rightarrow> nat \<Rightarrow> mh_error + int" where
  "version_at versions m =
     (case versions of
        None \<Rightarrow> Inl NullVersions
      | Some vs \<Rightarrow> (case vs m of None \<Rightarrow> Inl NoVersion | Some v \<Rightarrow> Inr v))"

fun add_module_sensors ::
  "(nat \<Rightarrow> int) \<Rightarrow> (nat \<rightharpoonup> int) option \<Rightarrow> nat \<Rightarrow> int \<Rightarrow> sensor list \<Rightarrow> handles \<Rightarrow>
   mh_error + (sensor list \<times> handles)" where
  "add_module_sensors API versions m module_index [] h = Inr ([], h)"
| "add_module_sensors API versions m module_index (s # ss) h =
     (let (global_handle, h1) = assign_global_handle h module_index (s_handle s)
      in case version_at versions m of
           Inl e \<Rightarrow> Inl e
         | Inr version \<Rightarrow>
             let g = fix_sensor_flags API version (s\<lparr>s_handle := global_handle\<rparr>)
             in (case add_module_sensors API versions m module_index ss h1 of
                   Inl e \<Rightarrow> Inl e
                 | Inr (gs, h2) \<Rightarrow> Inr (g # gs, h2)))"

fun add_all_sensors ::
  "(nat \<Rightarrow> int) \<Rightarrow> hal_env \<Rightarrow> (nat \<rightharpoonup> int) option \<Rightarrow> int \<Rightarrow> nat list \<Rightarrow> handles \<Rightarrow>
   mh_error + (sensor list \<times> handles)" where
  "add_all_sensors API env versions module_index [] h = Inr ([], h)"
| "add_all_sensors API env versions module_index (m # ms) h =
     (case add_module_sensors API versions m module_index (module_sensors env m) h of
        Inl e \<Rightarrow> Inl e
      | Inr (gs, h1) \<Rightarrow>
          (case add_all_sensors API env versions (module_index + 1) ms h1 of
             Inl e \<Rightarrow> Inl e
           | Inr (rest, h2) \<Rightarrow> Inr (gs @ rest, h2)))"

definition lazy_init_sensors_list :: "(nat \<Rightarrow> int) \<Rightarrow> hal_env \<Rightarrow> mhal \<Rightarrow> mh_error + mhal" where
  "lazy_init_sensors_list API env s =
     (case global_sensors_list s of
        Some _ \<Rightarrow> Inr s
      | None \<Rightarrow>
          let s1 = lazy_init_modules env s;
              modules = (case sub_hw_modules s1 of Some ms \<Rightarrow> ms | None \<Rightarrow> []);
              count = sum_list (map (\<lambda>m. int (length (module_sensors env m))) modules)
          in (case add_all_sensors API env (sub_hw_versions s1) 0 modules (hal_handles s1) of
                Inl e \<Rightarrow> Inl e
              | Inr (gs, h) \<Rightarrow>
                  Inr (s1\<lparr>global_sensors_count := count, hal_handles := h,
                          global_sensors_list := Some gs, sub_hw_versions := None\<rparr>)))"

definition module__get_sensors_list ::
  "(nat \<Rightarrow> int) \<Rightarrow> hal_env \<Rightarrow> mhal \<Rightarrow> mh_error + (int \<times> sensor list \<times> mhal)" where
  "module__get_sensors_list API env s =
     (case lazy_init_sensors_list API env s of
        Inl e \<Rightarrow> Inl e
      | Inr s1 \<Rightarrow>
          Inr (global_sensors_count s1,
               (case global_sensors_list s1 of Some gs \<Rightarrow> gs | None \<Rightarrow> []), s1))"

fun open_modules ::
  "hal_env \<Rightarrow> (nat \<Rightarrow> sensor_event) \<Rightarrow> nat list \<Rightarrow> poll_context \<times> (nat \<rightharpoonup> int) \<Rightarrow>
   poll_context \<times> (nat \<rightharpoonup> int)" where
  "open_modules env uninit [] (dev, versions) = (dev, versions)"
| "open_modules env uninit (m # ms) (dev, versions) =
     (case module_open env m of
        Inl err \<Rightarrow> open_modules env uninit ms (dev, versions)
      | Inr sub \<Rightarrow>
          open_modules env uninit ms
            (addSubHwDevice uninit dev sub,
             (case versions m of None \<Rightarrow> versions(m \<mapsto> d_version sub) | Some _ \<Rightarrow> versions)))"

text \<open>\<^verbatim>\<open>insert\<close> on the version map keeps an existing entry.\<close>

definition open_sensors ::
  "hal_env \<Rightarrow> (nat \<Rightarrow> sensor_event) \<Rightarrow> mhal \<Rightarrow> mhal \<times> poll_context" where
  "open_sensors env uninit s =
     (let s1 = lazy_init_modules env s;
          dev0 = \<lparr>sub_hw_devices = [], queues = [], nextReadIndex = 0\<rparr>;
          modules = (case sub_hw_modules s1 of Some ms \<Rightarrow> ms | None \<Rightarrow> []);
          (dev, versions) = open_modules env uninit modules (dev0, Map.empty)
      in (s1\<lparr>sub_hw_versions := Some versions\<rparr>, dev))"

section \<open>The handle tables\<close>

definition handles_inv :: "handles \<Rightarrow> bool" where
  "handles_inv h \<longleftrightarrow>
     0 < next_global_handle h \<and>
     (\<forall>g f. global_to_full h g = Some f \<longrightarrow> 0 < g \<and> g < next_global_handle h) \<and>
     (\<forall>f g. full_to_global h f = Some g \<longrightarrow> global_to_full h g = Some f)"

lemma handles_inv_init: "handles_inv init_handles"
  by (simp add: handles_inv_def init_handles_def)

lemma handles_inv_assign: "handles_inv h \<Longrightarrow> handles_inv (snd (assign_global_handle h m l))"
  unfolding handles_inv_def assign_global_handle_def Let_def
  by (auto split: if_splits)

text \<open>
  What the clients of the tables rely on: a fresh handle leads back to its sensor, the
  sensor to the handle assigned last, and earlier handles keep their sensor.
\<close>

locale handle_table =
  fixes inv :: "'t \<Rightarrow> bool"
    and assign :: "'t \<Rightarrow> 'f \<Rightarrow> int \<times> 't"
    and to_full :: "'t \<Rightarrow> int \<Rightarrow> 'f option"
    and to_global :: "'t \<Rightarrow> 'f \<Rightarrow> int option"
  assumes inv_assign: "inv t \<Longrightarrow> inv (snd (assign t f))"
    and to_full_assign:
      "inv t \<Longrightarrow> to_full (snd (assign t f)) g = (if g = fst (assign t f) then Some f else to_full t g)"
    and to_global_assign:
      "inv t \<Longrightarrow> to_global (snd (assign t f)) f' =
         (if f' = f then Some (fst (assign t f)) else to_global t f')"
    and fresh: "inv t \<Longrightarrow> to_full t (fst (assign t f)) = None"
begin

fun assign_all :: "'t \<Rightarrow> 'f list \<Rightarrow> int list \<times> 't" where
  "assign_all t [] = ([], t)"
| "assign_all t (f # fs) =
     (fst (assign t f) # fst (assign_all (snd (assign t f)) fs),
      snd (assign_all (snd (assign t f)) fs))"

lemma inv_assign_all: "inv t \<Longrightarrow> inv (snd (assign_all t fs))"
  by (induction fs arbitrary: t) (simp_all add: inv_assign)

lemma length_assign_all [simp]: "length (fst (assign_all t fs)) = length fs"
  by (induction fs arbitrary: t) simp_all

lemma assign_all_keeps:
  "inv t \<Longrightarrow> to_full t g = Some f \<Longrightarrow> to_full (snd (assign_all t fs)) g = Some f"
proof (induction fs arbitrary: t)
  case (Cons f' fs)
  with fresh [of t f'] have "to_full (snd (assign t f')) g = Some f"
    by (auto simp: to_full_assign)
  with Cons show ?case by (simp add: inv_assign)
qed simp

lemma assign_all_append:
  "assign_all t (fs @ fs') =
     (fst (assign_all t fs) @ fst (assign_all (snd (assign_all t fs)) fs'),
      snd (assign_all (snd (assign_all t fs)) fs'))"
  by (induction fs arbitrary: t) simp_all

lemma assign_all_other:
  "inv t \<Longrightarrow> f \<notin> set fs \<Longrightarrow> to_global (snd (assign_all t fs)) f = to_global t f"
  by (induction fs arbitrary: t) (auto simp: inv_assign to_global_assign)

theorem assign_all_round_trip:
  assumes "inv t" "distinct fs" "i < length fs"
  shows "to_full (snd (assign_all t fs)) (fst (assign_all t fs) ! i) = Some (fs ! i) \<and>
         to_global (snd (assign_all t fs)) (fs ! i) = Some (fst (assign_all t fs) ! i)"
  using assms
proof (induction fs arbitrary: t i)
  case (Cons f fs)
  let ?t1 = "snd (assign t f)"
  have t1: "inv ?t1" "to_full ?t1 (fst (assign t f)) = Some f" "to_global ?t1 f = Some (fst (assign t f))"
    using Cons.prems(1) by (simp_all add: inv_assign to_full_assign to_global_assign)
  show ?case
  proof (cases i)
    case 0
    with t1 Cons.prems(2) show ?thesis
      by (simp add: assign_all_keeps assign_all_other)
  next
    case (Suc j)
    with Cons.IH [OF t1(1), of j] Cons.prems show ?thesis by simp
  qed
qed simp

end

abbreviation "assign_full h f \<equiv> assign_global_handle h (moduleIndex f) (localHandle f)"

interpretation ht: handle_table handles_inv assign_full global_to_full full_to_global
  by unfold_locales
    (auto simp: handles_inv_assign assign_global_handle_def Let_def handles_inv_def)

section \<open>The merged sensor list\<close>

text \<open>The sensors in the order of the merged list, each with the index of its module.\<close>

fun full_sensors :: "hal_env \<Rightarrow> int \<Rightarrow> nat list \<Rightarrow> (int \<times> sensor) list" where
  "full_sensors env k [] = []"
| "full_sensors env k (m # ms) = map (Pair k) (module_sensors env m) @ full_sensors env (k + 1) ms"

definition full_of :: "int \<times> sensor \<Rightarrow> FullHandle" where
  "full_of x = FullHandle (fst x) (s_handle (snd x))"

lemma full_of_sel [simp]: "moduleIndex (full_of x) = fst x" "localHandle (full_of x) = s_handle (snd x)"
  by (simp_all add: full_of_def)

lemma full_sensors_mem:
  "(i, x) \<in> set (full_sensors env k ms) \<Longrightarrow>
   k \<le> i \<and> nat (i - k) < length ms \<and> x \<in> set (module_sensors env (ms ! nat (i - k)))"
proof (induction env k ms rule: full_sensors.induct)
  case (2 env k m ms)
  show ?case
  proof (cases "(i, x) \<in> set (full_sensors env (k + 1) ms)")
    case True
    then have "k + 1 \<le> i" and *: "nat (i - (k + 1)) < length ms"
      "x \<in> set (module_sensors env (ms ! nat (i - (k + 1))))"
      using 2(1) by auto
    then have "nat (i - k) = Suc (nat (i - (k + 1)))" by simp
    with * \<open>k + 1 \<le> i\<close> show ?thesis by simp
  next
    case False
    with 2(2) show ?thesis by auto
  qed
qed simp

lemma full_sensors_at:
  "j < length ms \<Longrightarrow> x \<in> set (module_sensors env (ms ! j)) \<Longrightarrow>
   (k + int j, x) \<in> set (full_sensors env k ms)"
proof (induction env k ms arbitrary: j rule: full_sensors.induct)
  case (2 env k m ms)
  then show ?case
    by (cases j) (auto simp: algebra_simps)
qed simp

lemma length_full_sensors:
  "int (length (full_sensors env k ms)) =
     sum_list (map (\<lambda>m. int (length (module_sensors env m))) ms)"
  by (induction env k ms rule: full_sensors.induct) simp_all

lemma fix_sensor_flags_keeps [simp]:
  "s_handle (fix_sensor_flags API v s) = s_handle s"
  "s_type (fix_sensor_flags API v s) = s_type s"
  by (simp_all add: fix_sensor_flags_def Let_def)

lemma add_module_sensors_Inr:
  "add_module_sensors API versions m k ss h = Inr (gs, h') \<Longrightarrow>
   (map s_handle gs, h') = ht.assign_all h (map (\<lambda>s. full_of (k, s)) ss) \<and>
   map s_type gs = map s_type ss"
proof (induction API versions m k ss h arbitrary: gs h' rule: add_module_sensors.induct)
  case (2 API versions m k s ss h)
  obtain g h1 where a: "assign_global_handle h k (s_handle s) = (g, h1)" by force
  with 2(2) obtain v gs' where "version_at versions m = Inr v"
    and r: "add_module_sensors API versions m k ss h1 = Inr (gs', h')"
    and gs: "gs = fix_sensor_flags API v (s\<lparr>s_handle := g\<rparr>) # gs'"
    by (auto simp: Let_def split: sum.splits)
  have "(map s_handle gs', h') = ht.assign_all h1 (map (\<lambda>s. full_of (k, s)) ss) \<and>
        map s_type gs' = map s_type ss"
    using 2(1) [OF a [symmetric] refl \<open>version_at versions m = Inr v\<close> refl r] .
  then show ?case
    by (simp add: gs a prod_eq_iff)
qed simp

lemma add_all_sensors_Inr:
  "add_all_sensors API env versions k ms h = Inr (gs, h') \<Longrightarrow>
   (map s_handle gs, h') = ht.assign_all h (map full_of (full_sensors env k ms)) \<and>
   map s_type gs = map (\<lambda>x. s_type (snd x)) (full_sensors env k ms)"
proof (induction API env versions k ms h arbitrary: gs h' rule: add_all_sensors.induct)
  case (2 API env versions k m ms h)
  from 2(2) obtain g1 h1 g2
    where a: "add_module_sensors API versions m k (module_sensors env m) h = Inr (g1, h1)"
      and r: "add_all_sensors API env versions (k + 1) ms h1 = Inr (g2, h')" and gs: "gs = g1 @ g2"
    by (auto split: sum.splits)
  show ?case
    using 2(1) [OF a refl r] add_module_sensors_Inr [OF a]
    by (simp add: gs ht.assign_all_append comp_def prod_eq_iff)
qed simp

text \<open>Looking up the version is the only step that can fail.\<close>

lemma add_module_sensors_total:
  "version_at versions m = Inr v \<Longrightarrow> \<exists>r. add_module_sensors API versions m k ss h = Inr r"
  by (induction API versions m k ss h rule: add_module_sensors.induct)
    (force simp: Let_def split: prod.splits sum.splits)+

lemma add_all_sensors_total:
  "\<forall>m \<in> set ms. \<exists>v. version_at versions m = Inr v \<Longrightarrow>
   \<exists>r. add_all_sensors API env versions k ms h = Inr r"
proof (induction API env versions k ms h rule: add_all_sensors.induct)
  case (2 API env versions k m ms h)
  then obtain v where "version_at versions m = Inr v" by auto
  then obtain g1 h1 where a: "add_module_sensors API versions m k (module_sensors env m) h = Inr (g1, h1)"
    using add_module_sensors_total by (metis surj_pair)
  obtain r where "add_all_sensors API env versions (k + 1) ms h1 = Inr r"
    using 2(1) [OF a refl] 2(2) by auto
  with a show ?case by (cases r) simp
qed simp

definition loaded :: "hal_env \<Rightarrow> nat list" where
  "loaded env = load_modules env (get_so_paths env)"

lemma lazy_init_modules_init [simp]:
  "lazy_init_modules env init_mhal = init_mhal\<lparr>sub_hw_modules := Some (loaded env)\<rparr>"
  by (simp add: lazy_init_modules_def init_mhal_def loaded_def)

section \<open>Opening the sub-devices\<close>

text \<open>The devices of the modules that open, in the order of the modules.\<close>

definition opened :: "hal_env \<Rightarrow> nat list \<Rightarrow> sub_device list" where
  "opened env ms = concat (map (\<lambda>m. case module_open env m of Inl _ \<Rightarrow> [] | Inr d \<Rightarrow> [d]) ms)"

lemma open_modules_devices:
  "open_modules env uninit ms (dev, vs) = (dev', vs') \<Longrightarrow>
   sub_hw_devices dev' = sub_hw_devices dev @ opened env ms \<and>
   queues dev' = queues dev @ replicate (length (opened env ms))
                                (SensorEventQueue uninit SENSOR_EVENT_QUEUE_CAPACITY) \<and>
   nextReadIndex dev' = nextReadIndex dev"
  by (induction env uninit ms "(dev, vs)" arbitrary: dev vs rule: open_modules.induct)
    (auto simp: opened_def addSubHwDevice_def split: sum.splits)

lemma open_modules_versions:
  "open_modules env uninit ms (dev, vs) = (dev', vs') \<Longrightarrow>
   vs' m \<noteq> None \<longleftrightarrow> vs m \<noteq> None \<or> (m \<in> set ms \<and> (\<exists>d. module_open env m = Inr d))"
  by (induction env uninit ms "(dev, vs)" arbitrary: dev vs rule: open_modules.induct)
    (auto split: sum.splits option.splits if_splits)

lemma opened_all:
  "\<forall>m \<in> set ms. module_open env m = Inr (dev m) \<Longrightarrow> opened env ms = map dev ms"
  by (induction ms) (auto simp: opened_def)

lemma open_sensors_init:
  assumes "open_sensors env uninit init_mhal = (s1, ctx)"
  obtains vs where "s1 = init_mhal\<lparr>sub_hw_modules := Some (loaded env), sub_hw_versions := Some vs\<rparr>"
    and "sub_hw_devices ctx = opened env (loaded env)"
    and "queues ctx = replicate (length (opened env (loaded env)))
                        (SensorEventQueue uninit SENSOR_EVENT_QUEUE_CAPACITY)"
    and "nextReadIndex ctx = 0"
    and "\<And>m. vs m \<noteq> None \<longleftrightarrow> m \<in> set (loaded env) \<and> (\<exists>d. module_open env m = Inr d)"
proof -
  let ?dev0 = "\<lparr>sub_hw_devices = [], queues = [], nextReadIndex = 0\<rparr>"
  obtain dev vs where o: "open_modules env uninit (loaded env) (?dev0, Map.empty) = (dev, vs)"
    by force
  then have "s1 = init_mhal\<lparr>sub_hw_modules := Some (loaded env), sub_hw_versions := Some vs\<rparr>"
    "ctx = dev"
    using assms by (simp_all add: open_sensors_def Let_def)
  with that [of vs] open_modules_devices [OF o] open_modules_versions [OF o] show ?thesis
    by simp
qed

text \<open>
  The result of the list call after an open: the assigned handles lead from each sensor of
  the merged list to its module and local handle and back.
\<close>

lemma sensors_list_spec:
  assumes "lazy_init_sensors_list API env s = Inr s2" "global_sensors_list s = None"
    and "sub_hw_modules (lazy_init_modules env s) = Some ms"
    and "hal_handles (lazy_init_modules env s) = init_handles"
    and "distinct (map full_of (full_sensors env 0 ms))"
  obtains gs where "global_sensors_list s2 = Some gs"
    and "global_sensors_count s2 = int (length gs)"
    and "length gs = length (full_sensors env 0 ms)"
    and "map s_type gs = map (\<lambda>x. s_type (snd x)) (full_sensors env 0 ms)"
    and "\<And>i. i < length gs \<Longrightarrow>
           global_to_full (hal_handles s2) (s_handle (gs ! i)) = Some (full_of (full_sensors env 0 ms ! i)) \<and>
           full_to_global (hal_handles s2) (full_of (full_sensors env 0 ms ! i)) = Some (s_handle (gs ! i))"
proof -
  let ?s1 = "lazy_init_modules env s"
  let ?fs = "full_sensors env 0 ms"
  from assms obtain gs h where a: "add_all_sensors API env (sub_hw_versions ?s1) 0 ms init_handles = Inr (gs, h)"
    and s2: "global_sensors_list s2 = Some gs" "hal_handles s2 = h"
      "global_sensors_count s2 = sum_list (map (\<lambda>m. int (length (module_sensors env m))) ms)"
    by (auto simp: lazy_init_sensors_list_def Let_def split: sum.splits)
  note b = add_all_sensors_Inr [OF a]
  then have gs: "map s_handle gs = fst (ht.assign_all init_handles (map full_of ?fs))"
    and h: "h = snd (ht.assign_all init_handles (map full_of ?fs))"
    by (metis fst_conv, metis snd_conv)
  have len: "length gs = length ?fs"
    using arg_cong [OF gs, of length] by simp
  have "int (length gs) = global_sensors_count s2"
    by (simp add: len length_full_sensors s2)
  moreover have "global_to_full h (s_handle (gs ! i)) = Some (full_of (?fs ! i)) \<and>
      full_to_global h (full_of (?fs ! i)) = Some (s_handle (gs ! i))" if "i < length gs" for i
    using ht.assign_all_round_trip [OF handles_inv_init assms(5), of i] that
    by (simp add: len h flip: gs)
  ultimately show thesis
    using that [of gs] b s2 len by simp
qed

section \<open>Polling drains the queues in order\<close>

definition poll_inv :: "poll_context \<Rightarrow> bool" where
  "poll_inv c \<longleftrightarrow>
     (\<forall>q \<in> set (queues c). squeue_inv q) \<and> (queues c \<noteq> [] \<longrightarrow> nextReadIndex c < length (queues c))"

text \<open>
  What a scan takes, as pairs of a queue's index and an event, in the order taken; what it
  delivers is what is left after renaming and dropping the unknown ones.
\<close>

definition delivered :: "handles \<Rightarrow> (nat \<times> sensor_event) list \<Rightarrow> sensor_event list" where
  "delivered h taken =
     filter (\<lambda>e. ev_sensor e \<noteq> -1) (map (\<lambda>(j, e). copy_event_remap_handle h e (int j)) taken)"

definition taken_from :: "nat \<Rightarrow> (nat \<times> sensor_event) list \<Rightarrow> sensor_event list" where
  "taken_from j taken = map snd (filter (\<lambda>x. fst x = j) taken)"

lemma poll_inv_step:
  assumes "poll_inv c" "nextReadIndex c < length (queues c)"
  shows "poll_inv (c\<lparr>nextReadIndex := (nextReadIndex c + 1) mod length (queues c)\<rparr>)"
    and "poll_inv (c\<lparr>queues := (queues c)[nextReadIndex c := dequeue_q (queues c ! nextReadIndex c)],
                   nextReadIndex := (nextReadIndex c + 1) mod length (queues c)\<rparr>)"
  using assms
  by (auto simp: poll_inv_def
      dest!: set_update_subset_insert [THEN subsetD] intro!: sq.inv_deq mod_less_divisor)

lemma poll_scan_stop:
  "\<not> (e < length (queues c) \<and> int (length data) < m) \<Longrightarrow> poll_scan h m e data c = Some (data, c)"
  by (subst poll_scan.simps) auto

lemma poll_scan_empty:
  assumes "e < length (queues c) \<and> int (length data) < m" "nextReadIndex c < length (queues c)"
    and "peek (queues c ! nextReadIndex c) = None"
  shows "poll_scan h m e data c =
           poll_scan h m (e + 1) data (c\<lparr>nextReadIndex := (nextReadIndex c + 1) mod length (queues c)\<rparr>)"
  using assms by (subst poll_scan.simps) (simp add: Let_def)

lemma poll_scan_event:
  assumes "e < length (queues c) \<and> int (length data) < m" "nextReadIndex c < length (queues c)"
    and "peek (queues c ! nextReadIndex c) = Some ev"
    and "copied = copy_event_remap_handle h ev (int (nextReadIndex c))"
  shows "poll_scan h m e data c =
           poll_scan h m 0 (if ev_sensor copied = -1 then data else data @ [copied])
             (c\<lparr>queues := (queues c)[nextReadIndex c := dequeue_q (queues c ! nextReadIndex c)],
                nextReadIndex := (nextReadIndex c + 1) mod length (queues c)\<rparr>)"
  using assms by (subst poll_scan.simps) (simp add: Let_def)

lemma poll_scan_taken:
  assumes "poll_inv c"
  shows "\<exists>data' c' taken.
     poll_scan h m e data c = Some (data', c') \<and> data' = data @ delivered h taken \<and> poll_inv c' \<and>
     length (queues c') = length (queues c) \<and> sub_hw_devices c' = sub_hw_devices c \<and>
     (\<forall>j < length (queues c). readable (queues c ! j) = taken_from j taken @ readable (queues c' ! j))"
  using assms
proof (induction h m e data c rule: poll_scan.induct)
  case (1 h m e data c)
  let ?n = "length (queues c)" and ?i = "nextReadIndex c"
  let ?next = "(?i + 1) mod ?n" and ?q = "queues c ! ?i"
  show ?case
  proof (cases "e < ?n \<and> int (length data) < m")
    case False
    with 1(3) show ?thesis
      by (auto simp: poll_scan_stop delivered_def taken_from_def intro!: exI [of _ "[]"])
  next
    case True
    then have i: "?i < ?n" using 1(3) by (auto simp: poll_inv_def)
    note inv = poll_inv_step [OF 1(3) i]
    have qi: "squeue_inv ?q" using 1(3) i by (simp add: poll_inv_def)
    show ?thesis
    proof (cases "peek ?q")
      case None
      with 1(1) [OF True i refl refl None inv(1)] show ?thesis
        by (simp add: poll_scan_empty [OF True i])
    next
      case (Some ev)
      let ?copied = "copy_event_remap_handle h ev (int ?i)"
      let ?kept = "if ev_sensor ?copied = -1 then data else data @ [?copied]"
      let ?c = "c\<lparr>queues := (queues c)[?i := dequeue_q ?q], nextReadIndex := ?next\<rparr>"
      obtain data' c' taken where r: "poll_scan h m 0 ?kept ?c = Some (data', c')"
        "data' = ?kept @ delivered h taken" "poll_inv c'" "length (queues c') = ?n"
        "sub_hw_devices c' = sub_hw_devices c"
        "\<forall>j < ?n. readable (queues ?c ! j) = taken_from j taken @ readable (queues c' ! j)"
        using 1(2) [OF True i refl refl Some refl refl refl inv(2)] by auto
      have "readable (queues c ! j) = taken_from j ((?i, ev) # taken) @ readable (queues c' ! j)"
        if "j < ?n" for j
        using r(6) that sq.front_Some [OF qi Some]
        by (cases "j = ?i") (auto simp: taken_from_def nth_list_update)
      moreover have "?kept @ delivered h taken = data @ delivered h ((?i, ev) # taken)"
        by (simp add: delivered_def)
      moreover have "poll_scan h m e data c = Some (data', c')"
        using r(1) by (simp only: poll_scan_event [OF True i Some refl])
      ultimately show ?thesis
        using r by (metis (no_types, lifting))
    qed
  qed
qed

text \<open>The queues found empty since the last event are the ones just behind the read index.\<close>

definition empties_behind :: "nat \<Rightarrow> poll_context \<Rightarrow> bool" where
  "empties_behind e c \<longleftrightarrow>
     (\<forall>d < length (queues c). length (queues c) \<le> d + e \<longrightarrow>
        readable (queues c ! ((nextReadIndex c + d) mod length (queues c))) = [])"

lemma empties_behind_next:
  assumes "empties_behind e c" "i = nextReadIndex c" "i < length (queues c)" "readable (queues c ! i) = []"
  shows "empties_behind (e + 1) (c\<lparr>nextReadIndex := (i + 1) mod length (queues c)\<rparr>)"
proof -
  let ?n = "length (queues c)"
  have "readable (queues c ! ((i + 1 + d) mod ?n)) = []" if "d < ?n" "?n \<le> d + (e + 1)" for d
  proof (cases "d + 1 = ?n")
    case True
    then have "i + 1 + d = i + ?n" by simp
    then have "(i + 1 + d) mod ?n = i"
      using assms(3) by (simp only: mod_add_self2 mod_less)
    with assms(4) show ?thesis by simp
  next
    case False
    with that assms(1,2) show ?thesis
      by (auto simp: empties_behind_def dest!: spec [of _ "d + 1"])
  qed
  then show ?thesis
    by (simp add: empties_behind_def mod_add_left_eq)
qed

lemma empties_behind_all:
  assumes "empties_behind e c" "length (queues c) \<le> e" "nextReadIndex c < length (queues c)"
    and "j < length (queues c)"
  shows "readable (queues c ! j) = []"
proof -
  let ?n = "length (queues c)" and ?i = "nextReadIndex c"
  let ?d = "if ?i \<le> j then j - ?i else j + ?n - ?i"
  have "(?i + ?d) mod ?n = j" "?d < ?n" using assms(3,4) by auto
  with assms(1,2) show ?thesis by (metis empties_behind_def trans_le_add2)
qed

lemma poll_scan_stops:
  assumes "poll_inv c" "empties_behind e c" "int (length data) \<le> m"
    and "poll_scan h m e data c = Some (data', c')"
  shows "int (length data') \<le> m \<and>
         (int (length data') < m \<longrightarrow> (\<forall>j < length (queues c'). readable (queues c' ! j) = []))"
  using assms
proof (induction h m e data c rule: poll_scan.induct)
  case (1 h m e data c)
  let ?n = "length (queues c)" and ?i = "nextReadIndex c"
  let ?q = "queues c ! ?i"
  show ?case
  proof (cases "e < ?n \<and> int (length data) < m")
    case False
    then have "data' = data" "c' = c"
      using 1(6) by (simp_all add: poll_scan_stop)
    moreover have "readable (queues c ! j) = []" if "j < ?n" "int (length data) < m" for j
      using False that 1(3,4) empties_behind_all [of e c j] by (auto simp: poll_inv_def)
    ultimately show ?thesis using 1(5) by simp
  next
    case True
    then have i: "?i < ?n" using 1(3) by (auto simp: poll_inv_def)
    note inv = poll_inv_step [OF 1(3) i]
    have qi: "squeue_inv ?q" using 1(3) i by (simp add: poll_inv_def)
    show ?thesis
    proof (cases "peek ?q")
      case None
      then have "empties_behind (e + 1) (c\<lparr>nextReadIndex := (?i + 1) mod ?n\<rparr>)"
        using empties_behind_next [OF 1(4) refl i] sq.front_None_iff [OF qi] by simp
      with 1(1) [OF True i refl refl None inv(1)] 1(5,6) show ?thesis
        by (simp add: poll_scan_empty [OF True i None])
    next
      case (Some ev)
      from 1(2) [OF True i refl refl Some refl refl refl inv(2)] 1(6) True show ?thesis
        by (simp only: poll_scan_event [OF True i Some refl]) (simp add: empties_behind_def)
    qed
  qed
qed

section \<open>Properties\<close>

text \<open>C1.
  A scan of the poll loop never leaves the vector of queues, keeps the queues well-formed,
  returns at most \<^verbatim>\<open>maxReads\<close> events, and takes the events of each sub-HAL in the order the
  sub-HAL produced them, with none lost and none repeated: what each queue held before is
  what was taken from it followed by what it still holds, and the result is what was taken,
  renamed, without the events of unknown sensors. If it returns fewer than \<^verbatim>\<open>maxReads\<close>
  events then all queues are empty.
\<close>

theorem poll_scan_fifo:
  assumes "poll_inv c" "0 \<le> maxReads"
  shows "\<exists>c' taken.
     poll_scan h maxReads 0 [] c = Some (delivered h taken, c') \<and> poll_inv c' \<and>
     int (length (delivered h taken)) \<le> maxReads \<and>
     (\<forall>j < length (queues c). readable (queues c ! j) = taken_from j taken @ readable (queues c' ! j)) \<and>
     (int (length (delivered h taken)) < maxReads \<longrightarrow>
        (\<forall>j < length (queues c). readable (queues c' ! j) = []))"
proof -
  obtain data' c' taken where *: "poll_scan h maxReads 0 [] c = Some (data', c')"
    "data' = delivered h taken" "poll_inv c'" "length (queues c') = length (queues c)"
    "\<forall>j < length (queues c). readable (queues c ! j) = taken_from j taken @ readable (queues c' ! j)"
    using poll_scan_taken [OF assms(1), of h maxReads 0 "[]"] by auto
  with poll_scan_stops [OF assms(1) _ _ *(1)] assms(2) show ?thesis
    by (auto simp: empties_behind_def)
qed

definition ex_event :: "sensor_type \<Rightarrow> int \<Rightarrow> sensor_event" where
  "ex_event t n = \<lparr>ev_type = t, ev_sensor = n, ev_meta_sensor = n, ev_payload = 0\<rparr>"

definition ex_queue :: "sensor_event list \<Rightarrow> sensor_event squeue" where
  "ex_queue evs = \<lparr>mCapacity = 4, mStart = 3, mSize = length evs,
     mData = [ex_event SENSOR_TYPE_LIGHT 9, ex_event SENSOR_TYPE_LIGHT 9,
              ex_event SENSOR_TYPE_LIGHT 9, ex_event SENSOR_TYPE_LIGHT 7]\<rparr>"

definition ex_context :: poll_context where
  "ex_context = \<lparr>sub_hw_devices = [], queues = [ex_queue [], ex_queue [ex_event SENSOR_TYPE_LIGHT 7]],
     nextReadIndex = 0\<rparr>"

lemma ex_context_inv: "poll_inv ex_context"
  by (simp add: poll_inv_def ex_context_def ex_queue_def squeue_inv_def)

lemma ex_context_queues: "length (queues ex_context) = 2" "readable (queues ex_context ! 1) = [ex_event SENSOR_TYPE_LIGHT 7]"
  by (simp_all add: ex_context_def ex_queue_def readable_def slot_def)

theorem poll_scan_fifo_witness:
  "poll_inv ex_context \<and> (\<exists>c' taken.
     poll_scan init_handles 3 0 [] ex_context = Some (delivered init_handles taken, c') \<and>
     taken_from 1 taken @ readable (queues c' ! 1) = [ex_event SENSOR_TYPE_LIGHT 7])"
proof -
  obtain c' taken
    where "poll_scan init_handles 3 0 [] ex_context = Some (delivered init_handles taken, c')"
      and "\<forall>j < length (queues ex_context). readable (queues ex_context ! j) =
             taken_from j taken @ readable (queues c' ! j)"
    using poll_scan_fifo [OF ex_context_inv, of 3 init_handles] by auto
  then show ?thesis
    using ex_context_inv ex_context_queues by (metis one_less_numeral_iff semiring_norm(76))
qed

text \<open>C4.
  When every sub-HAL opens, has distinct local handles and the device is opened before the
  sensors are listed, the list call succeeds, and a call for the global handle of any listed
  sensor reaches the device of the sub-HAL that listed it, under its local handle.
\<close>

theorem activate_reaches_owner:
  assumes "\<forall>m \<in> set (loaded env). module_open env m = Inr (dev m)"
    and "distinct (map full_of (full_sensors env 0 (loaded env)))"
    and "open_sensors env uninit init_mhal = (s1, ctx)"
    and "k < length (loaded env)" "x \<in> set (module_sensors env (loaded env ! k))" "0 \<le> s_handle x"
  shows "\<exists>n gs s2 g. module__get_sensors_list API env s1 = Inr (n, gs, s2) \<and> n = int (length gs) \<and>
     g \<in> set gs \<and> s_type g = s_type x \<and>
     (let call = Activate (d_addr (dev (loaded env ! k))) (s_handle x) enabled
      in device__activate ret (hal_handles s2) ctx (s_handle g) enabled = (ret call, [call]))"
proof -
  let ?ms = "loaded env"
  obtain vs where s1: "s1 = init_mhal\<lparr>sub_hw_modules := Some ?ms, sub_hw_versions := Some vs\<rparr>"
    and ctx: "sub_hw_devices ctx = map dev ?ms"
    and vs: "\<And>m. vs m \<noteq> None \<longleftrightarrow> m \<in> set ?ms \<and> (\<exists>d. module_open env m = Inr d)"
    using open_sensors_init [OF assms(3)] opened_all [OF assms(1)] by metis
  have lazy: "lazy_init_modules env s1 = s1"
    by (simp add: lazy_init_modules_def s1)
  have "\<forall>m \<in> set ?ms. \<exists>v. version_at (sub_hw_versions s1) m = Inr v"
    using vs assms(1) by (fastforce simp: version_at_def s1 split: option.splits)
  then obtain s2 where s2: "lazy_init_sensors_list API env s1 = Inr s2"
    using add_all_sensors_total [of ?ms "sub_hw_versions s1" API env 0 init_handles]
    by (auto simp: lazy_init_sensors_list_def lazy_init_modules_def Let_def s1 init_mhal_def
        split: prod.splits)
  have init: "global_sensors_list s1 = None" "sub_hw_modules (lazy_init_modules env s1) = Some ?ms"
    "hal_handles (lazy_init_modules env s1) = init_handles"
    unfolding lazy by (simp_all add: s1 init_mhal_def)
  obtain gs where gs: "global_sensors_list s2 = Some gs" "global_sensors_count s2 = int (length gs)"
    "length gs = length (full_sensors env 0 ?ms)"
    "map s_type gs = map (\<lambda>y. s_type (snd y)) (full_sensors env 0 ?ms)"
    "\<forall>i < length gs.
       global_to_full (hal_handles s2) (s_handle (gs ! i)) = Some (full_of (full_sensors env 0 ?ms ! i))"
    by (rule sensors_list_spec [OF s2 init assms(2)]) blast
  obtain i where i: "i < length gs" "full_sensors env 0 ?ms ! i = (int k, x)"
    using full_sensors_at [OF assms(4,5), of 0] by (auto simp: in_set_conv_nth gs(3))
  have "s_type (gs ! i) = s_type x"
    using arg_cong [OF gs(4), of "\<lambda>l. l ! i"] i gs(3) by simp
  moreover have "device__activate ret (hal_handles s2) ctx (s_handle (gs ! i)) enabled =
      (let call = Activate (d_addr (dev (?ms ! k))) (s_handle x) enabled in (ret call, [call]))"
    using gs(5) i assms(4,6)
    by (simp add: device__activate_def activate_def get_v0_device_by_handle_def get_local_handle_def
        get_module_index_def ctx)
  ultimately show ?thesis
    using gs(1,2) i(1)
    by (auto simp: module__get_sensors_list_def s2 Let_def intro!: exI [of _ "gs ! i"])
qed

definition ex_sensor :: "int \<Rightarrow> sensor" where
  "ex_sensor l = \<lparr>s_handle = l, s_type = SENSOR_TYPE_LIGHT, s_flags = 0, s_minDelay = 0,
                  s_maxDelay = 0, s_info = 0\<rparr>"

definition ex_env :: hal_env where
  "ex_env = \<lparr>config_lines = (\<lambda>p. if p = DEPRECATED_MULTI_HAL_CONFIG_FILE_PATH
                                 then Some [''a.so'', ''missing.so'', ''b.so''] else None),
     dlopen = (\<lambda>p. if p = ''a.so'' then Some 1 else if p = ''b.so'' then Some 2 else None),
     dlsym = Some, module_sensors = (\<lambda>m. [ex_sensor 5, ex_sensor 6]),
     module_open = (\<lambda>m. Inr \<lparr>d_addr = 10 * m, d_version = 1\<rparr>)\<rparr>"

lemma ex_env_loaded: "loaded ex_env = [1, 2]"
  by (simp add: loaded_def get_so_paths_def ex_env_def MULTI_HAL_CONFIG_FILE_PATH_def
      DEPRECATED_MULTI_HAL_CONFIG_FILE_PATH_def)

theorem activate_reaches_owner_witness:
  "\<exists>s1 ctx n gs s2 g. open_sensors ex_env (\<lambda>_. ex_event SENSOR_TYPE_LIGHT 0) init_mhal = (s1, ctx) \<and>
     module__get_sensors_list (\<lambda>k. int k) ex_env s1 = Inr (n, gs, s2) \<and> g \<in> set gs \<and>
     device__activate (\<lambda>_. 0) (hal_handles s2) ctx (s_handle g) 1 = (0, [Activate 20 6 1])"
proof -
  obtain s1 ctx where o: "open_sensors ex_env (\<lambda>_. ex_event SENSOR_TYPE_LIGHT 0) init_mhal = (s1, ctx)" by force
  have "\<exists>n gs s2 g. module__get_sensors_list (\<lambda>k. int k) ex_env s1 = Inr (n, gs, s2) \<and>
     n = int (length gs) \<and> g \<in> set gs \<and> s_type g = s_type (ex_sensor 6) \<and>
     (let call = Activate (d_addr \<lparr>d_addr = 10 * (loaded ex_env ! 1), d_version = 1\<rparr>)
                   (s_handle (ex_sensor 6)) 1
      in device__activate (\<lambda>_. 0) (hal_handles s2) ctx (s_handle g) 1 = (0, [call]))"
    by (rule activate_reaches_owner [OF _ _ o])
      (simp_all add: ex_env_loaded, simp_all add: ex_env_def full_of_def ex_sensor_def)
  with o show ?thesis
    by (auto simp: ex_env_loaded ex_sensor_def)
qed

section \<open>Where the code and its comments part\<close>

text \<open>
  The comment of \<^verbatim>\<open>lazy_init_modules\<close> lets the list call come first; the version table is
  then still null and is dereferenced for the first sensor.
\<close>

theorem list_before_open_fails:
  assumes "loaded env = m # ms" "module_sensors env m = x # xs"
  shows "module__get_sensors_list API env init_mhal = Inl NullVersions"
proof -
  let ?s1 = "lazy_init_modules env init_mhal"
  have "add_all_sensors API env (sub_hw_versions ?s1) 0 (m # ms) (hal_handles ?s1) = Inl NullVersions"
    by (simp add: assms(2) assign_global_handle_def Let_def) (simp add: version_at_def init_mhal_def)
  moreover have "sub_hw_modules ?s1 = Some (m # ms)" "global_sensors_list init_mhal = None"
    by (simp add: assms(1)) (simp add: init_mhal_def)
  ultimately show ?thesis
    by (simp add: module__get_sensors_list_def lazy_init_sensors_list_def Let_def
        del: lazy_init_modules_init add_all_sensors.simps)
qed

text \<open>
  The poll loop drops an event whose sensor is unknown, so as not to pass a corrupted event
  on, but looks at the outer sensor field only: a meta-data event of an unknown sensor is
  delivered with the handle -1 in it.
\<close>

theorem unknown_meta_data_delivered:
  "ev_sensor e \<noteq> -1 \<Longrightarrow> ev_type e = SENSOR_TYPE_META_DATA \<Longrightarrow>
   delivered init_handles [(j, e)] = [e\<lparr>ev_meta_sensor := -1\<rparr>]"
  by (simp add: delivered_def copy_event_remap_handle_def get_global_handle_def init_handles_def)

text \<open>An injected event reaches the sub-device's function with the proxy device and the global handle.\<close>

theorem inject_passes_proxy:
  "get_v1_device_by_handle h c (ev_sensor e) = Some v1 \<Longrightarrow> 0 \<le> get_local_handle h (ev_sensor e) \<Longrightarrow>
   halIsAPILevelCompliant h c (ev_sensor e) (API 4) \<Longrightarrow>
   snd (device__inject_sensor_data API ret h c proxy e) = [Inject (d_addr v1) proxy e]"
  by (simp add: device__inject_sensor_data_def inject_sensor_data_def Let_def)

end
