(* ===== verification/RilEvent.thy ===== *)
theory RilEvent
  imports Prelude
begin

text \<open>
  The event loop of the radio interface daemon, \<^verbatim>\<open>hal/libril/ril_event.cpp\<close>: events are
  objects in a heap, linked into two circular doubly linked lists (the timers, the pending
  events) and entered into a table of watched file descriptors. The pointer operations are
  shown to implement lists (locale \<open>rings\<close>), and the loop's steps are described on those
  lists. The clock, \<^verbatim>\<open>select\<close> and the callbacks are parameters.
\<close>

section \<open>Times\<close>

record timeval =
  tv_sec :: int
  tv_usec :: int

definition timeradd :: "timeval \<Rightarrow> timeval \<Rightarrow> timeval" where
  "timeradd tvp uvp =
     (let sec = tv_sec tvp + tv_sec uvp; usec = tv_usec tvp + tv_usec uvp
      in if usec \<ge> 1000000 then \<lparr>tv_sec = sec + 1, tv_usec = usec - 1000000\<rparr>
         else \<lparr>tv_sec = sec, tv_usec = usec\<rparr>)"

definition timercmp :: "timeval \<Rightarrow> timeval \<Rightarrow> (int \<Rightarrow> int \<Rightarrow> bool) \<Rightarrow> bool" where
  "timercmp a b cmp =
     (if tv_sec a = tv_sec b then cmp (tv_usec a) (tv_usec b) else cmp (tv_sec a) (tv_sec b))"

definition timersub :: "timeval \<Rightarrow> timeval \<Rightarrow> timeval" where
  "timersub a b =
     (let sec = tv_sec a - tv_sec b; usec = tv_usec a - tv_usec b
      in if usec < 0 then \<lparr>tv_sec = sec - 1, tv_usec = usec + 1000000\<rparr>
         else \<lparr>tv_sec = sec, tv_usec = usec\<rparr>)"

text \<open>A normalised time and its length in microseconds.\<close>

definition tv_ok :: "timeval \<Rightarrow> bool" where
  "tv_ok t \<longleftrightarrow> 0 \<le> tv_usec t \<and> tv_usec t < 1000000"

definition usecs :: "timeval \<Rightarrow> int" where
  "usecs t = tv_sec t * 1000000 + tv_usec t"

lemma timercmp_usecs [simp]:
  assumes "tv_ok a" "tv_ok b"
  shows "timercmp a b (<) \<longleftrightarrow> usecs a < usecs b" "timercmp a b (>) \<longleftrightarrow> usecs b < usecs a"
  using assms by (auto simp: timercmp_def usecs_def tv_ok_def)

lemma timeradd_ok:
  assumes "tv_ok a" "tv_ok b"
  shows "tv_ok (timeradd a b)" "usecs (timeradd a b) = usecs a + usecs b"
  using assms by (auto simp: timeradd_def usecs_def tv_ok_def Let_def)

lemma timersub_ok:
  assumes "tv_ok a" "tv_ok b"
  shows "tv_ok (timersub a b)" "usecs (timersub a b) = usecs a - usecs b"
  using assms by (auto simp: timersub_def usecs_def tv_ok_def Let_def)

section \<open>Events in the heap\<close>

text \<open>
  An address is a number, 0 is \<^verbatim>\<open>NULL\<close>; the heads of the two lists are objects of their own.
  The callback of an event is named by a number.
\<close>

type_synonym addr = nat

record ril_event =
  next_ev :: addr
  prev_ev :: addr
  fd :: int
  index :: int
  persist :: bool
  timeout :: timeval
  func :: nat
  param :: nat

type_synonym heap = "addr \<Rightarrow> ril_event"

abbreviation timer_list :: addr where
  "timer_list \<equiv> 1"

abbreviation pending_list :: addr where
  "pending_list \<equiv> 2"

definition MAX_FD_EVENTS :: nat where
  "MAX_FD_EVENTS = 8"

text \<open>Dereferencing a pointer for reading or writing; \<open>None\<close> is a null pointer.\<close>

definition load :: "heap \<Rightarrow> addr \<Rightarrow> ril_event option" where
  "load h p = (if p = 0 then None else Some (h p))"

definition store :: "heap \<Rightarrow> addr \<Rightarrow> (ril_event \<Rightarrow> ril_event) \<Rightarrow> heap option" where
  "store h p f = (if p = 0 then None else Some (h(p := f (h p))))"

definition null_event :: ril_event where
  "null_event = \<lparr>next_ev = 0, prev_ev = 0, fd = 0, index = 0, persist = False,
     timeout = \<lparr>tv_sec = 0, tv_usec = 0\<rparr>, func = 0, param = 0\<rparr>"

definition init_list :: "addr \<Rightarrow> heap \<Rightarrow> heap" where
  "init_list list h = h(list := null_event\<lparr>next_ev := list, prev_ev := list, fd := -1\<rparr>)"

definition addToList :: "addr \<Rightarrow> addr \<Rightarrow> heap \<Rightarrow> heap option" where
  "addToList ev list h = do {
     h1 \<leftarrow> store h ev (\<lambda>e. e\<lparr>next_ev := list\<rparr>);
     l \<leftarrow> load h1 list;
     h2 \<leftarrow> store h1 ev (\<lambda>e. e\<lparr>prev_ev := prev_ev l\<rparr>);
     e \<leftarrow> load h2 ev;
     h3 \<leftarrow> store h2 (prev_ev e) (\<lambda>x. x\<lparr>next_ev := ev\<rparr>);
     store h3 list (\<lambda>x. x\<lparr>prev_ev := ev\<rparr>)
   }"

definition removeFromList :: "addr \<Rightarrow> heap \<Rightarrow> heap option" where
  "removeFromList ev h = do {
     e \<leftarrow> load h ev;
     h1 \<leftarrow> store h (next_ev e) (\<lambda>x. x\<lparr>prev_ev := prev_ev e\<rparr>);
     e1 \<leftarrow> load h1 ev;
     h2 \<leftarrow> store h1 (prev_ev e1) (\<lambda>x. x\<lparr>next_ev := next_ev e1\<rparr>);
     h3 \<leftarrow> store h2 ev (\<lambda>x. x\<lparr>next_ev := 0\<rparr>);
     store h3 ev (\<lambda>x. x\<lparr>prev_ev := 0\<rparr>)
   }"

section \<open>The state and its operations\<close>

record ril_state =
  heap :: heap
  watch_table :: "addr list"
  nfds :: int
  readFds :: "int set"

text \<open>The largest descriptor left in the table, from 0.\<close>

definition max_fd :: "heap \<Rightarrow> addr list \<Rightarrow> int" where
  "max_fd h tab = fold (\<lambda>rev n. if rev \<noteq> 0 \<and> fd (h rev) > n then fd (h rev) else n) tab 0"

definition removeWatch :: "addr \<Rightarrow> nat \<Rightarrow> ril_state \<Rightarrow> ril_state" where
  "removeWatch ev idx s =
     (let tab = (watch_table s)[idx := 0];
          h = (heap s)(ev := (heap s ev)\<lparr>index := -1\<rparr>);
          efd = fd (h ev)
      in s\<lparr>watch_table := tab, heap := h, readFds := readFds s - {efd},
           nfds := (if efd + 1 = nfds s then max_fd h tab + 1 else nfds s)\<rparr>)"

text \<open>
  The walk over the expired timers. A walk over links that do not form a list need not end:
  the value is then \<open>None\<close>, as it is after a null pointer.
\<close>

partial_function (option) expire_timers :: "timeval \<Rightarrow> addr \<Rightarrow> heap \<Rightarrow> heap option" where
  [code]: "expire_timers now tev h =
     (if tev \<noteq> timer_list then do {
        e \<leftarrow> load h tev;
        if timercmp now (timeout e) (>) then do {
          h1 \<leftarrow> removeFromList tev h;
          h2 \<leftarrow> addToList tev pending_list h1;
          expire_timers now (next_ev e) h2
        } else Some h
      } else Some h)"

definition processTimeouts :: "timeval \<Rightarrow> ril_state \<Rightarrow> ril_state option" where
  "processTimeouts now s = do {
     h \<leftarrow> expire_timers now (next_ev (heap s timer_list)) (heap s);
     Some (s\<lparr>heap := h\<rparr>)
   }"

fun process_readies :: "int set \<Rightarrow> nat list \<Rightarrow> int \<Rightarrow> ril_state \<Rightarrow> ril_state option" where
  "process_readies rfds [] n s = Some s"
| "process_readies rfds (i # is) n s =
     (if n > 0 then
        let rev = watch_table s ! i
        in if rev \<noteq> 0 \<and> fd (heap s rev) \<in> rfds then do {
             h \<leftarrow> addToList rev pending_list (heap s);
             let s1 = s\<lparr>heap := h\<rparr>;
             process_readies rfds is (n - 1)
               (if persist (heap s1 rev) = False then removeWatch rev i s1 else s1)
           }
           else process_readies rfds is n s
      else Some s)"

definition processReadReadies :: "int set \<Rightarrow> int \<Rightarrow> ril_state \<Rightarrow> ril_state option" where
  "processReadReadies rfds n s = process_readies rfds [0..<MAX_FD_EVENTS] n s"

text \<open>A callback is a function of the event it is called for and of the state.\<close>

type_synonym callbacks = "addr \<Rightarrow> ril_state \<Rightarrow> ril_state"

partial_function (option) fire_events ::
  "callbacks \<Rightarrow> addr \<Rightarrow> addr list \<Rightarrow> ril_state \<Rightarrow> (addr list \<times> ril_state) option" where
  [code]: "fire_events call ev trace s =
     (if ev \<noteq> pending_list then do {
        e \<leftarrow> load (heap s) ev;
        h \<leftarrow> removeFromList ev (heap s);
        fire_events call (next_ev e) (trace @ [ev]) (call ev (s\<lparr>heap := h\<rparr>))
      } else Some (trace, s))"

definition firePending :: "callbacks \<Rightarrow> ril_state \<Rightarrow> (addr list \<times> ril_state) option" where
  "firePending call s = fire_events call (next_ev (heap s pending_list)) [] s"

definition calcNextTimeout :: "timeval \<Rightarrow> ril_state \<Rightarrow> int \<times> timeval option" where
  "calcNextTimeout now s =
     (let tev = next_ev (heap s timer_list)
      in if tev = timer_list then (-1, None)
         else if timercmp (timeout (heap s tev)) now (>)
         then (0, Some (timersub (timeout (heap s tev)) now))
         else (0, Some \<lparr>tv_sec = 0, tv_usec = 0\<rparr>))"

definition ril_event_init :: "ril_state \<Rightarrow> ril_state" where
  "ril_event_init s =
     s\<lparr>readFds := {}, heap := init_list pending_list (init_list timer_list (heap s)),
       watch_table := replicate MAX_FD_EVENTS 0\<rparr>"

definition ril_event_set :: "addr \<Rightarrow> int \<Rightarrow> bool \<Rightarrow> nat \<Rightarrow> nat \<Rightarrow> ril_state \<Rightarrow> ril_state" where
  "ril_event_set ev fd' persist' func' param' s =
     s\<lparr>heap := (heap s)(ev := null_event\<lparr>fd := fd', index := -1, persist := persist',
                                       func := func', param := param'\<rparr>)\<rparr>"

definition ril_event_add :: "addr \<Rightarrow> ril_state \<Rightarrow> ril_state" where
  "ril_event_add ev s =
     (case find_index (\<lambda>p. p = 0) (watch_table s) of
        None \<Rightarrow> s
      | Some i \<Rightarrow>
          let h = (heap s)(ev := (heap s ev)\<lparr>index := int i\<rparr>)
          in s\<lparr>watch_table := (watch_table s)[i := ev], heap := h,
               readFds := insert (fd (h ev)) (readFds s),
               nfds := (if fd (h ev) \<ge> nfds s then fd (h ev) + 1 else nfds s)\<rparr>)"

partial_function (option) find_later :: "timeval \<Rightarrow> addr \<Rightarrow> heap \<Rightarrow> addr option" where
  [code]: "find_later t list h = do {
     l \<leftarrow> load h list;
     if timercmp (timeout l) t (<) \<and> list \<noteq> timer_list then find_later t (next_ev l) h
     else Some list
   }"

definition ril_timer_add :: "addr \<Rightarrow> timeval option \<Rightarrow> timeval \<Rightarrow> ril_state \<Rightarrow> ril_state option" where
  "ril_timer_add ev tv now s =
     (case tv of
        None \<Rightarrow> Some s
      | Some t \<Rightarrow> do {
          let first = next_ev (heap s timer_list);
          h1 \<leftarrow> store (heap s) ev (\<lambda>e. e\<lparr>fd := -1, timeout := timeradd now t\<rparr>);
          list \<leftarrow> find_later (timeradd now t) first h1;
          h2 \<leftarrow> addToList ev list h1;
          Some (s\<lparr>heap := h2\<rparr>)
        })"

definition ril_event_del :: "addr \<Rightarrow> ril_state \<Rightarrow> ril_state" where
  "ril_event_del ev s =
     (let i = index (heap s ev)
      in if i < 0 \<or> i \<ge> int MAX_FD_EVENTS then s else removeWatch ev (nat i) s)"

text \<open>
  One turn of the loop. \<open>sel\<close> is what \<^verbatim>\<open>select\<close> returned: the count, the error code and the
  descriptors left in the set; the turn ends the loop, is interrupted, or fires events.
\<close>

datatype turn = LoopExits ril_state | LoopContinues "addr list" ril_state

definition EINTR :: int where
  "EINTR = 4"

definition ril_event_turn ::
  "callbacks \<Rightarrow> (int \<Rightarrow> int set \<Rightarrow> timeval option \<Rightarrow> int \<times> int \<times> int set) \<Rightarrow> timeval \<Rightarrow> timeval \<Rightarrow>
   ril_state \<Rightarrow> turn option" where
  "ril_event_turn call sel now now' s =
     (let (r, tv) = calcNextTimeout now s;
          ptv = (if r = -1 then None else tv);
          (n, errno, rfds) = sel (nfds s) (readFds s) ptv
      in if n < 0 then
           if errno = EINTR then Some (LoopContinues [] s) else Some (LoopExits s)
         else do {
           s1 \<leftarrow> processTimeouts now' s;
           s2 \<leftarrow> processReadReadies rfds n s1;
           (trace, s3) \<leftarrow> firePending call s2;
           Some (LoopContinues trace s3)
         })"

section \<open>Links as lists\<close>

fun links :: "heap \<Rightarrow> addr \<Rightarrow> addr list \<Rightarrow> addr \<Rightarrow> bool" where
  "links h a [] z \<longleftrightarrow> next_ev (h a) = z \<and> prev_ev (h z) = a"
| "links h a (x # xs) z \<longleftrightarrow> next_ev (h a) = x \<and> prev_ev (h x) = a \<and> links h x xs z"

definition is_ring :: "heap \<Rightarrow> addr \<Rightarrow> addr list \<Rightarrow> bool" where
  "is_ring h l xs \<longleftrightarrow> links h l xs l \<and> distinct (l # xs) \<and> 0 \<notin> set (l # xs)"

text \<open>The part of an event the list operations leave alone.\<close>

definition payload :: "ril_event \<Rightarrow> ril_event" where
  "payload e = e\<lparr>next_ev := 0, prev_ev := 0\<rparr>"

definition same_payload :: "heap \<Rightarrow> heap \<Rightarrow> bool" where
  "same_payload h h' \<longleftrightarrow> (\<forall>p. payload (h' p) = payload (h p))"

lemma same_payload_refl [simp]: "same_payload h h"
  by (simp add: same_payload_def)

lemma same_payload_trans: "same_payload h h1 \<Longrightarrow> same_payload h1 h2 \<Longrightarrow> same_payload h h2"
  by (simp add: same_payload_def)

lemma payload_eqD:
  assumes "payload e = payload e'"
  shows "fd e = fd e'" "index e = index e'" "persist e = persist e'" "timeout e = timeout e'"
    "func e = func e'" "param e = param e'"
  using assms by (auto simp: payload_def elim: ril_event.cases) (cases e; cases e'; simp)+

lemma payload_ext:
  "next_ev e = next_ev e' \<Longrightarrow> prev_ev e = prev_ev e' \<Longrightarrow> payload e = payload e' \<Longrightarrow> e = e'"
  by (cases e; cases e') (simp add: payload_def)

lemma payload_upd [simp]: "payload (e\<lparr>next_ev := a\<rparr>) = payload e" "payload (e\<lparr>prev_ev := b\<rparr>) = payload e"
  by (simp_all add: payload_def)

lemma links_append [simp]: "links h a (xs @ y # ys) z \<longleftrightarrow> links h a xs y \<and> links h y ys z"
  by (induction xs arbitrary: a) auto

lemma links_cong:
  assumes "\<And>p. p \<in> set (a # xs) \<Longrightarrow> next_ev (h' p) = next_ev (h p)"
    and "\<And>p. p \<in> set (xs @ [z]) \<Longrightarrow> prev_ev (h' p) = prev_ev (h p)"
  shows "links h' a xs z = links h a xs z"
  using assms by (induction xs arbitrary: a) auto

lemma links_last: "links h a xs z \<Longrightarrow> prev_ev (h z) = last (a # xs) \<and> next_ev (h (last (a # xs))) = z"
  by (induction xs arbitrary: a) auto

lemma links_retarget:
  assumes "links h a xs z" "distinct (a # xs)"
    and "\<And>p. p \<in> set (a # xs) \<Longrightarrow> next_ev (h' p) = (if p = last (a # xs) then z' else next_ev (h p))"
    and "\<And>p. p \<in> set xs \<Longrightarrow> prev_ev (h' p) = prev_ev (h p)" "prev_ev (h' z') = last (a # xs)"
  shows "links h' a xs z'"
  using assms
proof (induction xs arbitrary: a)
  case (Cons x xs)
  have "links h' x xs z'"
    by (rule Cons.IH) (use Cons.prems in auto)
  then show ?case using Cons.prems by auto
qed simp

lemma links_resource:
  assumes "links h a ys z" "distinct (ys @ [z])"
    and "\<And>p. p \<in> set ys \<Longrightarrow> next_ev (h' p) = next_ev (h p)"
    and "\<And>p. p \<in> set (ys @ [z]) \<Longrightarrow>
           prev_ev (h' p) = (if p = hd (ys @ [z]) then a' else prev_ev (h p))"
    and "next_ev (h' a') = hd (ys @ [z])"
  shows "links h' a' ys z"
proof (cases ys)
  case Nil
  with assms show ?thesis by simp
next
  case (Cons y ys')
  have "links h' y ys' z = links h y ys' z"
    by (rule links_cong) (use assms(2-4) Cons in auto)
  with Cons assms show ?thesis by simp
qed

text \<open>The two list operations as updates, when no pointer they follow is null.\<close>

lemma addToList_eq:
  assumes "ev \<noteq> 0" "list \<noteq> 0" "ev \<noteq> list" "prev_ev (h list) \<noteq> 0" "prev_ev (h list) \<noteq> ev"
  obtains h' where "addToList ev list h = Some h'"
    "\<And>p. next_ev (h' p) = (if p = ev then list else if p = prev_ev (h list) then ev else next_ev (h p))"
    "\<And>p. prev_ev (h' p) = (if p = ev then prev_ev (h list) else if p = list then ev else prev_ev (h p))"
    "same_payload h h'"
  using that assms
  by (auto simp: addToList_def load_def store_def same_payload_def split: if_splits)

lemma removeFromList_eq:
  assumes "ev \<noteq> 0" "next_ev (h ev) \<noteq> 0" "prev_ev (h ev) \<noteq> 0" "next_ev (h ev) \<noteq> ev" "prev_ev (h ev) \<noteq> ev"
  obtains h' where "removeFromList ev h = Some h'"
    "\<And>p. next_ev (h' p) = (if p = ev then 0 else if p = prev_ev (h ev) then next_ev (h ev) else next_ev (h p))"
    "\<And>p. prev_ev (h' p) = (if p = ev then 0 else if p = next_ev (h ev) then prev_ev (h ev) else prev_ev (h p))"
    "same_payload h h'"
  using that assms
  by (auto simp: removeFromList_def load_def store_def same_payload_def split: if_splits)

lemma is_ring_frame:
  assumes "is_ring h l zs"
    and "\<And>p. p \<in> set (l # zs) \<Longrightarrow> next_ev (h' p) = next_ev (h p) \<and> prev_ev (h' p) = prev_ev (h p)"
  shows "is_ring h' l zs"
proof -
  have "links h' l zs l = links h l zs l"
    by (rule links_cong) (use assms(2) in auto)
  with assms(1) show ?thesis by (simp add: is_ring_def)
qed

text \<open>The event is entered before the element the code is given, the head standing for the end.\<close>

lemma addToList_ring:
  assumes ring: "is_ring h l (xs @ ys)" and ev: "ev \<noteq> 0" "ev \<notin> set (l # xs @ ys)"
  shows "\<exists>h'. addToList ev (hd (ys @ [l])) h = Some h' \<and> is_ring h' l (xs @ ev # ys) \<and>
     same_payload h h' \<and>
     (\<forall>p. p \<notin> set (l # xs @ ev # ys) \<longrightarrow> h' p = h p)"
proof -
  let ?p = "hd (ys @ [l])" and ?q = "last (l # xs)"
  have split: "links h l xs ?p" "links h ?q ys l"
    using ring by (cases ys; auto simp: is_ring_def dest: links_last)+
  then have q: "prev_ev (h ?p) = ?q" by (simp add: links_last)
  have mem: "?p \<in> set (l # ys)" "?q \<in> set (l # xs)"
    by (cases ys; simp) (metis last_in_set list.distinct(1))
  obtain h' where h': "addToList ev ?p h = Some h'"
    "\<And>p. next_ev (h' p) = (if p = ev then ?p else if p = ?q then ev else next_ev (h p))"
    "\<And>p. prev_ev (h' p) = (if p = ev then ?q else if p = ?p then ev else prev_ev (h p))"
    "same_payload h h'"
    by (rule addToList_eq [of ev ?p h]) (use ring ev mem q in \<open>auto simp: is_ring_def\<close>)
  have "links h' l xs ev"
    by (rule links_retarget [OF split(1)]) (use ring ev mem h' in \<open>auto simp: is_ring_def\<close>)
  moreover have "links h' ev ys l"
    by (rule links_resource [OF split(2)]) (use ring ev mem h' in \<open>auto simp: is_ring_def\<close>)
  moreover have "h' p = h p" if "p \<notin> set (l # xs @ ev # ys)" for p
  proof -
    from that mem have "p \<noteq> ev" "p \<noteq> ?p" "p \<noteq> ?q" by auto
    then have "next_ev (h' p) = next_ev (h p)" "prev_ev (h' p) = prev_ev (h p)"
      by (simp_all add: h')
    then show ?thesis
      using h'(4) by (auto simp: same_payload_def intro: payload_ext)
  qed
  ultimately show ?thesis
    using h'(1,4) ring ev by (auto simp: is_ring_def)
qed

lemma removeFromList_ring:
  assumes ring: "is_ring h l (xs @ ev # ys)"
  shows "\<exists>h'. removeFromList ev h = Some h' \<and> is_ring h' l (xs @ ys) \<and> same_payload h h' \<and>
     (\<forall>p. p \<notin> set (l # xs @ ev # ys) \<longrightarrow> h' p = h p)"
proof -
  let ?p = "hd (ys @ [l])" and ?q = "last (l # xs)"
  have split: "links h l xs ev" "links h ev ys l"
    using ring by (auto simp: is_ring_def)
  then have e: "prev_ev (h ev) = ?q" "next_ev (h ev) = ?p"
    by (simp add: links_last) (use split in \<open>cases ys; simp\<close>)
  have mem: "?p \<in> set (l # ys)" "?q \<in> set (l # xs)"
    by (cases ys; simp) (metis last_in_set list.distinct(1))
  obtain h' where h': "removeFromList ev h = Some h'"
    "\<And>p. next_ev (h' p) = (if p = ev then 0 else if p = ?q then ?p else next_ev (h p))"
    "\<And>p. prev_ev (h' p) = (if p = ev then 0 else if p = ?p then ?q else prev_ev (h p))"
    "same_payload h h'"
    by (rule removeFromList_eq [of ev h]) (use ring mem e in \<open>auto simp: is_ring_def\<close>)
  have l: "links h' l xs ?p"
    by (rule links_retarget [OF split(1)]) (use ring mem h' in \<open>auto simp: is_ring_def\<close>)
  have r: "links h' ?q ys l"
    by (rule links_resource [OF split(2)]) (use ring mem h' in \<open>auto simp: is_ring_def\<close>)
  have "links h' l (xs @ ys) l"
    using l r by (cases ys) auto
  moreover have "h' p = h p" if "p \<notin> set (l # xs @ ev # ys)" for p
  proof -
    from that mem have "p \<noteq> ev" "p \<noteq> ?p" "p \<noteq> ?q" by auto
    then have "next_ev (h' p) = next_ev (h p)" "prev_ev (h' p) = prev_ev (h p)"
      by (simp_all add: h')
    then show ?thesis
      using h'(4) by (auto simp: same_payload_def intro: payload_ext)
  qed
  ultimately show ?thesis
    using h'(1,4) ring by (auto simp: is_ring_def)
qed

section \<open>The contract of the lists\<close>

text \<open>
  What the loop relies on: entering and removing an event act on one list as on a HOL list
  and leave every disjoint list, and the events' contents, alone.
\<close>

locale rings =
  fixes ring :: "'h \<Rightarrow> nat \<Rightarrow> nat list \<Rightarrow> bool"
    and add :: "nat \<Rightarrow> nat \<Rightarrow> 'h \<Rightarrow> 'h option"
    and del :: "nat \<Rightarrow> 'h \<Rightarrow> 'h option"
    and same :: "'h \<Rightarrow> 'h \<Rightarrow> bool"
  assumes add_ring:
    "ring h l (xs @ ys) \<Longrightarrow> ev \<noteq> 0 \<Longrightarrow> ev \<notin> set (l # xs @ ys) \<Longrightarrow>
     \<exists>h'. add ev (hd (ys @ [l])) h = Some h' \<and> ring h' l (xs @ ev # ys) \<and> same h h' \<and>
       (\<forall>l' zs. ring h l' zs \<longrightarrow> set (l' # zs) \<inter> set (l # xs @ ev # ys) = {} \<longrightarrow> ring h' l' zs)"
    and del_ring:
    "ring h l (xs @ ev # ys) \<Longrightarrow>
     \<exists>h'. del ev h = Some h' \<and> ring h' l (xs @ ys) \<and> same h h' \<and>
       (\<forall>l' zs. ring h l' zs \<longrightarrow> set (l' # zs) \<inter> set (l # xs @ ev # ys) = {} \<longrightarrow> ring h' l' zs)"
    and same_trans: "same h h1 \<Longrightarrow> same h1 h2 \<Longrightarrow> same h h2"
    and ring_wf: "ring h l xs \<Longrightarrow> distinct (l # xs) \<and> 0 \<notin> set (l # xs)"
begin

lemma add_between:
  assumes "ring h l (xs @ ys)" "ev \<noteq> 0" "ev \<notin> set (l # xs @ ys)"
    and "ring h l' zs" "set (l' # zs) \<inter> set (ev # l # xs @ ys) = {}"
  shows "\<exists>h'. add ev (hd (ys @ [l])) h = Some h' \<and> ring h' l (xs @ ev # ys) \<and> ring h' l' zs \<and> same h h'"
proof -
  obtain h' where h': "add ev (hd (ys @ [l])) h = Some h'" "ring h' l (xs @ ev # ys)" "same h h'"
    and fr: "\<forall>l' zs. ring h l' zs \<longrightarrow> set (l' # zs) \<inter> set (l # xs @ ev # ys) = {} \<longrightarrow> ring h' l' zs"
    using add_ring [OF assms(1,2,3)] by auto
  have "ring h' l' zs"
    by (rule fr [rule_format, OF assms(4)]) (use assms(5) in auto)
  with h' show ?thesis by blast
qed

lemma add_last:
  assumes "ring h l xs" "ev \<noteq> 0" "ev \<notin> set (l # xs)"
    and "ring h l' zs" "set (l' # zs) \<inter> set (ev # l # xs) = {}"
  shows "\<exists>h'. add ev l h = Some h' \<and> ring h' l (xs @ [ev]) \<and> ring h' l' zs \<and> same h h'"
  using add_between [of h l xs "[]" ev l' zs] assms by simp

theorem move_first:
  assumes "ring h a (ev # xs)" "ring h b zs" "set (a # ev # xs) \<inter> set (b # zs) = {}"
  shows "\<exists>h1 h2. del ev h = Some h1 \<and> add ev b h1 = Some h2 \<and>
     ring h2 a xs \<and> ring h2 b (zs @ [ev]) \<and> same h h2"
proof -
  obtain h1 where h1: "del ev h = Some h1" "ring h1 a xs" "ring h1 b zs" "same h h1"
    using del_ring [of h a "[]" ev xs] assms(1,2,3) by auto
  have "ev \<notin> set (a # xs)" "ev \<noteq> 0"
    using ring_wf [OF assms(1)] by auto
  then obtain h2 where "add ev b h1 = Some h2" "ring h2 b (zs @ [ev])" "ring h2 a xs" "same h1 h2"
    using add_last [OF h1(3) _ _ h1(2), of ev] assms(3) by auto
  with h1 show ?thesis using same_trans by blast
qed

end

lemma is_ring_others:
  assumes "\<forall>p. p \<notin> A \<longrightarrow> h' p = h p" "is_ring h l zs" "set (l # zs) \<inter> A = {}"
  shows "is_ring h' l zs"
proof (rule is_ring_frame [OF assms(2)])
  fix p assume "p \<in> set (l # zs)"
  with assms(3) have "p \<notin> A" by blast
  with assms(1) show "next_ev (h' p) = next_ev (h p) \<and> prev_ev (h' p) = prev_ev (h p)" by simp
qed

interpretation rl: rings is_ring addToList removeFromList same_payload
proof (unfold_locales, goal_cases)
  case (1 h l xs ys ev)
  from addToList_ring [OF this] show ?case
    by (metis is_ring_others)
next
  case (2 h l xs ev ys)
  from removeFromList_ring [OF this] show ?case
    by (metis is_ring_others)
next
  case (3 h h1 h2)
  then show ?case by (rule same_payload_trans)
next
  case (4 h l xs)
  then show ?case by (simp add: is_ring_def)
qed

section \<open>Invariants\<close>

text \<open>The timers \<open>ts\<close> and the pending events \<open>ps\<close> of a heap, the timers by their deadline.\<close>

definition linked :: "heap \<Rightarrow> addr list \<Rightarrow> addr list \<Rightarrow> bool" where
  "linked h ts ps \<longleftrightarrow>
     is_ring h timer_list ts \<and> is_ring h pending_list ps \<and>
     set (timer_list # ts) \<inter> set (pending_list # ps) = {}"

definition due :: "heap \<Rightarrow> addr \<Rightarrow> int" where
  "due h p = usecs (timeout (h p))"

definition timers_ok :: "heap \<Rightarrow> addr list \<Rightarrow> bool" where
  "timers_ok h ts \<longleftrightarrow> (\<forall>p \<in> set ts. tv_ok (timeout (h p))) \<and> sorted (map (due h) ts)"

lemma same_payload_fields:
  assumes "same_payload h h'"
  shows "fd (h' p) = fd (h p)" "index (h' p) = index (h p)" "persist (h' p) = persist (h p)"
    "timeout (h' p) = timeout (h p)"
  using assms payload_eqD [of "h' p" "h p"] by (simp_all add: same_payload_def)

lemma due_same: "same_payload h h' \<Longrightarrow> due h' = due h"
  by (simp add: due_def fun_eq_iff same_payload_fields)

lemma timers_ok_same: "same_payload h h' \<Longrightarrow> timers_ok h' ts = timers_ok h ts"
  by (simp add: timers_ok_def due_same same_payload_fields)

lemma timers_ok_Cons: "timers_ok h (t # ts) \<Longrightarrow> timers_ok h ts"
  by (simp add: timers_ok_def)

lemma linked_next:
  "linked h ts ps \<Longrightarrow> next_ev (h timer_list) = hd (ts @ [timer_list])"
  "linked h ts ps \<Longrightarrow> next_ev (h pending_list) = hd (ps @ [pending_list])"
  by (cases ts; cases ps; simp add: linked_def is_ring_def)+

lemma ring_next: "is_ring h l (xs @ x # ys) \<Longrightarrow> next_ev (h x) = hd (ys @ [l])"
  by (cases ys) (auto simp: is_ring_def)

lemma links_nonzero: "linked h ts ps \<Longrightarrow> p \<in> set ts \<or> p \<in> set ps \<Longrightarrow> p \<noteq> 0 \<and> p \<noteq> timer_list \<and> p \<noteq> pending_list"
  by (auto simp: linked_def is_ring_def)

section \<open>Timers\<close>

lemma expire_timers_linked:
  assumes "linked h ts ps" "timers_ok h ts" "tv_ok now"
  shows "\<exists>h'. expire_timers now (hd (ts @ [timer_list])) h = Some h' \<and>
     linked h' (dropWhile (\<lambda>p. due h p < usecs now) ts) (ps @ takeWhile (\<lambda>p. due h p < usecs now) ts) \<and>
     same_payload h h'"
  using assms
proof (induction ts arbitrary: h ps)
  case Nil
  then show ?case by (subst expire_timers.simps) simp
next
  case (Cons t ts)
  have t: "t \<noteq> 0" "t \<noteq> timer_list" "load h t = Some (h t)"
    using links_nonzero [OF Cons.prems(1), of t] by (auto simp: load_def)
  have cmp: "timercmp now (timeout (h t)) (>) \<longleftrightarrow> due h t < usecs now"
    using Cons.prems(2,3) by (simp add: timers_ok_def due_def)
  show ?case
  proof (cases "due h t < usecs now")
    case False
    then show ?thesis
      using Cons.prems(1) cmp t by (subst expire_timers.simps) simp
  next
    case True
    have n: "next_ev (h t) = hd (ts @ [timer_list])"
      using Cons.prems(1) ring_next [of h timer_list "[]" t ts] by (simp add: linked_def)
    obtain h1 h2 where h: "removeFromList t h = Some h1" "addToList t pending_list h1 = Some h2"
      "is_ring h2 timer_list ts" "is_ring h2 pending_list (ps @ [t])" "same_payload h h2"
      using rl.move_first [of h timer_list t ts pending_list ps] Cons.prems(1)
      by (auto simp: linked_def)
    have "linked h2 ts (ps @ [t])"
      using Cons.prems(1) h(3,4) by (auto simp: linked_def is_ring_def)
    from Cons.IH [OF this _ Cons.prems(3)] timers_ok_Cons [OF Cons.prems(2)] h(5)
    obtain h' where h': "expire_timers now (hd (ts @ [timer_list])) h2 = Some h'"
      "linked h' (dropWhile (\<lambda>p. due h p < usecs now) ts)
         ((ps @ [t]) @ takeWhile (\<lambda>p. due h p < usecs now) ts)" "same_payload h2 h'"
      by (auto simp: timers_ok_same due_same)
    have "expire_timers now t h = Some h'"
      using True t cmp h(1,2) h'(1) n by (subst expire_timers.simps) simp
    with True h' show ?thesis
      using same_payload_trans [OF h(5)] by auto
  qed
qed

lemma sorted_takeWhile_less:
  "sorted (map f xs) \<Longrightarrow> takeWhile (\<lambda>x. f x < (c :: int)) xs = filter (\<lambda>x. f x < c) xs"
  "sorted (map f xs) \<Longrightarrow> dropWhile (\<lambda>x. f x < (c :: int)) xs = filter (\<lambda>x. \<not> f x < c) xs"
  by (induction xs) (auto intro!: filter_True [symmetric] filter_False [symmetric])

lemma processTimeouts_linked:
  assumes "linked (heap s) ts ps" "timers_ok (heap s) ts" "tv_ok now"
  shows "\<exists>s'. processTimeouts now s = Some s' \<and>
     linked (heap s') (filter (\<lambda>p. \<not> due (heap s) p < usecs now) ts)
       (ps @ filter (\<lambda>p. due (heap s) p < usecs now) ts) \<and>
     same_payload (heap s) (heap s') \<and> s' = s\<lparr>heap := heap s'\<rparr>"
  using expire_timers_linked [OF assms] assms linked_next(1) [OF assms(1)]
  by (auto simp: processTimeouts_def timers_ok_def sorted_takeWhile_less)

lemma find_later_linked:
  assumes "is_ring h timer_list (xs @ ys)" "\<forall>p \<in> set ys. tv_ok (timeout (h p))" "tv_ok t"
  shows "find_later t (hd (ys @ [timer_list])) h =
           Some (hd (dropWhile (\<lambda>p. due h p < usecs t) ys @ [timer_list]))"
  using assms
proof (induction ys arbitrary: xs)
  case Nil
  then show ?case by (subst find_later.simps) (simp add: load_def)
next
  case (Cons y ys)
  have y: "y \<noteq> 0" "y \<noteq> timer_list" using Cons.prems(1) by (auto simp: is_ring_def)
  have n: "next_ev (h y) = hd (ys @ [timer_list])"
    using Cons.prems(1) by (rule ring_next)
  have "find_later t (hd (ys @ [timer_list])) h =
          Some (hd (dropWhile (\<lambda>p. due h p < usecs t) ys @ [timer_list]))"
    using Cons.IH [of "xs @ [y]"] Cons.prems by simp
  with y n Cons.prems(2,3) show ?case
    by (subst find_later.simps) (simp add: load_def due_def)
qed

lemma insert_due_sorted:
  fixes d :: int
  assumes "sorted (map f xs)" "\<And>x. x \<in> set xs \<Longrightarrow> g x = f x" "g ev = d"
  shows "sorted (map g (takeWhile (\<lambda>x. f x < d) xs @ ev # dropWhile (\<lambda>x. f x < d) xs))"
proof -
  have "map g (filter P xs) = map f (filter P xs)" for P
    using assms(2) by simp
  then have "sorted (map g (filter P xs))" for P
    using assms(1) by (simp only: sorted_filter)
  with assms show ?thesis
    by (auto simp: sorted_takeWhile_less sorted_append)
qed

lemma ril_timer_add_linked:
  assumes l: "linked (heap s) ts ps" "timers_ok (heap s) ts" and tv: "tv_ok now" "tv_ok tv"
    and ev: "ev \<noteq> 0" "ev \<noteq> timer_list" "ev \<noteq> pending_list" "ev \<notin> set ts" "ev \<notin> set ps"
  shows "\<exists>s'. ril_timer_add ev (Some tv) now s = Some s' \<and>
     (let d = usecs now + usecs tv;
          ts' = takeWhile (\<lambda>p. due (heap s) p < d) ts @ ev # dropWhile (\<lambda>p. due (heap s) p < d) ts
      in linked (heap s') ts' ps \<and> timers_ok (heap s') ts' \<and> due (heap s') ev = d \<and>
         fd (heap s' ev) = -1 \<and> (\<forall>p. p \<noteq> ev \<longrightarrow> payload (heap s' p) = payload (heap s p)) \<and>
         s' = s\<lparr>heap := heap s'\<rparr>)"
proof -
  let ?t = "timeradd now tv" and ?d = "usecs now + usecs tv"
  define h1 where "h1 = (heap s)(ev := (heap s ev)\<lparr>fd := -1, timeout := ?t\<rparr>)"
  have t: "tv_ok ?t" "usecs ?t = ?d" using timeradd_ok [OF tv] by simp_all
  let ?pre = "takeWhile (\<lambda>p. due (heap s) p < ?d) ts"
  let ?post = "dropWhile (\<lambda>p. due (heap s) p < ?d) ts"
  have r1: "is_ring h1 timer_list (?pre @ ?post)" "is_ring h1 pending_list ps"
    using l(1) by (auto simp: linked_def h1_def intro: is_ring_frame)
  have same: "timeout (h1 p) = timeout (heap s p)" "due h1 p = due (heap s) p" if "p \<in> set ts" for p
    using that ev(4) by (auto simp: h1_def due_def)
  have "\<forall>p \<in> set ts. tv_ok (timeout (h1 p))"
    using l(2) same by (auto simp: timers_ok_def)
  from find_later_linked [of h1 "[]" ts, OF _ this t(1)] r1(1) t(2)
  have f: "find_later ?t (hd (ts @ [timer_list])) h1 = Some (hd (?post @ [timer_list]))"
    using same by (simp cong: dropWhile_cong)
  have "ev \<notin> set (timer_list # ?pre @ ?post)" using ev(2,4) by simp
  from rl.add_between [OF r1(1) ev(1) this r1(2)]
  obtain h2 where h2: "addToList ev (hd (?post @ [timer_list])) h1 = Some h2"
    "is_ring h2 timer_list (?pre @ ev # ?post)" "same_payload h1 h2" "is_ring h2 pending_list ps"
    using l(1) ev by (auto simp: linked_def)
  have d: "due h2 p = (if p = ev then ?d else due (heap s) p)" "timeout (h2 p) = (if p = ev then ?t else timeout (heap s p))" for p
    using same_payload_fields(4) [OF h2(3), of p] t(2) by (auto simp: h1_def due_def)
  have "sorted (map (due h2) (?pre @ ev # ?post))"
    by (rule insert_due_sorted) (use l(2) ev(4) in \<open>auto simp: timers_ok_def d\<close>)
  then have "timers_ok h2 (?pre @ ev # ?post)"
    using l(2) t(1) by (auto simp: timers_ok_def d dest: set_takeWhileD set_dropWhileD)
  moreover have "linked h2 (?pre @ ev # ?post) ps"
    using h2(2,4) l(1) ev by (auto simp: linked_def dest: set_takeWhileD set_dropWhileD)
  moreover have "ril_timer_add ev (Some tv) now s = Some (s\<lparr>heap := h2\<rparr>)"
    using ev(1) f h2(1) linked_next(1) [OF l(1)]
    by (simp add: ril_timer_add_def store_def h1_def)
  moreover have "payload (h2 p) = payload (heap s p)" if "p \<noteq> ev" for p
    using h2(3) that by (simp add: same_payload_def h1_def)
  moreover have "fd (h2 ev) = -1"
    using same_payload_fields(1) [OF h2(3), of ev] by (simp add: h1_def)
  ultimately show ?thesis
    by (intro exI [of _ "s\<lparr>heap := h2\<rparr>"]) (simp add: Let_def d)
qed

section \<open>Firing\<close>

text \<open>
  What the loop asks of the callbacks: run with the lists in order, a callback leaves the
  events that are still pending where they are and may change the timers.
\<close>

definition callbacks_ok :: "(ril_state \<Rightarrow> bool) \<Rightarrow> callbacks \<Rightarrow> bool" where
  "callbacks_ok I call \<longleftrightarrow>
     (\<forall>ev s ts ps. I s \<and> linked (heap s) ts ps \<and> ev \<notin> set ts \<union> set ps \<longrightarrow>
        I (call ev s) \<and> (\<exists>ts'. linked (heap (call ev s)) ts' ps))"

lemma fire_events_all:
  assumes call: "callbacks_ok I call"
    and I: "\<And>s h. I s \<Longrightarrow> same_payload (heap s) h \<Longrightarrow> I (s\<lparr>heap := h\<rparr>)"
    and "I s" "linked (heap s) ts ps"
  shows "\<exists>s' ts'. fire_events call (hd (ps @ [pending_list])) trace s = Some (trace @ ps, s') \<and>
     I s' \<and> linked (heap s') ts' []"
  using assms(3,4)
proof (induction ps arbitrary: s ts trace)
  case Nil
  then show ?case by (subst fire_events.simps) auto
next
  case (Cons p ps)
  have p: "p \<noteq> 0" "p \<noteq> pending_list" using links_nonzero [OF Cons.prems(2), of p] by auto
  have n: "next_ev (heap s p) = hd (ps @ [pending_list])"
    using Cons.prems(2) ring_next [of "heap s" pending_list "[]" p ps] by (simp add: linked_def)
  obtain h where h: "removeFromList p (heap s) = Some h" "same_payload (heap s) h" "linked h ts ps"
    using rl.del_ring [of "heap s" pending_list "[]" p ps] Cons.prems(2) by (auto simp: linked_def)
  have "p \<notin> set ts \<union> set ps"
    using Cons.prems(2) by (auto simp: linked_def is_ring_def)
  then have "I (call p (s\<lparr>heap := h\<rparr>))" "\<exists>ts'. linked (heap (call p (s\<lparr>heap := h\<rparr>))) ts' ps"
    using call [unfolded callbacks_ok_def, rule_format, of "s\<lparr>heap := h\<rparr>" ts ps p] h
      I [OF Cons.prems(1) h(2)] by auto
  then obtain s' ts' where "fire_events call (hd (ps @ [pending_list])) (trace @ [p]) (call p (s\<lparr>heap := h\<rparr>)) =
      Some ((trace @ [p]) @ ps, s')" "I s'" "linked (heap s') ts' []"
    using Cons.IH by blast
  moreover have "fire_events call p trace s =
      fire_events call (hd (ps @ [pending_list])) (trace @ [p]) (call p (s\<lparr>heap := h\<rparr>))"
    using p h(1) n by (subst fire_events.simps) (simp add: load_def)
  ultimately show ?case by auto
qed

section \<open>The watch table\<close>

text \<open>The entries of the table with their positions.\<close>

definition watched :: "ril_state \<Rightarrow> addr set" where
  "watched s = set (watch_table s) - {0}"

definition watch_inv :: "ril_state \<Rightarrow> bool" where
  "watch_inv s \<longleftrightarrow>
     length (watch_table s) = MAX_FD_EVENTS \<and>
     (\<forall>i < MAX_FD_EVENTS. watch_table s ! i \<noteq> 0 \<longrightarrow> index (heap s (watch_table s ! i)) = int i) \<and>
     inj_on (\<lambda>p. fd (heap s p)) (watched s) \<and>
     readFds s = (\<lambda>p. fd (heap s p)) ` watched s \<and>
     (\<forall>p \<in> watched s. 0 \<le> fd (heap s p) \<and> fd (heap s p) < nfds s)"

lemma max_fd_ge:
  "p \<in> set tab \<Longrightarrow> p \<noteq> 0 \<Longrightarrow> fd (h p) \<le> fold (\<lambda>rev n. if rev \<noteq> 0 \<and> fd (h rev) > n then fd (h rev) else n) tab m"
  "m \<le> fold (\<lambda>rev n. if rev \<noteq> 0 \<and> fd (h rev) > n then fd (h rev) else n) tab m"
proof (induction tab arbitrary: m)
  case (Cons q tab)
  {
    case 1
    show ?case
    proof (cases "p = q")
      case True
      then show ?thesis
        using 1 Cons.IH(2) [of "if q \<noteq> 0 \<and> fd (h q) > m then fd (h q) else m"] by (auto split: if_splits)
    next
      case False
      with 1 Cons.IH(1) show ?thesis by simp
    qed
  next
    case 2
    show ?case
      using Cons.IH(2) [of "if q \<noteq> 0 \<and> fd (h q) > m then fd (h q) else m"] by (auto split: if_splits)
  }
qed simp_all

lemma watched_nth: "watch_inv s \<Longrightarrow> p \<in> watched s \<longleftrightarrow> (\<exists>i < MAX_FD_EVENTS. watch_table s ! i = p \<and> p \<noteq> 0)"
  by (auto simp: watched_def watch_inv_def in_set_conv_nth)

lemma watch_table_unique:
  assumes "watch_inv s" "i < MAX_FD_EVENTS" "j < MAX_FD_EVENTS"
    and "watch_table s ! i = watch_table s ! j" "watch_table s ! i \<noteq> 0"
  shows "i = j"
proof -
  have "int i = int j"
    using assms by (metis watch_inv_def)
  then show ?thesis by simp
qed

lemma set_update_split:
  assumes "i < length xs"
  shows "set (xs[i := z]) = insert z (set (take i xs) \<union> set (drop (Suc i) xs))"
    and "set xs = insert (xs ! i) (set (take i xs) \<union> set (drop (Suc i) xs))"
  by (simp add: upd_conv_take_nth_drop [OF assms])
    (metis id_take_nth_drop [OF assms] Un_insert_right list.simps(15) set_append)

lemma set_list_update_unique:
  assumes "i < length xs" "\<And>j. j < length xs \<Longrightarrow> xs ! j = xs ! i \<Longrightarrow> j = i"
  shows "set (xs[i := z]) = insert z (set xs - {xs ! i})"
proof -
  have "xs ! i \<notin> set (take i xs)"
  proof
    assume "xs ! i \<in> set (take i xs)"
    then obtain j where "j < i" "xs ! j = xs ! i" by (auto simp: in_set_conv_nth)
    with assms show False by (metis less_trans nat_neq_iff)
  qed
  moreover have "xs ! i \<notin> set (drop (Suc i) xs)"
  proof
    assume "xs ! i \<in> set (drop (Suc i) xs)"
    then obtain j where "j < length (drop (Suc i) xs)" "drop (Suc i) xs ! j = xs ! i"
      by (metis in_set_conv_nth)
    with assms(2) [of "Suc i + j"] show False by (simp add: less_diff_conv add.commute)
  qed
  ultimately show ?thesis using set_update_split [OF assms(1)] by auto
qed

lemma watch_inv_heap:
  assumes "watch_inv s" "same_payload (heap s) h"
  shows "watch_inv (s\<lparr>heap := h\<rparr>)"
  using assms(1) by (simp add: watch_inv_def watched_def same_payload_fields [OF assms(2)])

lemma removeWatch_spec:
  assumes inv: "watch_inv s" and i: "i < MAX_FD_EVENTS" "watch_table s ! i = ev" "ev \<noteq> 0"
  shows "watch_inv (removeWatch ev i s)" "watched (removeWatch ev i s) = watched s - {ev}"
    "watch_table (removeWatch ev i s) = (watch_table s)[i := 0]"
    "heap (removeWatch ev i s) = (heap s)(ev := (heap s ev)\<lparr>index := -1\<rparr>)"
proof -
  let ?s = "removeWatch ev i s" and ?tab = "(watch_table s)[i := 0]"
  show tab: "watch_table ?s = ?tab" and h: "heap ?s = (heap s)(ev := (heap s ev)\<lparr>index := -1\<rparr>)"
    by (simp_all add: removeWatch_def Let_def)
  have len: "length (watch_table s) = MAX_FD_EVENTS" using inv by (simp add: watch_inv_def)
  have uniq: "j = i" if "j < length (watch_table s)" "watch_table s ! j = watch_table s ! i" for j
    by (rule watch_table_unique [OF inv]) (use that i len in simp_all)
  have "set ?tab = insert 0 (set (watch_table s) - {ev})"
    using set_list_update_unique [of i "watch_table s" 0, OF _ uniq] i len by simp
  then show w: "watched ?s = watched s - {ev}"
    by (auto simp: watched_def tab)
  have fd: "fd (heap ?s p) = fd (heap s p)" for p by (simp add: h)
  have ev: "ev \<in> watched s" using watched_nth [OF inv] i by auto
  have nf: "fd (heap s p) < nfds ?s" if "p \<in> watched s - {ev}" for p
  proof (cases "fd (heap s ev) + 1 = nfds s")
    case True
    then have "nfds ?s = max_fd (heap ?s) ?tab + 1"
      unfolding h by (simp add: removeWatch_def Let_def)
    moreover have "p \<in> set ?tab" "p \<noteq> 0"
      using that w by (auto simp: watched_def tab)
    ultimately show ?thesis
      using max_fd_ge(1) [of p ?tab "heap ?s" 0] by (simp add: max_fd_def fd)
  next
    case False
    then have "nfds ?s = nfds s" by (simp add: removeWatch_def Let_def)
    with that inv show ?thesis by (simp add: watch_inv_def)
  qed
  have inj: "inj_on (\<lambda>p. fd (heap s p)) (watched s)" and rd: "readFds s = (\<lambda>p. fd (heap s p)) ` watched s"
    and pos: "\<forall>p \<in> watched s. 0 \<le> fd (heap s p)"
    using inv by (simp_all add: watch_inv_def)
  have "readFds ?s = readFds s - {fd (heap s ev)}"
    by (simp add: removeWatch_def Let_def)
  then have rd': "readFds ?s = (\<lambda>p. fd (heap s p)) ` (watched s - {ev})"
    using inj_on_image_set_diff [OF inj, of "watched s" "{ev}"] ev by (simp add: rd)
  have inj': "inj_on (\<lambda>p. fd (heap s p)) (watched s - {ev})"
    by (rule inj_on_subset [OF inj Diff_subset])
  have ix: "index (heap ?s (?tab ! j)) = int j" if "j < MAX_FD_EVENTS" "?tab ! j \<noteq> 0" for j
  proof -
    from that have "j \<noteq> i" using i(1) len by auto
    with that have "watch_table s ! j \<noteq> ev"
      using watch_table_unique [OF inv that(1) i(1)] i by auto
    with that \<open>j \<noteq> i\<close> inv show ?thesis by (simp add: h watch_inv_def)
  qed
  show "watch_inv ?s"
    unfolding watch_inv_def w tab fd
    using len rd' inj' ix pos nf by simp
qed

lemma ril_event_add_spec:
  assumes inv: "watch_inv s" and ev: "ev \<noteq> 0" "ev \<notin> watched s"
    and f: "0 \<le> fd (heap s ev)" "fd (heap s ev) \<notin> readFds s"
  shows "watch_inv (ril_event_add ev s)"
    "watched (ril_event_add ev s) = (if 0 \<in> set (watch_table s) then insert ev (watched s) else watched s)"
proof -
  have "watch_inv (ril_event_add ev s) \<and>
    watched (ril_event_add ev s) = (if 0 \<in> set (watch_table s) then insert ev (watched s) else watched s)"
  proof (cases "find_index (\<lambda>p. p = 0) (watch_table s)")
    case None
    then have "0 \<notin> set (watch_table s)" by (auto simp: find_index_None_iff)
    with None inv show ?thesis by (simp add: ril_event_add_def)
  next
    case (Some i)
    let ?s = "ril_event_add ev s" and ?tab = "(watch_table s)[i := ev]"
    have i: "i < length (watch_table s)" "watch_table s ! i = 0"
      using find_index_Some [OF Some] by auto
    have len: "length (watch_table s) = MAX_FD_EVENTS" using inv by (simp add: watch_inv_def)
    have tab: "watch_table ?s = ?tab" and h: "heap ?s = (heap s)(ev := (heap s ev)\<lparr>index := int i\<rparr>)"
      using Some by (simp_all add: ril_event_add_def Let_def)
    have z: "0 \<in> set (watch_table s)" using i by (metis nth_mem)
    have w: "watched ?s = insert ev (watched s)"
      using set_update_split [OF i(1)] i(2) ev(1) by (auto simp: watched_def tab)
    have fd: "fd (heap ?s p) = fd (heap s p)" for p by (simp add: h)
    have nf: "nfds ?s = (if fd (heap s ev) \<ge> nfds s then fd (heap s ev) + 1 else nfds s)"
      and rf: "readFds ?s = insert (fd (heap s ev)) (readFds s)"
      using Some by (simp_all add: ril_event_add_def Let_def)
    have "index (heap ?s (?tab ! j)) = int j" if "j < MAX_FD_EVENTS" "?tab ! j \<noteq> 0" for j
      using that i len ev inv watched_nth [OF inv, of ev]
      by (cases "j = i") (auto simp: h watch_inv_def)
    moreover have "fd (heap s p) < nfds ?s \<and> 0 \<le> fd (heap s p)" if "p \<in> insert ev (watched s)" for p
      using that inv f(1) by (auto simp: nf watch_inv_def)
    moreover have "inj_on (\<lambda>p. fd (heap s p)) (insert ev (watched s))"
      using inv f(2) by (simp add: watch_inv_def image_iff Bex_def)
    moreover have "insert (fd (heap s ev)) (readFds s) = (\<lambda>p. fd (heap s p)) ` insert ev (watched s)"
      using inv by (simp add: watch_inv_def)
    ultimately have "watch_inv ?s"
      unfolding watch_inv_def w rf tab fd using len by simp
    with w z show ?thesis by simp
  qed
  then show "watch_inv (ril_event_add ev s)"
    "watched (ril_event_add ev s) = (if 0 \<in> set (watch_table s) then insert ev (watched s) else watched s)"
    by simp_all
qed

lemma ril_event_del_spec:
  assumes "watch_inv s" "ev \<noteq> 0" "ev \<in> watched s \<or> index (heap s ev) = -1"
  shows "watch_inv (ril_event_del ev s)" "watched (ril_event_del ev s) = watched s - {ev}"
proof -
  have "watch_inv (ril_event_del ev s) \<and> watched (ril_event_del ev s) = watched s - {ev}"
  proof (cases "ev \<in> watched s")
    case True
    then obtain i where i: "i < MAX_FD_EVENTS" "watch_table s ! i = ev" "ev \<noteq> 0"
      using watched_nth [OF assms(1)] by auto
    then have "index (heap s ev) = int i"
      using assms(1) by (auto simp: watch_inv_def)
    then have "ril_event_del ev s = removeWatch ev i s"
      using i(1) by (simp add: ril_event_del_def)
    then show ?thesis using removeWatch_spec [OF assms(1) i] by simp
  next
    case False
    then show ?thesis using assms by (simp add: ril_event_del_def)
  qed
  then show "watch_inv (ril_event_del ev s)" "watched (ril_event_del ev s) = watched s - {ev}"
    by simp_all
qed

section \<open>Ready descriptors\<close>

text \<open>The entries of the table with a ready descriptor, in the order of the table.\<close>

definition ready :: "int set \<Rightarrow> ril_state \<Rightarrow> nat list \<Rightarrow> addr list" where
  "ready rfds s is = filter (\<lambda>p. p \<noteq> 0 \<and> fd (heap s p) \<in> rfds) (map ((!) (watch_table s)) is)"

definition once :: "ril_state \<Rightarrow> addr list \<Rightarrow> addr set" where
  "once s ps = {p \<in> set ps. \<not> persist (heap s p)}"

lemma ready_cong:
  assumes "\<And>i. i \<in> set is \<Longrightarrow> watch_table s' ! i = watch_table s ! i" "\<And>p. fd (heap s' p) = fd (heap s p)"
  shows "ready rfds s' is = ready rfds s is"
  using assms by (induction "is") (auto simp: ready_def)

lemma process_readies_linked:
  assumes "linked (heap s) ts ps" "watch_inv s" "distinct is" "\<forall>i \<in> set is. i < MAX_FD_EVENTS"
    and "\<forall>i \<in> set is. watch_table s ! i \<notin> {timer_list, pending_list} \<union> set ts \<union> set ps"
    and "int (length (ready rfds s is)) \<le> n"
  shows "\<exists>s'. process_readies rfds is n s = Some s' \<and> linked (heap s') ts (ps @ ready rfds s is) \<and>
     watch_inv s' \<and> watched s' = watched s - once s (ready rfds s is) \<and>
     (\<forall>p. timeout (heap s' p) = timeout (heap s p))"
  using assms
proof (induction rfds "is" n s arbitrary: ps rule: process_readies.induct)
  case (1 rfds n s)
  then show ?case by (auto simp: ready_def once_def)
next
  case (2 rfds i "is" n s)
  let ?p = "watch_table s ! i"
  show ?case
  proof (cases "?p \<noteq> 0 \<and> fd (heap s ?p) \<in> rfds")
    case False
    then have r: "ready rfds s (i # is) = ready rfds s is" by (auto simp: ready_def)
    show ?thesis
    proof (cases "n > 0")
      case True
      have "process_readies rfds (i # is) n s = process_readies rfds is n s"
        using False True by (auto simp: Let_def)
      with 2(2) [OF True refl False 2(3,4)] 2(5-8) r show ?thesis by simp
    next
      case False
      then have "length (ready rfds s is) = 0" using 2(8) unfolding r by linarith
      with False 2(3,4) show ?thesis by (auto simp: r once_def)
    qed
  next
    case True
    let ?r = "ready rfds s is"
    have r: "ready rfds s (i # is) = ?p # ?r" using True by (simp add: ready_def)
    then have n: "n > 0" "int (length ?r) \<le> n - 1" using 2(8) by simp_all
    obtain h where h: "addToList ?p pending_list (heap s) = Some h" "linked h ts (ps @ [?p])"
      "same_payload (heap s) h"
      using rl.add_last [of "heap s" pending_list ps ?p timer_list ts] 2(3,7) True
      by (auto simp: linked_def)
    note f = same_payload_fields [OF h(3)]
    let ?s1 = "s\<lparr>heap := h\<rparr>"
    let ?s2 = "if persist (heap ?s1 ?p) = False then removeWatch ?p i ?s1 else ?s1"
    have i: "i < MAX_FD_EVENTS" "watch_table ?s1 ! i = ?p" "?p \<noteq> 0" using 2(6) True by auto
    have inv1: "watch_inv ?s1" using watch_inv_heap [OF 2(4) h(3)] .
    note rw = removeWatch_spec [OF inv1 i]
    have inv2: "watch_inv ?s2" using inv1 rw(1) by simp
    have tab2: "watch_table ?s2 ! j = watch_table s ! j" if "j \<in> set is" for j
      using that 2(5) rw(3) by (cases "j = i") auto
    have fd2: "fd (heap ?s2 p) = fd (heap s p)" "persist (heap ?s2 p) = persist (heap s p)"
      "timeout (heap ?s2 p) = timeout (heap s p)" for p
      using rw(4) f by auto
    have lists2: "linked (heap ?s2) ts (ps @ [?p])"
      using h(2) rw(4) by (auto simp: linked_def intro: is_ring_frame)
    have w2: "watched ?s2 = watched s - once s [?p]"
      using rw(2) f by (auto simp: once_def watched_def)
    have r2: "ready rfds ?s2 is = ?r" by (rule ready_cong) (use tab2 fd2 in auto)
    have fresh: "\<forall>j \<in> set is. watch_table ?s2 ! j \<notin> {timer_list, pending_list} \<union> set ts \<union> set (ps @ [?p])"
    proof
      fix j assume j: "j \<in> set is"
      then have "watch_table s ! j \<noteq> ?p"
        using watch_table_unique [OF 2(4), of j i] 2(5,6) i by auto
      with j 2(7) tab2 [OF j] show "watch_table ?s2 ! j \<notin> {timer_list, pending_list} \<union> set ts \<union> set (ps @ [?p])"
        by auto
    qed
    obtain s' where s': "process_readies rfds is (n - 1) ?s2 = Some s'"
      "linked (heap s') ts ((ps @ [?p]) @ ?r)" "watch_inv s'" "watched s' = watched ?s2 - once ?s2 ?r"
      "\<forall>p. timeout (heap s' p) = timeout (heap ?s2 p)"
      using 2(1) [OF n(1) refl True h(1) refl lists2 inv2 _ _ fresh] 2(5,6) n(2) r2 by auto
    have "process_readies rfds (i # is) n s = Some s'"
      using True n(1) h(1) s'(1) by (simp add: Let_def)
    moreover have "once ?s2 ?r = once s ?r" by (simp only: once_def fd2)
    moreover have "once s (?p # ?r) = once s [?p] \<union> once s ?r" by (auto simp: once_def)
    ultimately show ?thesis
      using s'(2-5) w2 fd2(3) r by auto
  qed
qed

lemma ready_bound:
  assumes inv: "watch_inv s" and "finite rfds" "distinct is" "\<forall>i \<in> set is. i < MAX_FD_EVENTS"
  shows "length (ready rfds s is) \<le> card rfds"
proof -
  let ?r = "ready rfds s is" and ?f = "\<lambda>p. fd (heap s p)"
  have "distinct ?r"
    using assms(3,4)
  proof (induction "is")
    case (Cons i "is")
    have "watch_table s ! i \<notin> set (ready rfds s is)" if nz: "watch_table s ! i \<noteq> 0"
    proof
      assume "watch_table s ! i \<in> set (ready rfds s is)"
      then obtain j where j: "j \<in> set is" "watch_table s ! j = watch_table s ! i"
        by (auto simp: ready_def)
      have "j = i"
        by (rule watch_table_unique [OF inv]) (use j nz Cons.prems in auto)
      with j Cons.prems show False by simp
    qed
    with Cons show ?case by (auto simp: ready_def)
  qed (simp add: ready_def)
  moreover have "set ?r \<subseteq> watched s"
    using assms(4) inv by (auto simp: ready_def watched_def watch_inv_def)
  then have "inj_on ?f (set ?r)"
    using inv by (auto simp: watch_inv_def intro: inj_on_subset)
  moreover have "?f ` set ?r \<subseteq> rfds" by (auto simp: ready_def)
  ultimately show ?thesis
    using assms(2) by (metis card_image card_mono distinct_card)
qed

section \<open>Properties\<close>

text \<open>C5.
  Adding a timer always ends, enters the event at the place its deadline gives it among the
  timers, behind the earlier ones, keeps the timers sorted and touches no other event.
\<close>

theorem ril_timer_add_sorted:
  assumes "linked (heap s) ts ps" "timers_ok (heap s) ts" "tv_ok now" "tv_ok tv"
    and "ev \<noteq> 0" "ev \<notin> {timer_list, pending_list} \<union> set ts \<union> set ps"
  shows "\<exists>s' pre post. ril_timer_add ev (Some tv) now s = Some s' \<and> ts = pre @ post \<and>
     linked (heap s') (pre @ ev # post) ps \<and> timers_ok (heap s') (pre @ ev # post) \<and>
     due (heap s') ev = usecs now + usecs tv \<and>
     (\<forall>p \<in> set pre. due (heap s) p < usecs now + usecs tv) \<and>
     (\<forall>p. p \<noteq> ev \<longrightarrow> payload (heap s' p) = payload (heap s p))"
proof -
  let ?P = "\<lambda>p. due (heap s) p < usecs now + usecs tv"
  obtain s' where "ril_timer_add ev (Some tv) now s = Some s'"
    "linked (heap s') (takeWhile ?P ts @ ev # dropWhile ?P ts) ps"
    "timers_ok (heap s') (takeWhile ?P ts @ ev # dropWhile ?P ts)"
    "due (heap s') ev = usecs now + usecs tv"
    "\<forall>p. p \<noteq> ev \<longrightarrow> payload (heap s' p) = payload (heap s p)"
    using ril_timer_add_linked [OF assms(1-4), of ev] assms(5,6) by (auto simp: Let_def)
  moreover have "ts = takeWhile ?P ts @ dropWhile ?P ts" by simp
  ultimately show ?thesis
    using set_takeWhileD [of _ ?P ts] by blast
qed

definition ex_heap :: heap where
  "ex_heap = (\<lambda>_. null_event\<lparr>index := -1\<rparr>)
     (1 := null_event\<lparr>next_ev := 3, prev_ev := 4\<rparr>, 2 := null_event\<lparr>next_ev := 2, prev_ev := 2\<rparr>,
      3 := null_event\<lparr>next_ev := 4, prev_ev := 1, timeout := \<lparr>tv_sec = 5, tv_usec = 0\<rparr>\<rparr>,
      4 := null_event\<lparr>next_ev := 1, prev_ev := 3, timeout := \<lparr>tv_sec = 9, tv_usec = 1\<rparr>\<rparr>,
      6 := null_event\<lparr>fd := 7, index := 0\<rparr>)"

definition ex_ril :: ril_state where
  "ex_ril = \<lparr>heap = ex_heap, watch_table = [6, 0, 0, 0, 0, 0, 0, 0], nfds = 8, readFds = {7}\<rparr>"

lemma ex_ril_linked: "linked (heap ex_ril) [3, 4] []" "timers_ok (heap ex_ril) [3, 4]"
  by (simp_all add: ex_ril_def ex_heap_def linked_def is_ring_def timers_ok_def due_def usecs_def tv_ok_def)

lemma less_8: "i < (8 :: nat) \<longleftrightarrow> i \<in> {0, 1, 2, 3, 4, 5, 6, 7}"
  by auto

lemma ex_ril_watch: "watch_inv ex_ril" "watched ex_ril = {6}"
proof -
  show w: "watched ex_ril = {6}" by (auto simp: watched_def ex_ril_def)
  have "\<forall>i < MAX_FD_EVENTS. watch_table ex_ril ! i \<noteq> 0 \<longrightarrow> i = 0"
    by (auto simp: ex_ril_def MAX_FD_EVENTS_def less_8)
  then show "watch_inv ex_ril"
    unfolding watch_inv_def w by (auto simp: ex_ril_def ex_heap_def MAX_FD_EVENTS_def null_event_def)
qed

abbreviation "ex_tv n \<equiv> \<lparr>tv_sec = n, tv_usec = 0\<rparr>"

lemma ex_tv_ok: "tv_ok (ex_tv n)" "usecs (ex_tv n) = n * 1000000"
  by (simp_all add: tv_ok_def usecs_def)

theorem ril_timer_add_sorted_witness:
  "linked (heap ex_ril) [3, 4] [] \<and> (\<exists>s' pre post.
     ril_timer_add 5 (Some (ex_tv 3)) (ex_tv 4) ex_ril = Some s' \<and> [3, 4] = pre @ post \<and>
     linked (heap s') (pre @ 5 # post) [] \<and> due (heap s') 5 = 7000000)"
  using ril_timer_add_sorted [OF ex_ril_linked ex_tv_ok(1) [of 4] ex_tv_ok(1) [of 3], of 5]
    ex_ril_linked(1)
  by (auto simp: ex_tv_ok)

text \<open>C6.
  The descriptors handed to \<^verbatim>\<open>select\<close> are exactly those of the watched events and lie below
  the bound it is given, each watched event knows its slot, and adding and deleting an event
  keep this; a deleted event is no longer watched, an added one is unless the table is full.
\<close>

theorem watch_table_inv:
  assumes "watch_inv s" "ev \<noteq> 0"
  shows "(ev \<notin> watched s \<and> 0 \<le> fd (heap s ev) \<and> fd (heap s ev) \<notin> readFds s \<longrightarrow>
            watch_inv (ril_event_add ev s) \<and>
            watched (ril_event_add ev s) =
              (if 0 \<in> set (watch_table s) then insert ev (watched s) else watched s)) \<and>
         (ev \<in> watched s \<or> index (heap s ev) = -1 \<longrightarrow>
            watch_inv (ril_event_del ev s) \<and> watched (ril_event_del ev s) = watched s - {ev})"
  using ril_event_add_spec [OF assms] ril_event_del_spec [OF assms] by auto

theorem watch_table_inv_witness:
  "watch_inv ex_ril \<and> watched (ril_event_add 5 ex_ril) = {5, 6} \<and> watched (ril_event_del 6 ex_ril) = {}"
proof -
  have 5: "5 \<notin> watched ex_ril" "0 \<le> fd (heap ex_ril 5)" "fd (heap ex_ril 5) \<notin> readFds ex_ril"
    "0 \<in> set (watch_table ex_ril)"
    unfolding ex_ril_watch by (simp_all add: ex_ril_def ex_heap_def null_event_def)
  show ?thesis
    using watch_table_inv [OF ex_ril_watch(1), of 5] watch_table_inv [OF ex_ril_watch(1), of 6]
      5 ex_ril_watch by simp
qed


lemma ex_ril_sel: "ready {7} ex_ril [0..<MAX_FD_EVENTS] = [6]"
  by (simp add: ready_def ex_ril_def ex_heap_def null_event_def MAX_FD_EVENTS_def upt_rec)


section \<open>Where the code and its comments part\<close>

text \<open>
  The comment of \<^verbatim>\<open>processTimeouts\<close> fires the timers with \<^verbatim>\<open>now >= ev->timeout\<close>, the code only
  those with a strictly smaller deadline, while \<^verbatim>\<open>calcNextTimeout\<close> takes an equal deadline as
  expired: at the very microsecond of a deadline the loop asks \<^verbatim>\<open>select\<close> not to wait and then
  fires nothing.
\<close>

theorem equal_deadline_spins:
  assumes "linked (heap s) (t # ts) []" "timers_ok (heap s) (t # ts)" "timeout (heap s t) = now"
  shows "calcNextTimeout now s = (0, Some \<lparr>tv_sec = 0, tv_usec = 0\<rparr>) \<and>
         (\<exists>s'. processTimeouts now s = Some s' \<and> linked (heap s') (t # ts) [])"
proof -
  have t: "t \<noteq> timer_list" "next_ev (heap s timer_list) = t"
    using links_nonzero [OF assms(1), of t] linked_next(1) [OF assms(1)] by simp_all
  have now: "tv_ok now" using assms(2,3) by (auto simp: timers_ok_def)
  have "\<forall>p \<in> set (t # ts). \<not> due (heap s) p < usecs now"
    using assms(2,3) by (auto simp: timers_ok_def due_def)
  then have "filter (\<lambda>p. due (heap s) p < usecs now) (t # ts) = []"
    "filter (\<lambda>p. \<not> due (heap s) p < usecs now) (t # ts) = t # ts"
    by (auto simp: filter_empty_conv filter_id_conv)
  with processTimeouts_linked [OF assms(1,2) now] t assms(3) show ?thesis
    by (auto simp: calcNextTimeout_def Let_def timercmp_def)
qed

text \<open>
  \<^verbatim>\<open>ril_event_del\<close> is commented as removing an event from the watch or timer list; it leaves a
  timer where it is.
\<close>

theorem ril_event_del_keeps_timer:
  "index (heap s ev) = -1 \<Longrightarrow> ril_event_del ev s = s"
  by (simp add: ril_event_del_def)

end
