(* ===== verification/Lights.thy ===== *)
theory Lights
  imports Prelude "HOL-Library.Word"
begin

text \<open>
  The lights module, \<^verbatim>\<open>hal/light/lights.c\<close>, in the configuration its makefile builds (the red
  LED only), and the power module, \<^verbatim>\<open>power/power.c\<close>. Both act by writing to files of the
  kernel: an operation returns its result with the list of these effects, and whether the
  files can be opened and written is a parameter.
\<close>

unbundle bit_operations_syntax

section \<open>Effects\<close>

datatype io = WriteFile string string | Chown string | Sleep int

text \<open>
  The error codes of opening and of writing a file, and whether the two delay files exist
  when they are looked for the \<open>i\<close>-th time.
\<close>

record led_env =
  open_error :: "string \<Rightarrow> int option"
  write_error :: "string \<Rightarrow> string \<Rightarrow> int option"
  delay_files :: "nat \<Rightarrow> bool"

definition RED_LED_PATH :: string where
  "RED_LED_PATH = ''/sys/class/leds/red''"

definition LCD_BRIGHTNESS :: string where
  "LCD_BRIGHTNESS = ''/sys/class/leds/lcd-backlight/brightness''"

definition RED :: int where
  "RED = 1"

definition COLOR_MASK :: "32 word" where
  "COLOR_MASK = 0x00ffffff"

text \<open>
  The sleep is repeated while signals interrupt it; \<open>sleeps\<close> holds the results of the
  successive \<^verbatim>\<open>nanosleep\<close> calls, 0 or the error code, and \<open>None\<close> is a call that still sleeps.
\<close>

fun led_wait_delay :: "int list \<Rightarrow> int option" where
  "led_wait_delay [] = None"
| "led_wait_delay (err # sleeps) =
     (if err = 0 then Some 0 else if err = 4 then led_wait_delay sleeps else Some err)"

definition write_int :: "led_env \<Rightarrow> string \<Rightarrow> int \<Rightarrow> int \<times> io list" where
  "write_int env path value =
     (case open_error env path of
        None \<Rightarrow>
          let buffer = dec value @ ''\<newline>''
          in ((case write_error env path buffer of Some e \<Rightarrow> - e | None \<Rightarrow> 0), [WriteFile path buffer])
      | Some e \<Rightarrow> (- e, []))"

text \<open>\<open>None\<close> is a write beyond the buffer \<^verbatim>\<open>snprintf\<close> filled.\<close>

definition write_str :: "led_env \<Rightarrow> string \<Rightarrow> string \<Rightarrow> (int \<times> io list) option" where
  "write_str env path value =
     (case open_error env path of
        None \<Rightarrow>
          let bytes = value @ ''\<newline>''
          in if length bytes < 64
             then Some ((case write_error env path bytes of Some e \<Rightarrow> - e | None \<Rightarrow> 0), [WriteFile path bytes])
             else None
      | Some e \<Rightarrow> Some (- e, []))"

section \<open>The light state\<close>

datatype flash_mode = LIGHT_FLASH_NONE | LIGHT_FLASH_TIMED | LIGHT_FLASH_HARDWARE

record light_state_t =
  color :: "32 word"
  flashMode :: flash_mode
  flashOnMS :: int
  flashOffMS :: int

definition rgb_to_brightness :: "light_state_t \<Rightarrow> 32 word" where
  "rgb_to_brightness state =
     (let c = color state AND COLOR_MASK
      in drop_bit 8 (77 * (drop_bit 16 c AND 0x00ff) + 150 * (drop_bit 8 c AND 0x00ff) +
                     29 * (c AND 0x00ff)))"

text \<open>The static variables of the module; \<^verbatim>\<open>redStatus\<close>: 0 off, 1 blink, 2 no blink.\<close>

record lights =
  redStatus :: int
  battery :: light_state_t
  notification :: light_state_t

definition RETRIES :: nat where
  "RETRIES = 10"

function wait_delay_files :: "led_env \<Rightarrow> nat \<Rightarrow> nat \<times> io list" where
  "wait_delay_files env i =
     (if \<not> delay_files env i \<and> i < RETRIES then
        let (i', tr) = wait_delay_files env (i + 1)
        in (i', [Chown (RED_LED_PATH @ ''/delay_on''), Chown (RED_LED_PATH @ ''/delay_off''), Sleep 5] @ tr)
      else (i, []))"
  by pat_completeness auto

termination
  by (relation "measure (\<lambda>(env, i). RETRIES - i)") auto

declare wait_delay_files.simps [simp del]

definition blink_led ::
  "led_env \<Rightarrow> int \<Rightarrow> int \<Rightarrow> int \<Rightarrow> int \<Rightarrow> lights \<Rightarrow> (int \<times> lights \<times> io list) option" where
  "blink_led env color_id level onMS offMS g =
     (if color_id \<noteq> RED then Some (-3, g, [])
      else
        let brightness = RED_LED_PATH @ ''/brightness'';
            delay_off = RED_LED_PATH @ ''/delay_off'';
            delay_on = RED_LED_PATH @ ''/delay_on'';
            trigger = RED_LED_PATH @ ''/trigger'';
            curStatus = (if level = 0 then 0 else if onMS > 0 \<and> offMS > 0 then 1 else 2)
        in if redStatus g = curStatus then Some (-1, g, [])
           else if curStatus = 0 then
             Some (0, g\<lparr>redStatus := curStatus\<rparr>, snd (write_int env brightness 0))
           else if curStatus = 1 then do {
             (r, tr1) \<leftarrow> write_str env trigger ''timer'';
             let (i, tr2) = wait_delay_files env 0;
             if i < RETRIES then
               Some (0, g\<lparr>redStatus := curStatus\<rparr>,
                     tr1 @ [Sleep 10] @ tr2 @ snd (write_int env delay_off offMS) @
                     snd (write_int env delay_on onMS))
             else Some (-2, g, tr1 @ [Sleep 10] @ tr2)
           }
           else do {
             (r, tr1) \<leftarrow> write_str env trigger ''none'';
             Some (0, g\<lparr>redStatus := curStatus\<rparr>, tr1 @ snd (write_int env brightness level))
           })"

definition set_light_backlight ::
  "led_env \<Rightarrow> nat option \<Rightarrow> light_state_t \<Rightarrow> lights \<Rightarrow> int \<times> lights \<times> io list" where
  "set_light_backlight env dev state g =
     (let brightness = rgb_to_brightness state
      in case dev of
           None \<Rightarrow> (-1, g, [])
         | Some _ \<Rightarrow>
             let (err, tr) = write_int env LCD_BRIGHTNESS (sint brightness) in (err, g, tr))"

definition set_speaker_light_locked ::
  "led_env \<Rightarrow> light_state_t option \<Rightarrow> lights \<Rightarrow> (lights \<times> io list) option" where
  "set_speaker_light_locked env state g =
     (case state of
        None \<Rightarrow> Some (g, [])
      | Some st \<Rightarrow>
          let (onMS, offMS) = (case flashMode st of
                                 LIGHT_FLASH_TIMED \<Rightarrow> (flashOnMS st, flashOffMS st)
                               | _ \<Rightarrow> (0, 0));
              red = sint (drop_bit 16 (color st) AND 0xFF)
          in do {
            (ret, g', tr) \<leftarrow> (if red \<noteq> 0 then blink_led env RED red onMS offMS g
                              else blink_led env RED 0 0 0 g);
            Some (g', tr)
          })"

definition handle_charger_battery_locked :: "led_env \<Rightarrow> lights \<Rightarrow> (lights \<times> io list) option" where
  "handle_charger_battery_locked env g =
     (if color (battery g) AND COLOR_MASK \<noteq> 0
      then set_speaker_light_locked env (Some (battery g)) g
      else do {
        (g1, tr1) \<leftarrow> set_speaker_light_locked env (Some (battery g)) g;
        (g2, tr2) \<leftarrow> set_speaker_light_locked env (Some (notification g1)) g1;
        Some (g2, tr1 @ tr2)
      })"

definition handle_notification_battery_locked :: "led_env \<Rightarrow> lights \<Rightarrow> (lights \<times> io list) option" where
  "handle_notification_battery_locked env g =
     (if color (notification g) AND COLOR_MASK \<noteq> 0
      then set_speaker_light_locked env (Some (notification g)) g
      else do {
        (g1, tr1) \<leftarrow> set_speaker_light_locked env (Some (notification g)) g;
        (g2, tr2) \<leftarrow> set_speaker_light_locked env (Some (battery g1)) g1;
        Some (g2, tr1 @ tr2)
      })"

definition set_light_battery :: "led_env \<Rightarrow> light_state_t \<Rightarrow> lights \<Rightarrow> (int \<times> lights \<times> io list) option" where
  "set_light_battery env state g = do {
     (g', tr) \<leftarrow> handle_notification_battery_locked env (g\<lparr>battery := state\<rparr>);
     Some (0, g', tr)
   }"

definition set_light_notifications ::
  "led_env \<Rightarrow> light_state_t \<Rightarrow> lights \<Rightarrow> (int \<times> lights \<times> io list) option" where
  "set_light_notifications env state g = do {
     (g', tr) \<leftarrow> handle_notification_battery_locked env (g\<lparr>notification := state\<rparr>);
     Some (0, g', tr)
   }"

text \<open>The operation an opened device is given, by the name of the light.\<close>

datatype set_light = SetBacklight | SetNotifications

definition open_lights :: "string \<Rightarrow> int + set_light" where
  "open_lights name =
     (if name = ''backlight'' then Inr SetBacklight
      else if name = ''notifications'' then Inr SetNotifications
      else Inl (-22))"

definition close_lights :: "nat option \<Rightarrow> int" where
  "close_lights dev = 0"

section \<open>The power module\<close>

datatype feature_t = POWER_FEATURE_DOUBLE_TAP_TO_WAKE | POWER_FEATURE_OTHER nat

definition TAP_TO_WAKE_NODE :: string where
  "TAP_TO_WAKE_NODE = ''/sys/devices/virtual/input/lge_touch/tap2wake''"

definition power_fwrite :: "led_env \<Rightarrow> string \<Rightarrow> string \<Rightarrow> io list" where
  "power_fwrite env path s =
     (case open_error env path of Some e \<Rightarrow> [] | None \<Rightarrow> [WriteFile path s])"

text \<open>\<^verbatim>\<open>snprintf\<close> cuts the text after 63 characters.\<close>

definition set_feature :: "led_env \<Rightarrow> feature_t \<Rightarrow> int \<Rightarrow> io list" where
  "set_feature env feature state =
     (if feature = POWER_FEATURE_DOUBLE_TAP_TO_WAKE
      then power_fwrite env TAP_TO_WAKE_NODE (take 63 (dec state)) else [])"

section \<open>Brightness\<close>

definition channel :: "nat \<Rightarrow> 32 word \<Rightarrow> nat" where
  "channel k c = unat c div 2 ^ k mod 256"

lemma channel_less: "channel k c < 256"
  by (simp add: channel_def)

lemma and_255: "x AND 0xff = take_bit 8 (x :: 32 word)"
  by (simp add: take_bit_eq_mask mask_eq_exp_minus_1)

lemma channel_bits: "channel k c = take_bit 8 (drop_bit k (unat c))"
  by (simp add: channel_def take_bit_eq_mod drop_bit_eq_div)

lemma unat_channel: "unat (drop_bit k x AND 0xff) = channel k (x :: 32 word)"
  by (simp only: and_255 unsigned_take_bit_eq unat_drop_bit_eq channel_bits)

lemma and_COLOR_MASK: "x AND COLOR_MASK = take_bit 24 (x :: 32 word)"
  by (simp add: COLOR_MASK_def take_bit_eq_mask mask_eq_exp_minus_1)

lemma channel_mask: "k \<le> 16 \<Longrightarrow> channel k (x AND COLOR_MASK) = channel k x"
  by (simp only: channel_bits and_COLOR_MASK unsigned_take_bit_eq take_bit_drop_bit take_bit_take_bit min_def) simp

lemma weighted_less:
  assumes "r < 256" "g < 256" "b < (256 :: nat)"
  shows "77 * r + 150 * g + 29 * b < 65536"
  using assms by simp

lemma unat_rgb:
  "unat (rgb_to_brightness st) =
     (77 * channel 16 (color st) + 150 * channel 8 (color st) + 29 * channel 0 (color st)) div 256"
proof -
  let ?c = "color st AND COLOR_MASK"
  let ?r = "drop_bit 16 ?c AND 0xff" and ?g = "drop_bit 8 ?c AND 0xff" and ?b = "?c AND 0xff"
  have u: "unat ?r = channel 16 (color st)" "unat ?g = channel 8 (color st)" "unat ?b = channel 0 (color st)"
    using unat_channel [of 16 ?c] unat_channel [of 8 ?c] unat_channel [of 0 ?c]
    by (simp_all only: channel_mask [of 16] channel_mask [of 8] channel_mask [of 0] le0 order.refl
        drop_bit_0 id_apply numeral_le_iff semiring_norm)
  have "unat (77 * ?r + 150 * ?g + 29 * ?b) = 77 * unat ?r + 150 * unat ?g + 29 * unat ?b"
    unfolding unat_word_ariths u
    using channel_less [of 16 "color st"] channel_less [of 8 "color st"] channel_less [of 0 "color st"]
    by simp
  then show ?thesis
    by (simp only: rgb_to_brightness_def Let_def unat_drop_bit_eq u) (simp add: drop_bit_eq_div)
qed

text \<open>C12.
  The brightness written to the backlight is the weighted mean of the three colour channels:
  it lies between 0 and 255, a grey of level \<open>v\<close> gives exactly \<open>v\<close>, and brighter channels
  never give a lower value. The alpha channel plays no part.
\<close>

theorem rgb_to_brightness_mean:
  "unat (rgb_to_brightness st) \<le> 255 \<and>
   (channel 16 (color st) = v \<and> channel 8 (color st) = v \<and> channel 0 (color st) = v \<longrightarrow>
      unat (rgb_to_brightness st) = v) \<and>
   (channel 16 (color st) \<le> channel 16 (color st') \<and> channel 8 (color st) \<le> channel 8 (color st') \<and>
    channel 0 (color st) \<le> channel 0 (color st') \<longrightarrow>
      unat (rgb_to_brightness st) \<le> unat (rgb_to_brightness st'))"
proof -
  note less = channel_less [of 16 "color st"] channel_less [of 8 "color st"] channel_less [of 0 "color st"]
  have "unat (rgb_to_brightness st) \<le> 255"
    using weighted_less [OF less] unfolding unat_rgb by simp
  moreover have "unat (rgb_to_brightness st) = v"
    if "channel 16 (color st) = v" "channel 8 (color st) = v" "channel 0 (color st) = v"
    unfolding unat_rgb using that by simp
  moreover have "unat (rgb_to_brightness st) \<le> unat (rgb_to_brightness st')"
    if "channel 16 (color st) \<le> channel 16 (color st')" "channel 8 (color st) \<le> channel 8 (color st')"
      "channel 0 (color st) \<le> channel 0 (color st')"
    unfolding unat_rgb using that by (intro div_le_mono add_mono mult_le_mono) simp_all
  ultimately show ?thesis by blast
qed

definition ex_light :: "32 word \<Rightarrow> light_state_t" where
  "ex_light c = \<lparr>color = c, flashMode = LIGHT_FLASH_NONE, flashOnMS = 0, flashOffMS = 0\<rparr>"

theorem rgb_to_brightness_mean_witness:
  "unat (rgb_to_brightness (ex_light 0xff808080)) = 128"
  using rgb_to_brightness_mean [of "ex_light 0xff808080" 128]
  by (simp add: channel_def ex_light_def)

section \<open>The status of the LED\<close>

text \<open>What a light state asks of the red LED, in the numbers of \<^verbatim>\<open>redStatus\<close>.\<close>

definition led_status :: "light_state_t \<Rightarrow> int" where
  "led_status st =
     (if channel 16 (color st) = 0 then 0
      else if flashMode st = LIGHT_FLASH_TIMED \<and> flashOnMS st > 0 \<and> flashOffMS st > 0 then 1 else 2)"

lemma sint_red: "sint (drop_bit 16 c AND 0xFF) = int (channel 16 (c :: 32 word))"
proof -
  have "uint (drop_bit 16 c AND 0xFF) = int (channel 16 c)"
    using unat_channel [of 16 c] by (metis uint_nat)
  moreover have "int (channel 16 c) < 256" using channel_less [of 16 c] by simp
  ultimately show ?thesis by (simp add: sint_uint signed_take_bit_int_eq_self)
qed

lemma wait_delay_files_found:
  "fst (wait_delay_files env i) < RETRIES \<longleftrightarrow> (\<exists>j. i \<le> j \<and> j < RETRIES \<and> delay_files env j)"
proof (induction env i rule: wait_delay_files.induct)
  case (1 env i)
  show ?case
  proof (cases "\<not> delay_files env i \<and> i < RETRIES")
    case True
    then have "(\<exists>j. i + 1 \<le> j \<and> j < RETRIES \<and> delay_files env j) \<longleftrightarrow>
        (\<exists>j. i \<le> j \<and> j < RETRIES \<and> delay_files env j)"
      by (metis Suc_eq_plus1 Suc_leI Suc_le_lessD less_imp_le_nat order_le_less)
    with 1 [OF True] True show ?thesis
      by (subst wait_delay_files.simps) (auto split: prod.split)
  next
    case False
    then show ?thesis by (subst wait_delay_files.simps) auto
  qed
qed

lemma write_str_timer: "\<exists>r tr. write_str env path ''timer'' = Some (r, tr)"
  "\<exists>r tr. write_str env path ''none'' = Some (r, tr)"
  by (simp_all add: write_str_def Let_def split: option.split)

lemma blink_led_status:
  assumes "j < RETRIES" "delay_files env j"
  shows "\<exists>r tr. blink_led env RED level onMS offMS g =
     Some (r, g\<lparr>redStatus := (if level = 0 then 0 else if onMS > 0 \<and> offMS > 0 then 1 else 2)\<rparr>, tr)"
proof -
  have "fst (wait_delay_files env 0) < RETRIES"
    using assms by (auto simp: wait_delay_files_found)
  then show ?thesis
    using write_str_timer(1) [of env "RED_LED_PATH @ ''/trigger''"] write_str_timer(2) [of env "RED_LED_PATH @ ''/trigger''"]
    by (auto simp: blink_led_def Let_def split: prod.splits)
qed

lemma set_speaker_light_status:
  assumes "j < RETRIES" "delay_files env j"
  shows "\<exists>tr. set_speaker_light_locked env (Some st) g = Some (g\<lparr>redStatus := led_status st\<rparr>, tr)"
  using blink_led_status [OF assms, of 0 0 0 g]
    blink_led_status [OF assms, of "int (channel 16 (color st))" "flashOnMS st" "flashOffMS st" g]
    blink_led_status [OF assms, of "int (channel 16 (color st))" 0 0 g]
  by (auto simp: set_speaker_light_locked_def led_status_def sint_red Let_def split: flash_mode.splits)

lemma dark_channel: "c AND COLOR_MASK = 0 \<Longrightarrow> channel 16 c = 0"
  using channel_mask [of 16 c] by (simp add: channel_def)


definition ex_led_env :: led_env where
  "ex_led_env = \<lparr>open_error = (\<lambda>_. None), write_error = (\<lambda>_ _. None), delay_files = (\<lambda>i. 3 \<le> i)\<rparr>"

definition ex_lights :: lights where
  "ex_lights = \<lparr>redStatus = 0, battery = ex_light 0, notification = ex_light 0\<rparr>"


text \<open>
  A request with the status the LED already has is refused with -1 whatever its level and
  times: a notification of another brightness or blink rate than the one shown is lost.
\<close>

theorem same_status_ignored:
  assumes "redStatus g = 2" "level \<noteq> 0" "\<not> (0 < onMS \<and> 0 < offMS)"
  shows "blink_led env RED level onMS offMS g = Some (-1, g, [])"
  using assms by (auto simp: blink_led_def Let_def)

section \<open>Numbers as text\<close>



end
