(* ===== verification/WifiCommon.thy ===== *)
theory WifiCommon
  imports Prelude
begin

text \<open>
  The tables of the Wi-Fi HAL, \<^verbatim>\<open>hal/wifi_hal/common.cpp\<close>: arrays with a fill count for the
  event handlers and for the outstanding commands. An array keeps its allocated length and
  whatever lies behind the count. The locale \<open>slot_table\<close> states what both tables promise and
  derives what their users rely on; it is interpreted for each of them.
\<close>

section \<open>Arrays with a fill count\<close>

text \<open>
  The \<^verbatim>\<open>memmove\<close> of the unregister functions: the \<open>n - i - 1\<close> elements behind position \<open>i\<close>
  move down by one, the rest of the array stays.
\<close>

definition move_down :: "'a list \<Rightarrow> nat \<Rightarrow> nat \<Rightarrow> 'a list" where
  "move_down a i n = take i a @ take (n - i - 1) (drop (i + 1) a) @ drop (n - 1) a"

lemma length_move_down: "i < n \<Longrightarrow> n \<le> length a \<Longrightarrow> length (move_down a i n) = length a"
  by (simp add: move_down_def)

lemma take_move_down:
  "i < n \<Longrightarrow> n \<le> length a \<Longrightarrow> take (n - 1) (move_down a i n) = remove_at i (take n a)"
  by (cases "i = n - 1") (auto simp: move_down_def remove_at_def min_def take_drop)

text \<open>The search loop looks at the entries below the count only.\<close>

definition find_slot :: "('a \<Rightarrow> bool) \<Rightarrow> 'a list \<Rightarrow> nat \<Rightarrow> nat option" where
  "find_slot P a n = find_index P (take n a)"

section \<open>State\<close>

type_synonym func = nat

type_synonym command = nat

record cb_info =
  nl_cmd :: int
  vendor_id :: int
  vendor_subcmd :: int
  cb_func :: func
  cb_arg :: command

record cmd_info =
  cmd_id :: int
  cmd_ptr :: command

text \<open>Pointers to functions and commands are numbers, 0 is \<^verbatim>\<open>NULL\<close>.\<close>

record hal_info =
  event_cb :: "cb_info list"
  num_event_cb :: nat
  alloc_event_cb :: nat
  cmd :: "cmd_info list"
  num_cmd :: nat
  alloc_cmd :: nat

datatype wifi_error =
  WIFI_SUCCESS | WIFI_ERROR_UNKNOWN | WIFI_ERROR_OUT_OF_MEMORY | WIFI_ERROR_NOT_AVAILABLE
  | WIFI_ERROR_INVALID_ARGS

section \<open>Handlers\<close>

text \<open>\<open>VENDOR\<close> is the command number \<^verbatim>\<open>NL80211_CMD_VENDOR\<close> of the kernel's headers.\<close>

definition wifi_register_handler ::
  "int \<Rightarrow> func \<Rightarrow> command \<Rightarrow> hal_info \<Rightarrow> wifi_error \<times> hal_info" where
  "wifi_register_handler c func arg info =
     (if num_event_cb info < alloc_event_cb info then
        let e = \<lparr>nl_cmd = c, vendor_id = 0, vendor_subcmd = 0, cb_func = func, cb_arg = arg\<rparr>
        in (WIFI_SUCCESS, info\<lparr>event_cb := (event_cb info)[num_event_cb info := e],
                               num_event_cb := num_event_cb info + 1\<rparr>)
      else (WIFI_ERROR_OUT_OF_MEMORY, info))"

definition wifi_register_vendor_handler ::
  "int \<Rightarrow> int \<Rightarrow> int \<Rightarrow> func \<Rightarrow> command \<Rightarrow> hal_info \<Rightarrow> wifi_error \<times> hal_info" where
  "wifi_register_vendor_handler VENDOR vid subcmd func arg info =
     (if num_event_cb info < alloc_event_cb info then
        let e = \<lparr>nl_cmd = VENDOR, vendor_id = vid, vendor_subcmd = subcmd, cb_func = func, cb_arg = arg\<rparr>
        in (WIFI_SUCCESS, info\<lparr>event_cb := (event_cb info)[num_event_cb info := e],
                               num_event_cb := num_event_cb info + 1\<rparr>)
      else (WIFI_ERROR_OUT_OF_MEMORY, info))"

definition wifi_unregister_handler :: "int \<Rightarrow> int \<Rightarrow> hal_info \<Rightarrow> hal_info" where
  "wifi_unregister_handler VENDOR c info =
     (if c = VENDOR then info
      else case find_slot (\<lambda>e. nl_cmd e = c) (event_cb info) (num_event_cb info) of
             None \<Rightarrow> info
           | Some i \<Rightarrow> info\<lparr>event_cb := move_down (event_cb info) i (num_event_cb info),
                            num_event_cb := num_event_cb info - 1\<rparr>)"

definition is_vendor_handler :: "int \<Rightarrow> int \<Rightarrow> int \<Rightarrow> cb_info \<Rightarrow> bool" where
  "is_vendor_handler VENDOR vid subcmd e \<longleftrightarrow>
     nl_cmd e = VENDOR \<and> vendor_id e = vid \<and> vendor_subcmd e = subcmd"

definition wifi_unregister_vendor_handler :: "int \<Rightarrow> int \<Rightarrow> int \<Rightarrow> hal_info \<Rightarrow> hal_info" where
  "wifi_unregister_vendor_handler VENDOR vid subcmd info =
     (case find_slot (is_vendor_handler VENDOR vid subcmd) (event_cb info) (num_event_cb info) of
        None \<Rightarrow> info
      | Some i \<Rightarrow> info\<lparr>event_cb := move_down (event_cb info) i (num_event_cb info),
                       num_event_cb := num_event_cb info - 1\<rparr>)"

section \<open>Commands\<close>

definition wifi_register_cmd :: "int \<Rightarrow> command \<Rightarrow> hal_info \<Rightarrow> wifi_error \<times> hal_info" where
  "wifi_register_cmd rid c info =
     (if num_cmd info < alloc_cmd info
      then (WIFI_SUCCESS, info\<lparr>cmd := (cmd info)[num_cmd info := \<lparr>cmd_id = rid, cmd_ptr = c\<rparr>],
                               num_cmd := num_cmd info + 1\<rparr>)
      else (WIFI_ERROR_OUT_OF_MEMORY, info))"

definition wifi_unregister_cmd :: "int \<Rightarrow> hal_info \<Rightarrow> command \<times> hal_info" where
  "wifi_unregister_cmd rid info =
     (case find_slot (\<lambda>e. cmd_id e = rid) (cmd info) (num_cmd info) of
        None \<Rightarrow> (0, info)
      | Some i \<Rightarrow> (cmd_ptr (cmd info ! i),
                   info\<lparr>cmd := move_down (cmd info) i (num_cmd info), num_cmd := num_cmd info - 1\<rparr>))"

definition wifi_get_cmd :: "int \<Rightarrow> hal_info \<Rightarrow> command" where
  "wifi_get_cmd rid info =
     (case find_slot (\<lambda>e. cmd_id e = rid) (cmd info) (num_cmd info) of
        None \<Rightarrow> 0
      | Some i \<Rightarrow> cmd_ptr (cmd info ! i))"

definition wifi_unregister_cmd_ptr :: "command \<Rightarrow> hal_info \<Rightarrow> hal_info" where
  "wifi_unregister_cmd_ptr c info =
     (case find_slot (\<lambda>e. cmd_ptr e = c) (cmd info) (num_cmd info) of
        None \<Rightarrow> info
      | Some i \<Rightarrow> info\<lparr>cmd := move_down (cmd info) i (num_cmd info), num_cmd := num_cmd info - 1\<rparr>)"

text \<open>What a command is told: to cancel itself, and that a reference to it is given up.\<close>

datatype cmd_call = Cancel command | ReleaseRef command

definition wifi_cancel_cmd :: "int \<Rightarrow> hal_info \<Rightarrow> wifi_error \<times> hal_info \<times> cmd_call list" where
  "wifi_cancel_cmd rid info =
     (let (c, info') = wifi_unregister_cmd rid info
      in if c \<noteq> 0 then (WIFI_SUCCESS, info', [Cancel c, ReleaseRef c])
         else (WIFI_ERROR_INVALID_ARGS, info', []))"

section \<open>Abstraction\<close>

definition hal_inv :: "hal_info \<Rightarrow> bool" where
  "hal_inv info \<longleftrightarrow>
     length (event_cb info) = alloc_event_cb info \<and> num_event_cb info \<le> alloc_event_cb info \<and>
     length (cmd info) = alloc_cmd info \<and> num_cmd info \<le> alloc_cmd info"

definition handlers :: "hal_info \<Rightarrow> cb_info list" where
  "handlers info = take (num_event_cb info) (event_cb info)"

definition commands :: "hal_info \<Rightarrow> cmd_info list" where
  "commands info = take (num_cmd info) (cmd info)"

text \<open>The contract of both tables: the entries as a list, added at the end, taken out by the first match.\<close>

locale slot_table =
  fixes inv :: "'t \<Rightarrow> bool"
    and entries :: "'t \<Rightarrow> 'e list"
    and capacity :: "'t \<Rightarrow> nat"
    and put :: "'e \<Rightarrow> 't \<Rightarrow> bool \<times> 't"
    and cut :: "('e \<Rightarrow> bool) \<Rightarrow> 't \<Rightarrow> 't"
  assumes put_room:
      "inv t \<Longrightarrow> length (entries t) < capacity t \<Longrightarrow>
       \<exists>t'. put e t = (True, t') \<and> inv t' \<and> entries t' = entries t @ [e] \<and> capacity t' = capacity t"
    and put_full: "inv t \<Longrightarrow> length (entries t) = capacity t \<Longrightarrow> put e t = (False, t)"
    and entries_bound: "inv t \<Longrightarrow> length (entries t) \<le> capacity t"
    and entries_cut: "inv t \<Longrightarrow> entries (cut P t) = remove_first P (entries t)"
    and inv_cut: "inv t \<Longrightarrow> inv (cut P t) \<and> capacity (cut P t) = capacity t"
begin

lemma put_ok_iff: "inv t \<Longrightarrow> fst (put e t) \<longleftrightarrow> length (entries t) < capacity t"
  using put_room [of t e] put_full [of t e] entries_bound [of t] by force

lemma put_inv: "inv t \<Longrightarrow> inv (snd (put e t))"
  using put_room [of t e] put_full [of t e] entries_bound [of t] by force

lemma put_entries: "inv t \<Longrightarrow> fst (put e t) \<Longrightarrow> entries (snd (put e t)) = entries t @ [e]"
  using put_room [of t e] put_ok_iff [of t e] by force

text \<open>Taking out what was put in last, when nothing else matches, restores the table.\<close>

theorem put_cut:
  assumes "inv t" "fst (put e t)" "P e" "\<forall>x \<in> set (entries t). \<not> P x"
  shows "entries (cut P (snd (put e t))) = entries t"
proof -
  have "remove_first P (entries t @ [e]) = entries t"
    using assms(3,4) by (simp add: remove_first_snoc)
  then show ?thesis
    using entries_cut [OF put_inv [OF assms(1)], of P e] put_entries [OF assms(1,2)] by simp
qed

text \<open>A table that had room once has it again after any entry was taken out.\<close>

lemma cut_makes_room:
  assumes "inv t" "\<exists>x \<in> set (entries t). P x"
  shows "length (entries (cut P t)) < capacity (cut P t)"
  using length_remove_first [OF assms(2)] entries_bound [OF assms(1)]
  by (simp add: entries_cut [OF assms(1)] inv_cut [OF assms(1)])

end

section \<open>The two tables\<close>

text \<open>Entering and taking out of an array with a fill count.\<close>

lemma array_put:
  assumes "n < length a"
  shows "take (n + 1) (a[n := e]) = take n a @ [e]"
  using assms by (simp add: take_Suc_conv_app_nth)

lemma array_cut:
  assumes "n \<le> length a"
  shows "case find_slot P a n of
           None \<Rightarrow> remove_first P (take n a) = take n a
         | Some i \<Rightarrow> i < n \<and> length (move_down a i n) = length a \<and>
                     take (n - 1) (move_down a i n) = remove_first P (take n a)"
proof (cases "find_slot P a n")
  case None
  then have "\<forall>x \<in> set (take n a). \<not> P x" by (simp only: find_slot_def find_index_None_iff)
  with None show ?thesis by (simp add: remove_first_absent)
next
  case (Some i)
  then have i: "find_index P (take n a) = Some i" by (simp add: find_slot_def)
  then have "i < n" using find_index_Some [OF i] assms by simp
  moreover have "take (n - 1) (move_down a i n) = remove_first P (take n a)"
    using \<open>i < n\<close> assms i by (simp only: take_move_down remove_at_find_index)
  ultimately show ?thesis
    using Some assms by (simp add: length_move_down)
qed

definition put_handler :: "cb_info \<Rightarrow> hal_info \<Rightarrow> bool \<times> hal_info" where
  "put_handler e info =
     (if num_event_cb info < alloc_event_cb info
      then (True, info\<lparr>event_cb := (event_cb info)[num_event_cb info := e],
                       num_event_cb := num_event_cb info + 1\<rparr>)
      else (False, info))"

definition cut_handler :: "(cb_info \<Rightarrow> bool) \<Rightarrow> hal_info \<Rightarrow> hal_info" where
  "cut_handler P info =
     (case find_slot P (event_cb info) (num_event_cb info) of
        None \<Rightarrow> info
      | Some i \<Rightarrow> info\<lparr>event_cb := move_down (event_cb info) i (num_event_cb info),
                       num_event_cb := num_event_cb info - 1\<rparr>)"

definition put_cmd :: "cmd_info \<Rightarrow> hal_info \<Rightarrow> bool \<times> hal_info" where
  "put_cmd e info =
     (if num_cmd info < alloc_cmd info
      then (True, info\<lparr>cmd := (cmd info)[num_cmd info := e], num_cmd := num_cmd info + 1\<rparr>)
      else (False, info))"

definition cut_cmd :: "(cmd_info \<Rightarrow> bool) \<Rightarrow> hal_info \<Rightarrow> hal_info" where
  "cut_cmd P info =
     (case find_slot P (cmd info) (num_cmd info) of
        None \<Rightarrow> info
      | Some i \<Rightarrow> info\<lparr>cmd := move_down (cmd info) i (num_cmd info), num_cmd := num_cmd info - 1\<rparr>)"

lemma cut_handler_spec:
  assumes "hal_inv info"
  shows "handlers (cut_handler P info) = remove_first P (handlers info)"
    "hal_inv (cut_handler P info)" "alloc_event_cb (cut_handler P info) = alloc_event_cb info"
    "commands (cut_handler P info) = commands info"
  using array_cut [of "num_event_cb info" "event_cb info" P] assms
  by (auto simp: cut_handler_def handlers_def commands_def hal_inv_def split: option.splits)

lemma cut_cmd_spec:
  assumes "hal_inv info"
  shows "commands (cut_cmd P info) = remove_first P (commands info)"
    "hal_inv (cut_cmd P info)" "alloc_cmd (cut_cmd P info) = alloc_cmd info"
    "handlers (cut_cmd P info) = handlers info"
  using array_cut [of "num_cmd info" "cmd info" P] assms
  by (auto simp: cut_cmd_def handlers_def commands_def hal_inv_def split: option.splits)

lemma length_tables:
  assumes "hal_inv info"
  shows "length (handlers info) = num_event_cb info" "length (commands info) = num_cmd info"
  using assms by (simp_all add: handlers_def commands_def hal_inv_def)

interpretation evt: slot_table hal_inv handlers alloc_event_cb put_handler cut_handler
proof (unfold_locales, goal_cases)
  case (1 t e)
  then show ?case
    using array_put [of "num_event_cb t" "event_cb t" e]
    by (auto simp: put_handler_def length_tables handlers_def hal_inv_def)
qed (auto simp: put_handler_def length_tables cut_handler_spec, auto simp: hal_inv_def)

interpretation cmt: slot_table hal_inv commands alloc_cmd put_cmd cut_cmd
proof (unfold_locales, goal_cases)
  case (1 t e)
  then show ?case
    using array_put [of "num_cmd t" "cmd t" e]
    by (auto simp: put_cmd_def length_tables commands_def hal_inv_def)
qed (auto simp: put_cmd_def length_tables cut_cmd_spec, auto simp: hal_inv_def)

section \<open>Properties\<close>

definition handler_entry :: "int \<Rightarrow> func \<Rightarrow> command \<Rightarrow> cb_info" where
  "handler_entry c f a = \<lparr>nl_cmd = c, vendor_id = 0, vendor_subcmd = 0, cb_func = f, cb_arg = a\<rparr>"

definition vendor_entry :: "int \<Rightarrow> int \<Rightarrow> int \<Rightarrow> func \<Rightarrow> command \<Rightarrow> cb_info" where
  "vendor_entry VENDOR vid sub f a =
     \<lparr>nl_cmd = VENDOR, vendor_id = vid, vendor_subcmd = sub, cb_func = f, cb_arg = a\<rparr>"

definition result_of :: "bool \<times> hal_info \<Rightarrow> wifi_error \<times> hal_info" where
  "result_of r = (if fst r then WIFI_SUCCESS else WIFI_ERROR_OUT_OF_MEMORY, snd r)"

lemma register_put:
  "wifi_register_handler c f a info = result_of (put_handler (handler_entry c f a) info)"
  "wifi_register_vendor_handler V vid sub f a info = result_of (put_handler (vendor_entry V vid sub f a) info)"
  "wifi_register_cmd rid ptr info = result_of (put_cmd \<lparr>cmd_id = rid, cmd_ptr = ptr\<rparr> info)"
  by (simp_all add: result_of_def wifi_register_handler_def wifi_register_vendor_handler_def
      wifi_register_cmd_def put_handler_def put_cmd_def handler_entry_def vendor_entry_def)

lemma unregister_cut:
  "c \<noteq> V \<Longrightarrow> wifi_unregister_handler V c info = cut_handler (\<lambda>e. nl_cmd e = c) info"
  "wifi_unregister_vendor_handler V vid sub info = cut_handler (is_vendor_handler V vid sub) info"
  "snd (wifi_unregister_cmd rid info) = cut_cmd (\<lambda>e. cmd_id e = rid) info"
  "wifi_unregister_cmd_ptr ptr info = cut_cmd (\<lambda>e. cmd_ptr e = ptr) info"
  by (simp_all add: wifi_unregister_handler_def wifi_unregister_vendor_handler_def cut_handler_def
      cut_cmd_def wifi_unregister_cmd_def wifi_unregister_cmd_ptr_def split: option.split)

lemma find_index_append_new:
  "(\<forall>x \<in> set xs. \<not> P x) \<Longrightarrow> P e \<Longrightarrow> find_index P (xs @ [e]) = Some (length xs)"
  by (induction xs) auto

lemma wifi_get_cmd_commands:
  assumes "hal_inv info"
  shows "wifi_get_cmd rid info =
           (case find_index (\<lambda>e. cmd_id e = rid) (commands info) of
              None \<Rightarrow> 0 | Some i \<Rightarrow> cmd_ptr (commands info ! i))"
proof (cases "find_index (\<lambda>e. cmd_id e = rid) (commands info)")
  case None
  then show ?thesis by (simp add: wifi_get_cmd_def find_slot_def commands_def)
next
  case (Some i)
  then have "i < num_cmd info"
    using find_index_Some [OF Some] length_tables(2) [OF assms] by simp
  with Some show ?thesis by (simp add: wifi_get_cmd_def find_slot_def commands_def)
qed

lemma fst_unregister_cmd: "fst (wifi_unregister_cmd rid info) = wifi_get_cmd rid info"
  by (simp add: wifi_unregister_cmd_def wifi_get_cmd_def split: option.split)


definition ex_hal :: hal_info where
  "ex_hal = \<lparr>event_cb = replicate 2 (handler_entry 0 0 0), num_event_cb = 0, alloc_event_cb = 2,
             cmd = replicate 2 \<lparr>cmd_id = 0, cmd_ptr = 0\<rparr>, num_cmd = 0, alloc_cmd = 2\<rparr>"

lemma ex_hal_inv: "hal_inv ex_hal" "handlers ex_hal = []" "commands ex_hal = []"
  by (simp_all add: ex_hal_def hal_inv_def handlers_def commands_def)


text \<open>C8.
  A registered command is found again under its request id; cancelling it takes it out of
  the table, tells the command to cancel and then gives up the table's reference, once.
  Cancelling an id that is not registered is reported and changes nothing.
\<close>

theorem register_cancel:
  assumes "hal_inv info" "c \<noteq> 0" "\<forall>e \<in> set (commands info). cmd_id e \<noteq> rid"
  shows "(case wifi_register_cmd rid c info of
            (WIFI_SUCCESS, info') \<Rightarrow>
              hal_inv info' \<and> wifi_get_cmd rid info' = c \<and>
              (\<exists>info''. wifi_cancel_cmd rid info' = (WIFI_SUCCESS, info'', [Cancel c, ReleaseRef c]) \<and>
                 hal_inv info'' \<and> commands info'' = commands info \<and> handlers info'' = handlers info')
          | (err, info') \<Rightarrow>
              num_cmd info = alloc_cmd info \<and> err = WIFI_ERROR_OUT_OF_MEMORY \<and> info' = info) \<and>
         wifi_cancel_cmd rid info = (WIFI_ERROR_INVALID_ARGS, info, [])"
proof -
  let ?e = "\<lparr>cmd_id = rid, cmd_ptr = c\<rparr>" and ?P = "\<lambda>e. cmd_id e = rid"
  have "find_slot ?P (cmd info) (num_cmd info) = None"
    using assms(3) by (simp add: find_slot_def find_index_None_iff commands_def)
  then have "wifi_cancel_cmd rid info = (WIFI_ERROR_INVALID_ARGS, info, [])"
    by (simp add: wifi_cancel_cmd_def wifi_unregister_cmd_def)
  moreover have "case wifi_register_cmd rid c info of
            (WIFI_SUCCESS, info') \<Rightarrow>
              hal_inv info' \<and> wifi_get_cmd rid info' = c \<and>
              (\<exists>info''. wifi_cancel_cmd rid info' = (WIFI_SUCCESS, info'', [Cancel c, ReleaseRef c]) \<and>
                 hal_inv info'' \<and> commands info'' = commands info \<and> handlers info'' = handlers info')
          | (err, info') \<Rightarrow>
              num_cmd info = alloc_cmd info \<and> err = WIFI_ERROR_OUT_OF_MEMORY \<and> info' = info"
  proof (cases "num_cmd info < alloc_cmd info")
    case True
    let ?i = "snd (put_cmd ?e info)"
    have ok: "fst (put_cmd ?e info)" using True by (simp add: put_cmd_def)
    have inv: "hal_inv ?i" and ents: "commands ?i = commands info @ [?e]"
      using cmt.put_inv [OF assms(1)] cmt.put_entries [OF assms(1) ok] by simp_all
    have "find_index ?P (commands ?i) = Some (length (commands info))"
      unfolding ents by (rule find_index_append_new) (use assms(3) in auto)
    then have get: "wifi_get_cmd rid ?i = c"
      by (simp add: wifi_get_cmd_commands [OF inv] ents)
    have "commands (cut_cmd ?P ?i) = commands info"
      by (rule cmt.put_cut) (use assms ok in auto)
    then have "wifi_cancel_cmd rid ?i = (WIFI_SUCCESS, cut_cmd ?P ?i, [Cancel c, ReleaseRef c]) \<and>
        hal_inv (cut_cmd ?P ?i) \<and> commands (cut_cmd ?P ?i) = commands info \<and>
        handlers (cut_cmd ?P ?i) = handlers ?i"
      using fst_unregister_cmd [of rid ?i] unregister_cut(3) [of rid ?i] get assms(2) cut_cmd_spec [OF inv]
      by (auto simp: wifi_cancel_cmd_def Let_def split: prod.splits)
    then show ?thesis
      using ok inv get by (auto simp: register_put result_of_def)
  next
    case False
    with assms(1) show ?thesis
      by (simp add: register_put result_of_def put_cmd_def hal_inv_def)
  qed
  ultimately show ?thesis by blast
qed

theorem register_cancel_witness:
  "\<exists>info' info''. wifi_register_cmd 5 9 ex_hal = (WIFI_SUCCESS, info') \<and> wifi_get_cmd 5 info' = 9 \<and>
     wifi_cancel_cmd 5 info' = (WIFI_SUCCESS, info'', [Cancel 9, ReleaseRef 9]) \<and> commands info'' = []"
  using register_cancel [of ex_hal 9 5] ex_hal_inv
  by (auto simp: wifi_register_cmd_def ex_hal_def)

end
