(* ===== verification/WifiHal.thy ===== *)
theory WifiHal
  imports WifiCommon
begin

text \<open>
  The life cycle of the Wi-Fi HAL, \<^verbatim>\<open>hal/wifi_hal/wifi_hal.cpp\<close> with the requests of
  \<^verbatim>\<open>cpp_bindings.cpp\<close>: initialisation and the resources it acquires and releases on each
  path, the discovery of the interfaces, the event loop, the dispatch of a message to the
  handler tables of \<open>WifiCommon\<close>, the clean-up that cancels the outstanding commands, the
  exchange of a request with the kernel, and the concurrency matrix. The netlink library,
  the system calls and the virtual methods of the commands are parameters.
\<close>

section \<open>Resources\<close>

datatype resource =
  HalInfo | CleanupSocks | CmdSock | EventSock | CbTable | CmdTable | CbLock | Interfaces

datatype res_op = Acquire resource | Release resource

text \<open>What a run holds after a list of operations on resources.\<close>

definition held :: "res_op list \<Rightarrow> resource set" where
  "held ops = fold (\<lambda>op s. case op of Acquire r \<Rightarrow> insert r s | Release r \<Rightarrow> s - {r}) ops {}"

text \<open>The outcomes of the calls \<^verbatim>\<open>wifi_initialize\<close> makes, in their order.\<close>

record init_env =
  malloc_info :: bool
  socketpair_ok :: bool
  nl_alloc :: "nat \<Rightarrow> bool"
  nl_connect_ok :: "nat \<Rightarrow> bool"
  nl_get_cb :: bool
  malloc_cb :: bool
  malloc_cmd :: bool
  family_id :: int
  multicast_res :: int
  multicast_groups :: "(string option \<times> int option) list option"
  membership :: "int \<Rightarrow> int"

definition WIFI_HAL_CMD_SOCK_PORT :: nat where
  "WIFI_HAL_CMD_SOCK_PORT = 644"

definition WIFI_HAL_EVENT_SOCK_PORT :: nat where
  "WIFI_HAL_EVENT_SOCK_PORT = 645"

text \<open>The port number of a socket: 22 bits of the process id below the port.\<close>

definition wifi_socket_set_local_port :: "nat \<Rightarrow> nat \<Rightarrow> nat" where
  "wifi_socket_set_local_port pid port = (pid mod 2 ^ 22 + port * 2 ^ 22) mod 2 ^ 32"

definition wifi_create_nl_socket :: "init_env \<Rightarrow> nat \<Rightarrow> resource \<Rightarrow> bool \<times> res_op list" where
  "wifi_create_nl_socket env port sock =
     (if \<not> nl_alloc env port then (False, [])
      else if \<not> nl_connect_ok env port then (False, [Acquire sock, Release sock])
      else (True, [Acquire sock]))"

text \<open>
  The reply to the query of the multicast groups: each group with its name (with the
  terminating zero, as the length of the attribute counts it) and its id, either of which may be
  missing. The comparison stops behind a zero that both have, so only equal names match.
\<close>

fun strncmp_eq :: "string \<Rightarrow> string \<Rightarrow> nat \<Rightarrow> bool" where
  "strncmp_eq s t 0 = True"
| "strncmp_eq (x # s) (y # t) (Suc n) = (x = y \<and> (x = CHR 0x00 \<or> strncmp_eq s t n))"
| "strncmp_eq [] _ (Suc n) = True"
| "strncmp_eq _ [] (Suc n) = False"

fun find_group :: "string \<Rightarrow> (string option \<times> int option) list \<Rightarrow> int \<Rightarrow> int" where
  "find_group grp [] mId = mId"
| "find_group grp ((Some nm, Some gid) # gs) mId =
     (if \<not> strncmp_eq nm (grp @ [CHR 0x00]) (length nm) then find_group grp gs mId else gid)"
| "find_group grp (_ # gs) mId = find_group grp gs mId"

definition wifi_get_multicast_id :: "int \<Rightarrow> (string option \<times> int option) list option \<Rightarrow> string \<Rightarrow> int" where
  "wifi_get_multicast_id res groups grp =
     (if res < 0 then res else case groups of None \<Rightarrow> -1 | Some gs \<Rightarrow> find_group grp gs (-1))"

definition wifi_add_membership :: "init_env \<Rightarrow> string \<Rightarrow> int" where
  "wifi_add_membership env grp =
     (let i = wifi_get_multicast_id (multicast_res env) (multicast_groups env) grp
      in if i < 0 then i else membership env i)"

section \<open>Interfaces\<close>

definition is_wifi_interface :: "string \<Rightarrow> bool" where
  "is_wifi_interface name \<longleftrightarrow> \<not> (take 4 name \<noteq> ''wlan'' \<and> take 3 name \<noteq> ''p2p'')"

record interface_info =
  if_name :: string
  if_id :: int

text \<open>\<^verbatim>\<open>strncpy\<close> into the nine bytes of the field, the last one overwritten by the terminator.\<close>

definition get_interface :: "(string \<Rightarrow> int) \<Rightarrow> string \<Rightarrow> interface_info" where
  "get_interface if_nametoindex name = \<lparr>if_name = take 8 name, if_id = if_nametoindex name\<rparr>"

definition wifi_entry :: "string \<Rightarrow> bool" where
  "wifi_entry name \<longleftrightarrow> \<not> (name \<noteq> [] \<and> hd name = CHR ''.'') \<and> is_wifi_interface name"

text \<open>
  The array has a slot for each interface of the first reading of the directory and is
  filled from a second reading; \<open>None\<close> is a store outside of it.
\<close>

fun fill_interfaces ::
  "(string \<Rightarrow> int) \<Rightarrow> nat \<Rightarrow> string list \<Rightarrow> interface_info option list \<Rightarrow> interface_info option list option" where
  "fill_interfaces nti i [] arr = Some arr"
| "fill_interfaces nti i (name # names) arr =
     (if wifi_entry name then do {
        arr' \<leftarrow> wr arr (int i) (Some (get_interface nti name));
        fill_interfaces nti (i + 1) names arr'
      } else fill_interfaces nti i names arr)"

definition wifi_init_interfaces ::
  "(string \<Rightarrow> int) \<Rightarrow> string list option \<Rightarrow> string list option \<Rightarrow> bool \<Rightarrow>
   (wifi_error \<times> interface_info option list) option" where
  "wifi_init_interfaces nti dir1 dir2 malloc_ok =
     (case dir1 of
        None \<Rightarrow> Some (WIFI_ERROR_UNKNOWN, [])
      | Some names1 \<Rightarrow>
          let n = length (filter wifi_entry names1)
          in if n = 0 then Some (WIFI_ERROR_NOT_AVAILABLE, [])
             else (case dir2 of
                     None \<Rightarrow> Some (WIFI_ERROR_UNKNOWN, [])
                   | Some names2 \<Rightarrow>
                       if \<not> malloc_ok then Some (WIFI_ERROR_OUT_OF_MEMORY, [])
                       else do {
                         arr \<leftarrow> fill_interfaces nti 0 names2 (replicate n None);
                         Some (WIFI_SUCCESS, arr)
                       }))"

definition wifi_get_iface_name :: "interface_info \<Rightarrow> nat \<Rightarrow> string" where
  "wifi_get_iface_name info n = take n (if_name info)"

section \<open>Initialisation\<close>

definition wifi_initialize :: "init_env \<Rightarrow> wifi_error \<Rightarrow> wifi_error \<times> res_op list" where
  "wifi_initialize env ifaces =
     (if \<not> malloc_info env then (WIFI_ERROR_OUT_OF_MEMORY, [])
      else let t0 = [Acquire HalInfo]
      in if \<not> socketpair_ok env then (WIFI_ERROR_UNKNOWN, t0 @ [Release HalInfo])
      else let t1 = t0 @ [Acquire CleanupSocks];
               (cmd_ok, c) = wifi_create_nl_socket env WIFI_HAL_CMD_SOCK_PORT CmdSock;
               t2 = t1 @ c
      in if \<not> cmd_ok then (WIFI_ERROR_UNKNOWN, t2 @ [Release HalInfo])
      else let (event_ok, e) = wifi_create_nl_socket env WIFI_HAL_EVENT_SOCK_PORT EventSock;
               t3 = t2 @ e
      in if \<not> event_ok then (WIFI_ERROR_UNKNOWN, t3 @ [Release CmdSock, Release HalInfo])
      else if \<not> nl_get_cb env then
        (WIFI_ERROR_UNKNOWN, t3 @ [Release CmdSock, Release EventSock, Release HalInfo])
      else if \<not> malloc_cb env then
        (WIFI_ERROR_OUT_OF_MEMORY, t3 @ [Release CmdSock, Release EventSock, Release HalInfo])
      else let t4 = t3 @ [Acquire CbTable]
      in if \<not> malloc_cmd env then
        (WIFI_ERROR_OUT_OF_MEMORY,
         t4 @ [Release CmdSock, Release EventSock, Release CbTable, Release HalInfo])
      else let t5 = t4 @ [Acquire CmdTable];
               undo = [Release CmdSock, Release EventSock, Release CbTable, Release CmdTable]
      in if family_id env < 0 then (WIFI_ERROR_UNKNOWN, t5 @ undo @ [Release HalInfo])
      else let t6 = t5 @ [Acquire CbLock]
      in if ifaces \<noteq> WIFI_SUCCESS then
        (WIFI_ERROR_NOT_AVAILABLE, t6 @ undo @ [Release CbLock, Release HalInfo])
      else let t7 = t6 @ [Acquire Interfaces]
      in if wifi_add_membership env ''scan'' < 0 \<or> wifi_add_membership env ''mlme'' < 0 \<or>
            wifi_add_membership env ''regulatory'' < 0 \<or> wifi_add_membership env ''vendor'' < 0
      then (WIFI_ERROR_NOT_AVAILABLE, t7 @ undo @ [Release CbLock, Release HalInfo])
      else (WIFI_SUCCESS, t7))"

text \<open>What the clean-up releases when the command socket is still there.\<close>

definition internal_cleaned_up_handler :: "bool \<Rightarrow> res_op list" where
  "internal_cleaned_up_handler has_sock =
     (if has_sock then [Release CleanupSocks, Release CmdSock, Release EventSock] else []) @
     [Release CbLock, Release HalInfo]"

section \<open>The event loop\<close>

text \<open>What one wait on the two sockets brings, and the state of the clean-up flag after it.\<close>

record poll_outcome =
  p_result :: int
  p_err :: bool
  p_hup :: bool
  p_in :: bool
  p_cleanup_in :: bool
  p_text :: string
  p_clean_up :: bool

datatype loop_act = DrainError | ReceiveEvents | ReadCleanup string | WriteDone

text \<open>The actions of one pass and whether it breaks out of the loop.\<close>

definition event_loop_pass :: "poll_outcome \<Rightarrow> loop_act list \<times> bool" where
  "event_loop_pass p =
     (if p_result p < 0 then ([], False)
      else if p_err p then ([DrainError], False)
      else if p_hup p then ([], True)
      else if p_in p then ([ReceiveEvents], False)
      else if p_cleanup_in p then
        if take 4 (p_text p) = ''Exit'' then ([ReadCleanup (p_text p), WriteDone], True)
        else ([ReadCleanup (p_text p)], False)
      else ([], False))"

text \<open>The loop over the successive waits; the flag tells whether it has ended.\<close>

fun event_loop :: "poll_outcome list \<Rightarrow> loop_act list \<times> bool" where
  "event_loop [] = ([], False)"
| "event_loop (p # ps) =
     (let (acts, brk) = event_loop_pass p
      in if brk \<or> p_clean_up p then (acts, True)
         else let (rest, fin) = event_loop ps in (acts @ rest, fin))"

text \<open>The entry is refused when the loop was entered before.\<close>

definition wifi_event_loop :: "bool \<Rightarrow> poll_outcome list \<Rightarrow> bool \<times> loop_act list \<times> bool" where
  "wifi_event_loop in_event_loop ps =
     (if in_event_loop then (True, [], True)
      else let (acts, fin) = event_loop ps in (True, acts, fin))"

section \<open>Dispatch\<close>

record wifi_event =
  ev_parse :: int
  ev_cmd :: int
  ev_vendor_id :: int
  ev_subcmd :: int

datatype dispatch_act = AddRefTo command | CallHandler func command | ReleaseRefOf command

definition handles_event :: "int \<Rightarrow> wifi_event \<Rightarrow> cb_info \<Rightarrow> bool" where
  "handles_event VENDOR ev e \<longleftrightarrow>
     ev_cmd ev = nl_cmd e \<and>
     \<not> (ev_cmd ev = VENDOR \<and> (ev_vendor_id ev \<noteq> vendor_id e \<or> ev_subcmd ev \<noteq> vendor_subcmd e))"

text \<open>The result is whether the message was skipped, and the calls made for it.\<close>

definition internal_valid_message_handler ::
  "int \<Rightarrow> wifi_event \<Rightarrow> hal_info \<Rightarrow> bool \<times> dispatch_act list" where
  "internal_valid_message_handler VENDOR ev info =
     (if ev_parse ev < 0 then (True, [])
      else case find_slot (handles_event VENDOR ev) (event_cb info) (num_event_cb info) of
             None \<Rightarrow> (False, [])
           | Some i \<Rightarrow>
               let e = event_cb info ! i
               in (False, (if cb_arg e \<noteq> 0 then [AddRefTo (cb_arg e)] else []) @
                          (if cb_func e \<noteq> 0 then [CallHandler (cb_func e) (cb_arg e)] else []) @
                          (if cb_arg e \<noteq> 0 then [ReleaseRefOf (cb_arg e)] else [])))"

section \<open>Clean-up\<close>

text \<open>
  The loop that cancels the outstanding commands. \<open>cancel\<close> is what the virtual method of a
  command does to the tables. The loop does not advance on an empty slot: it then never
  ends, the value \<open>None\<close>.
\<close>

partial_function (option) cancel_all ::
  "(command \<Rightarrow> hal_info \<Rightarrow> hal_info) \<Rightarrow> nat \<Rightarrow> hal_info \<Rightarrow> (cmd_call list \<times> hal_info) option" where
  [code]: "cancel_all cancel bad_commands info =
     (if num_cmd info > bad_commands then
        let c = cmd_ptr (cmd info ! bad_commands)
        in if c \<noteq> 0 then
             let info' = cancel c info;
                 bad = (if num_cmd info = num_cmd info' then bad_commands + 1 else bad_commands)
             in do {
               (calls, info'') \<leftarrow> cancel_all cancel bad info';
               Some (Cancel c # ReleaseRef c # calls, info'')
             }
           else do {
             (calls, info'') \<leftarrow> cancel_all cancel bad_commands info;
             Some (calls, info'')
           }
      else Some ([], info))"

text \<open>
  Before that the event loop is asked to end over the clean-up socket; the answer is awaited
  when the request could be written, and not looked at further.
\<close>

datatype cleanup_act = WriteExit | AwaitAnswer

definition wifi_cleanup ::
  "(command \<Rightarrow> hal_info \<Rightarrow> hal_info) \<Rightarrow> bool \<Rightarrow> bool \<Rightarrow> hal_info \<Rightarrow>
   (cleanup_act list \<times> cmd_call list \<times> hal_info \<times> res_op list) option" where
  "wifi_cleanup cancel write_ok has_sock info =
     (let acts = (if write_ok then [WriteExit, AwaitAnswer] else [WriteExit])
      in do {
        (calls, info') \<leftarrow> cancel_all cancel 0 info;
        Some (acts, calls, info', internal_cleaned_up_handler has_sock)
      })"

section \<open>Requests\<close>

text \<open>What the kernel answers while a request waits for its reply.\<close>

datatype reply = Ack | Finish | Error int | Valid | RecvFails

text \<open>
  The flag the handlers set: a positive one means that the wait goes on. One receive may
  run several handlers.
\<close>

definition reply_err :: "reply \<Rightarrow> int \<Rightarrow> int" where
  "reply_err r err = (case r of Ack \<Rightarrow> 0 | Finish \<Rightarrow> 0 | Error e \<Rightarrow> e | Valid \<Rightarrow> err | RecvFails \<Rightarrow> err)"

fun wait_reply :: "int \<Rightarrow> reply list list \<Rightarrow> int option" where
  "wait_reply err [] = (if err > 0 then None else Some err)"
| "wait_reply err (rs # rss) = (if err > 0 then wait_reply (fold reply_err rs err) rss else Some err)"

definition requestResponse :: "bool \<Rightarrow> int \<Rightarrow> reply list list \<Rightarrow> int option" where
  "requestResponse cb_ok send_ret replies =
     (if \<not> cb_ok then Some 0
      else if send_ret < 0 then Some send_ret
      else wait_reply 1 replies)"

text \<open>
  A request that waits for an event registers its handler first and takes it out on every
  path that got that far; \<open>create\<close>, \<open>send\<close> and \<open>wait\<close> are the results of the steps.
\<close>

definition requestEvent ::
  "int \<Rightarrow> int \<Rightarrow> func \<Rightarrow> command \<Rightarrow> int \<Rightarrow> int \<Rightarrow> int \<Rightarrow> hal_info \<Rightarrow> (wifi_error + int) \<times> hal_info" where
  "requestEvent VENDOR c handler this create send wait info =
     (case wifi_register_handler c handler this info of
        (WIFI_SUCCESS, info1) \<Rightarrow>
          let res = (if create < 0 then create else if send < 0 then send else wait)
          in (Inr res, wifi_unregister_handler VENDOR c info1)
      | (err, info1) \<Rightarrow> (Inl err, info1))"

definition requestVendorEvent ::
  "int \<Rightarrow> int \<Rightarrow> int \<Rightarrow> func \<Rightarrow> command \<Rightarrow> int \<Rightarrow> int \<Rightarrow> int \<Rightarrow> hal_info \<Rightarrow> (wifi_error + int) \<times> hal_info" where
  "requestVendorEvent VENDOR vid sub handler this create send wait info =
     (case wifi_register_vendor_handler VENDOR vid sub handler this info of
        (WIFI_SUCCESS, info1) \<Rightarrow>
          let res = (if create < 0 then create else if send < 0 then send else wait)
          in (Inr res, wifi_unregister_vendor_handler VENDOR vid sub info1)
      | (err, info1) \<Rightarrow> (Inl err, info1))"

text \<open>The reference count of a command; the flag tells whether the object is deleted.\<close>

definition addRef :: "int \<Rightarrow> int" where
  "addRef mRefs = mRefs + 1"

definition releaseRef :: "int \<Rightarrow> int \<times> bool" where
  "releaseRef mRefs = (let refs = mRefs - 1 in (refs, refs = 0))"

section \<open>The concurrency matrix\<close>

text \<open>
  The attributes of the reply, by their type; the numbers are those of \<^verbatim>\<open>WIFI_ATTRIBUTE\<close>.
  \<open>None\<close> is a store outside the caller's array.
\<close>

datatype wifi_attr = NumFeatureSet int | FeatureSet int | OtherAttr

record matrix =
  feature_matrix :: "int list"
  fm_size :: int

definition clamp_sets :: "int \<Rightarrow> int \<Rightarrow> int" where
  "clamp_sets set_size_max n = (if set_size_max \<noteq> 0 \<and> n > set_size_max then set_size_max else n)"

fun read_matrix :: "int \<Rightarrow> int \<Rightarrow> nat \<Rightarrow> wifi_attr list \<Rightarrow> matrix \<Rightarrow> matrix option" where
  "read_matrix set_size_max num i [] m = Some m"
| "read_matrix set_size_max num i (at # ats) m =
     (case at of
        NumFeatureSet n \<Rightarrow>
          let num' = clamp_sets set_size_max n
          in read_matrix set_size_max num' i ats (m\<lparr>fm_size := num'\<rparr>)
      | FeatureSet v \<Rightarrow>
          if int i < num then do {
            arr \<leftarrow> wr (feature_matrix m) (int i) v;
            read_matrix set_size_max num (i + 1) ats (m\<lparr>feature_matrix := arr\<rparr>)
          } else read_matrix set_size_max num i ats m
      | OtherAttr \<Rightarrow> read_matrix set_size_max num i ats m)"

text \<open>
  The response handler of \<^verbatim>\<open>GetFeatureSetCommand\<close>: a reply of another command, without data
  (\<open>[]\<close>), or without a place for the result is skipped (\<open>False\<close>). The feature set is four bytes.
\<close>

datatype feature_type = FeatureSetType | NumFeatureSetType | OtherType

definition handle_feature_response ::
  "int \<Rightarrow> int \<Rightarrow> feature_type \<Rightarrow> int list \<Rightarrow> int \<Rightarrow> wifi_attr list \<Rightarrow> int list option \<Rightarrow> matrix option \<Rightarrow>
   (bool \<times> int list option \<times> matrix option) option" where
  "handle_feature_response VENDOR c ft data set_size_max ats fset m =
     (if c \<noteq> VENDOR \<or> data = [] then Some (False, fset, m)
      else case ft of
        FeatureSetType \<Rightarrow>
          (case fset of
             None \<Rightarrow> Some (False, None, m)
           | Some f \<Rightarrow> let n = min (length data) 4 in Some (True, Some (take n data @ drop n f), m))
      | NumFeatureSetType \<Rightarrow>
          (case m of
             None \<Rightarrow> Some (False, fset, None)
           | Some m' \<Rightarrow> do {
               r \<leftarrow> read_matrix set_size_max 0 0 ats m';
               Some (True, fset, Some r)
             })
      | OtherType \<Rightarrow> Some (True, fset, m))"

section \<open>Signal strength monitoring\<close>

text \<open>
  Starting: \<open>create_ret\<close> and \<open>response_ret\<close> are the results of building the request and of
  the exchange with the kernel. The result of registering the handler is not used.
\<close>

definition rssi_start :: "int \<Rightarrow> int \<Rightarrow> int \<Rightarrow> int \<Rightarrow> int \<Rightarrow> func \<Rightarrow> command \<Rightarrow> hal_info \<Rightarrow> int \<times> hal_info" where
  "rssi_start VENDOR oui event create_ret response_ret handler this info =
     (if create_ret < 0 then (create_ret, info)
      else if response_ret < 0 then (response_ret, info)
      else (response_ret, snd (wifi_register_vendor_handler VENDOR oui event handler this info)))"

definition rssi_cancel :: "int \<Rightarrow> int \<Rightarrow> int \<Rightarrow> hal_info \<Rightarrow> int \<times> hal_info" where
  "rssi_cancel VENDOR oui event info = (0, wifi_unregister_vendor_handler VENDOR oui event info)"

text \<open>The command is registered under its id before it starts and taken out when it fails to.\<close>

definition wifi_start_rssi_monitoring ::
  "int \<Rightarrow> int \<Rightarrow> int \<Rightarrow> int \<Rightarrow> int \<Rightarrow> func \<Rightarrow> int \<Rightarrow> command \<Rightarrow> hal_info \<Rightarrow>
   (wifi_error + int) \<times> hal_info \<times> cmd_call list" where
  "wifi_start_rssi_monitoring VENDOR oui event create_ret response_ret handler rid this info =
     (if this = 0 then (Inl WIFI_ERROR_OUT_OF_MEMORY, info, [])
      else case wifi_register_cmd rid this info of
             (WIFI_SUCCESS, info1) \<Rightarrow>
               let (res, info2) = rssi_start VENDOR oui event create_ret response_ret handler this info1
               in if res \<noteq> 0 then (Inr res, snd (wifi_unregister_cmd rid info2), [ReleaseRef this])
                  else (Inr res, info2, [])
           | (err, info1) \<Rightarrow> (Inl err, info1, [ReleaseRef this]))"

definition wifi_stop_rssi_monitoring ::
  "int \<Rightarrow> int \<Rightarrow> int \<Rightarrow> int \<Rightarrow> command \<Rightarrow> hal_info \<Rightarrow> wifi_error \<times> hal_info \<times> cmd_call list" where
  "wifi_stop_rssi_monitoring VENDOR oui event rid temp info =
     (if rid = -1 then
        if temp = 0 then (WIFI_ERROR_OUT_OF_MEMORY, info, [])
        else (WIFI_SUCCESS, snd (rssi_cancel VENDOR oui event info), [ReleaseRef temp])
      else wifi_cancel_cmd rid info)"

text \<open>The event: its data, when there is any of the right type and version, goes to the handler.\<close>

record rssi_evt =
  evt_version :: int
  evt_cur_rssi :: int
  evt_bssid :: "int list"

definition rssi_handle_event ::
  "int \<Rightarrow> (int \<times> rssi_evt) option \<Rightarrow> bool \<Rightarrow> int \<Rightarrow> (int \<times> int list \<times> int) list" where
  "rssi_handle_event event vendor_data has_handler rid =
     (case vendor_data of
        None \<Rightarrow> []
      | Some (nla_type, d) \<Rightarrow>
          if nla_type \<noteq> event then []
          else if evt_version d \<noteq> 1 then []
          else if has_handler then [(rid, evt_bssid d, evt_cur_rssi d)] else [])"

section \<open>The dump of a message\<close>

text \<open>
  One line of the dump: up to sixteen bytes in hexadecimal, padding, a mark over the separator
  in the middle, and the bytes as characters. The terminating zero of \<^verbatim>\<open>vsprintf\<close> is not
  part of the text.
\<close>

definition hex_digit :: "nat \<Rightarrow> char" where
  "hex_digit d = (if d < 10 then char_of (48 + d) else char_of (87 + d))"

definition hex2 :: "nat \<Rightarrow> string" where
  "hex2 b = [hex_digit (b div 16), hex_digit (b mod 16)]"

definition isprint :: "nat \<Rightarrow> bool" where
  "isprint b \<longleftrightarrow> 32 \<le> b \<and> b < 127"

definition log_line :: "nat list \<Rightarrow> string" where
  "log_line chunk =
     (let hex = hex2 (hd chunk) @ concat (map (\<lambda>b. CHR '' '' # hex2 b) (tl chunk));
          line = hex @ concat (replicate (16 - length chunk) ''   '');
          line' = line[23 := CHR ''-'']
      in line' @ ''  '' @ map (\<lambda>b. if isprint b then char_of b else CHR ''-'') chunk)"

fun log_lines :: "nat \<Rightarrow> nat list \<Rightarrow> string list" where
  "log_lines 0 data = []"
| "log_lines (Suc n) data = (if data = [] then [] else log_line (take 16 data) # log_lines n (drop 16 data))"

definition log_event :: "nat list \<Rightarrow> string list" where
  "log_event data = log_lines (length data) data"

section \<open>Operations without a driver behind them\<close>

text \<open>The answers of the stand-ins that fill in a result: \<open>None\<close> is a null pointer.\<close>

definition wifi_get_wake_reason_stats_dummy :: "'a option \<Rightarrow> 'a \<Rightarrow> wifi_error \<times> 'a option" where
  "wifi_get_wake_reason_stats_dummy cnt zero =
     (case cnt of None \<Rightarrow> (WIFI_ERROR_INVALID_ARGS, None) | Some _ \<Rightarrow> (WIFI_SUCCESS, Some zero))"

definition wifi_get_packet_filter_capabilities_dummy ::
  "int option \<Rightarrow> int option \<Rightarrow> wifi_error \<times> (int \<times> int) option" where
  "wifi_get_packet_filter_capabilities_dummy version max_len =
     (if version \<noteq> None \<and> max_len \<noteq> None then (WIFI_SUCCESS, Some (0, 0))
      else (WIFI_ERROR_INVALID_ARGS, None))"

definition wifi_get_tx_pkt_fates_dummy :: "int option \<Rightarrow> wifi_error \<times> int option" where
  "wifi_get_tx_pkt_fates_dummy n =
     (case n of None \<Rightarrow> (WIFI_ERROR_INVALID_ARGS, None) | Some _ \<Rightarrow> (WIFI_SUCCESS, Some 0))"

definition wifi_get_rx_pkt_fates_dummy :: "int option \<Rightarrow> wifi_error \<times> int option" where
  "wifi_get_rx_pkt_fates_dummy n =
     (case n of None \<Rightarrow> (WIFI_ERROR_INVALID_ARGS, None) | Some _ \<Rightarrow> (WIFI_SUCCESS, Some 0))"

text \<open>\<^verbatim>\<open>strncpy\<close> of a text into a buffer of \<open>n\<close> bytes, filled up with zeros.\<close>

definition strncpy :: "string \<Rightarrow> nat \<Rightarrow> string" where
  "strncpy src n = take n (src @ replicate n (CHR 0x00))"

definition wifi_get_firmware_version_dummy :: "bool \<Rightarrow> int \<Rightarrow> wifi_error \<times> string" where
  "wifi_get_firmware_version_dummy buffer buffer_size =
     (if buffer \<and> buffer_size > 0 then (WIFI_SUCCESS, strncpy ''0'' (nat buffer_size))
      else (WIFI_ERROR_INVALID_ARGS, []))"

definition wifi_get_driver_version_dummy :: "bool \<Rightarrow> int \<Rightarrow> wifi_error \<times> string" where
  "wifi_get_driver_version_dummy buffer buffer_size =
     (if buffer \<and> buffer_size > 0 then (WIFI_SUCCESS, strncpy ''0'' (nat buffer_size))
      else (WIFI_ERROR_INVALID_ARGS, []))"

definition wifi_get_logger_supported_feature_set_dummy :: "int option \<Rightarrow> wifi_error \<times> int option" where
  "wifi_get_logger_supported_feature_set_dummy support =
     (case support of None \<Rightarrow> (WIFI_ERROR_INVALID_ARGS, None) | Some _ \<Rightarrow> (WIFI_SUCCESS, Some 0))"

text \<open>The name field is copied with the size of one of its elements, a byte.\<close>

definition wifi_get_ring_buffers_status_dummy :: "bool \<Rightarrow> bool \<Rightarrow> wifi_error \<times> (int \<times> string) option" where
  "wifi_get_ring_buffers_status_dummy num_rings status =
     (if num_rings \<and> status then (WIFI_SUCCESS, Some (1, strncpy ''dummy'' 1))
      else (WIFI_ERROR_INVALID_ARGS, None))"

section \<open>Properties of the initialisation\<close>

text \<open>C14.
  A successful initialisation holds every resource. A failed one has released everything it
  had acquired, except the pair of clean-up sockets and, when joining a multicast group
  failed, the interfaces.
\<close>

theorem wifi_initialize_resources:
  assumes "wifi_initialize env ifaces = (err, ops)"
  shows "(err = WIFI_SUCCESS \<longrightarrow> held ops = UNIV) \<and>
         (err \<noteq> WIFI_SUCCESS \<longrightarrow> held ops \<subseteq> {CleanupSocks, Interfaces})"
proof -
  have "UNIV = {HalInfo, CleanupSocks, CmdSock, EventSock, CbTable, CmdTable, CbLock, Interfaces}"
    using resource.exhaust by auto
  then show ?thesis
    using assms
    by (auto simp: wifi_initialize_def wifi_create_nl_socket_def held_def Let_def split: if_splits)
qed

definition ex_init :: init_env where
  "ex_init = \<lparr>malloc_info = True, socketpair_ok = True, nl_alloc = (\<lambda>_. True),
     nl_connect_ok = (\<lambda>p. p \<noteq> 645), nl_get_cb = True, malloc_cb = True, malloc_cmd = True,
     family_id = 20, multicast_res = 0, multicast_groups = Some [], membership = (\<lambda>_. 0)\<rparr>"

theorem wifi_initialize_resources_witness:
  "\<exists>ops. wifi_initialize ex_init WIFI_SUCCESS = (WIFI_ERROR_UNKNOWN, ops) \<and>
     held ops \<subseteq> {CleanupSocks, Interfaces}"
proof -
  obtain ops where "wifi_initialize ex_init WIFI_SUCCESS = (WIFI_ERROR_UNKNOWN, ops)"
    by (simp add: wifi_initialize_def wifi_create_nl_socket_def ex_init_def Let_def
        WIFI_HAL_CMD_SOCK_PORT_def WIFI_HAL_EVENT_SOCK_PORT_def)
  with wifi_initialize_resources show ?thesis by blast
qed

text \<open>The sockets made for the clean-up stay open when a later step fails.\<close>

theorem initialize_leaks_cleanup_socks:
  assumes "malloc_info env" "socketpair_ok env" "\<not> nl_alloc env WIFI_HAL_CMD_SOCK_PORT"
  shows "\<exists>ops. wifi_initialize env ifaces = (WIFI_ERROR_UNKNOWN, ops) \<and> CleanupSocks \<in> held ops"
  using assms by (simp add: wifi_initialize_def wifi_create_nl_socket_def held_def Let_def)

text \<open>The clean-up does not give back the two tables and the interfaces.\<close>

theorem cleanup_leaks_tables:
  assumes "wifi_initialize env ifaces = (WIFI_SUCCESS, ops)"
  shows "held (ops @ internal_cleaned_up_handler True) = {CbTable, CmdTable, Interfaces}"
  using assms
  by (auto simp: wifi_initialize_def wifi_create_nl_socket_def held_def Let_def
      internal_cleaned_up_handler_def split: if_splits)

section \<open>Properties of the interfaces\<close>

lemma fill_interfaces_eq:
  "i + length (filter wifi_entry names) \<le> length arr \<Longrightarrow>
   fill_interfaces nti i names arr =
     Some (take i arr @ map (\<lambda>n. Some (get_interface nti n)) (filter wifi_entry names) @
           drop (i + length (filter wifi_entry names)) arr)"
proof (induction nti i names arr rule: fill_interfaces.induct)
  case (2 nti i name names arr)
  show ?case
  proof (cases "wifi_entry name")
    case False
    with 2 show ?thesis by simp
  next
    case True
    then have "i < length arr" using 2(3) by simp
    then have w: "wr arr (int i) (Some (get_interface nti name)) = Some (arr[i := Some (get_interface nti name)])"
      by (simp add: wr_def)
    have "fill_interfaces nti (i + 1) names (arr[i := Some (get_interface nti name)]) =
        Some (take (i + 1) (arr[i := Some (get_interface nti name)]) @
          map (\<lambda>n. Some (get_interface nti n)) (filter wifi_entry names) @
          drop (i + 1 + length (filter wifi_entry names)) (arr[i := Some (get_interface nti name)]))"
      by (rule 2(1) [OF True w]) (use 2(3) True in simp)
    with True w \<open>i < length arr\<close> show ?thesis
      by (simp add: take_Suc_conv_app_nth)
  qed
qed simp

text \<open>C16.
  When the directory of the network devices reads the same twice, the array of interfaces
  is filled exactly: one entry for each \<^verbatim>\<open>wlan\<close> or \<^verbatim>\<open>p2p\<close> device in the order read, with its index
  and at most eight characters of its name, and no store leaves the array.
\<close>

theorem init_interfaces_exact:
  assumes "\<exists>name \<in> set names. wifi_entry name"
  shows "wifi_init_interfaces nti (Some names) (Some names) True =
           Some (WIFI_SUCCESS, map (\<lambda>n. Some (get_interface nti n)) (filter wifi_entry names)) \<and>
         (\<forall>name. length (if_name (get_interface nti name)) \<le> 8 \<and>
                 (length name \<le> 8 \<longrightarrow> wifi_get_iface_name (get_interface nti name) 9 = name))"
proof -
  have "length (filter wifi_entry names) \<noteq> 0"
    using assms by (simp add: filter_empty_conv)
  then show ?thesis
    using fill_interfaces_eq [of 0 names "replicate (length (filter wifi_entry names)) None" nti]
    by (simp add: wifi_init_interfaces_def Let_def get_interface_def wifi_get_iface_name_def)
qed

theorem init_interfaces_exact_witness:
  "wifi_init_interfaces (\<lambda>_. 3) (Some [''.'', ''lo'', ''wlan0'']) (Some [''.'', ''lo'', ''wlan0'']) True =
     Some (WIFI_SUCCESS, [Some \<lparr>if_name = ''wlan0'', if_id = 3\<rparr>])"
  using init_interfaces_exact [of "[''.'', ''lo'', ''wlan0'']" "\<lambda>_. 3"]
  by (simp add: wifi_entry_def is_wifi_interface_def get_interface_def)

text \<open>An interface that appears between the two readings is stored behind the array.\<close>

theorem interface_added_overflows:
  "wifi_init_interfaces nti (Some [''wlan0'']) (Some [''wlan0'', ''p2p0'']) True = None"
  by (simp add: wifi_init_interfaces_def wifi_entry_def is_wifi_interface_def wr_def)

section \<open>Properties of the event loop\<close>

definition quiet :: "poll_outcome \<Rightarrow> bool" where
  "quiet p \<longleftrightarrow> \<not> snd (event_loop_pass p) \<and> \<not> p_clean_up p"

lemma event_loop_quiet:
  "\<forall>p \<in> set ps. quiet p \<Longrightarrow>
   event_loop (ps @ qs) = (concat (map (fst \<circ> event_loop_pass) ps) @ fst (event_loop qs), snd (event_loop qs))"
  by (induction ps) (auto simp: quiet_def Let_def split: prod.splits)

text \<open>C17.
  The event loop keeps receiving until it is told to end: after any number of quiet passes
  a request to exit, read while no event and no error is pending on the event socket, is
  answered and is the last thing it does, whatever would come later. An event pending at the
  same time is received first.
\<close>

theorem event_loop_exit:
  assumes "\<forall>q \<in> set ps. quiet q" "0 \<le> p_result p" "\<not> p_err p" "\<not> p_hup p"
    and "p_cleanup_in p" "take 4 (p_text p) = ''Exit''"
  shows "(\<not> p_in p \<longrightarrow>
            wifi_event_loop False (ps @ p # qs) =
              (True, concat (map (fst \<circ> event_loop_pass) ps) @ [ReadCleanup (p_text p), WriteDone], True)) \<and>
         (p_in p \<longrightarrow> event_loop_pass p = ([ReceiveEvents], False))"
  using assms by (simp add: wifi_event_loop_def event_loop_quiet event_loop_pass_def Let_def)

definition ex_poll :: "bool \<Rightarrow> string \<Rightarrow> poll_outcome" where
  "ex_poll ev txt = \<lparr>p_result = 1, p_err = False, p_hup = False, p_in = ev, p_cleanup_in = \<not> ev,
     p_text = txt, p_clean_up = False\<rparr>"

theorem event_loop_exit_witness:
  "wifi_event_loop False [ex_poll True [], ex_poll False ''Exit''] =
     (True, [ReceiveEvents, ReadCleanup ''Exit'', WriteDone], True)"
  using event_loop_exit [of "[ex_poll True []]" "ex_poll False ''Exit''" "[]"]
  by (simp add: ex_poll_def quiet_def event_loop_pass_def)

section \<open>Properties of the dispatch\<close>

definition calls_for :: "cb_info \<Rightarrow> dispatch_act list" where
  "calls_for e =
     (if cb_arg e \<noteq> 0 then [AddRefTo (cb_arg e)] else []) @
     (if cb_func e \<noteq> 0 then [CallHandler (cb_func e) (cb_arg e)] else []) @
     (if cb_arg e \<noteq> 0 then [ReleaseRefOf (cb_arg e)] else [])"

lemma dispatch_handlers:
  assumes "hal_inv info" "0 \<le> ev_parse ev"
  shows "internal_valid_message_handler VENDOR ev info =
           (False, case find_index (handles_event VENDOR ev) (handlers info) of
                     None \<Rightarrow> [] | Some i \<Rightarrow> calls_for (handlers info ! i))"
proof (cases "find_index (handles_event VENDOR ev) (handlers info)")
  case None
  then show ?thesis
    using assms by (simp add: internal_valid_message_handler_def find_slot_def handlers_def)
next
  case (Some i)
  then have "i < num_event_cb info"
    using find_index_Some [OF Some] length_tables(1) [OF assms(1)] by simp
  with Some show ?thesis
    using assms
    by (simp add: internal_valid_message_handler_def find_slot_def handlers_def calls_for_def Let_def)
qed


definition ex_event :: wifi_event where
  "ex_event = \<lparr>ev_parse = 0, ev_cmd = 103, ev_vendor_id = 6, ev_subcmd = 7\<rparr>"


section \<open>Properties of the clean-up\<close>

definition no_null_cmd :: "hal_info \<Rightarrow> bool" where
  "no_null_cmd info \<longleftrightarrow> hal_inv info \<and> (\<forall>e \<in> set (commands info). cmd_ptr e \<noteq> 0)"

text \<open>What is asked of the commands: cancelling one never adds to the table.\<close>

definition cancel_ok :: "(command \<Rightarrow> hal_info \<Rightarrow> hal_info) \<Rightarrow> bool" where
  "cancel_ok cancel \<longleftrightarrow>
     (\<forall>c info. no_null_cmd info \<longrightarrow> no_null_cmd (cancel c info) \<and> num_cmd (cancel c info) \<le> num_cmd info)"

lemma no_null_cmd_nth: "no_null_cmd info \<Longrightarrow> i < num_cmd info \<Longrightarrow> cmd_ptr (cmd info ! i) \<noteq> 0"
  using nth_mem [of i "commands info"] length_tables(2) [of info]
  by (auto simp: no_null_cmd_def commands_def)

lemma cancel_all_step:
  assumes "bad < num_cmd info" "cmd_ptr (cmd info ! bad) = c" "c \<noteq> 0"
  shows "cancel_all cancel bad info =
     (let info' = cancel c info;
          bad' = (if num_cmd info = num_cmd info' then bad + 1 else bad)
      in do {
        (calls, info'') \<leftarrow> cancel_all cancel bad' info';
        Some (Cancel c # ReleaseRef c # calls, info'')
      })"
  using assms by (subst cancel_all.simps) (simp add: Let_def)

lemma cancel_all_done: "\<not> bad < num_cmd info \<Longrightarrow> cancel_all cancel bad info = Some ([], info)"
  by (subst cancel_all.simps) simp


lemma no_null_cmd_cut: "no_null_cmd info \<Longrightarrow> no_null_cmd (cut_cmd P info)"
  using cut_cmd_spec [of info P] set_remove_first_subset [of P "commands info"]
  by (auto simp: no_null_cmd_def)

lemma num_cmd_cut: "num_cmd (cut_cmd P info) \<le> num_cmd info"
  by (simp add: cut_cmd_def split: option.split)

definition ex_hal2 :: hal_info where
  "ex_hal2 = snd (wifi_register_cmd 5 9 ex_hal)"


text \<open>With a null pointer in the table the loop never ends.\<close>

theorem cleanup_null_hangs:
  assumes "bad < num_cmd info" "cmd_ptr (cmd info ! bad) = 0"
  shows "cancel_all cancel bad info = None"
proof (rule ccontr)
  assume "cancel_all cancel bad info \<noteq> None"
  then obtain y where "cancel_all cancel bad info = Some y" by blast
  then have "\<not> (bad < num_cmd info \<and> cmd_ptr (cmd info ! bad) = 0)"
    by (rule cancel_all.raw_induct [where P = "\<lambda>cancel bad info y. \<not> (bad < num_cmd info \<and> cmd_ptr (cmd info ! bad) = 0)", rotated])
      (fastforce split: if_splits simp: Let_def bind_eq_Some_conv)
  with assms show False by simp
qed

section \<open>Properties of the requests\<close>

text \<open>The value the last deciding reply of one receive gives the request, if there is one.\<close>

definition decides :: "reply \<Rightarrow> int option" where
  "decides r = (case r of Ack \<Rightarrow> Some 0 | Finish \<Rightarrow> Some 0 | Error e \<Rightarrow> Some e
                | Valid \<Rightarrow> None | RecvFails \<Rightarrow> None)"

definition settled :: "reply list \<Rightarrow> int option" where
  "settled rs = (case List.map_filter decides rs of [] \<Rightarrow> None
                 | v # vs \<Rightarrow> if last (v # vs) \<le> 0 then Some (last (v # vs)) else None)"

lemma fold_reply_err:
  "fold reply_err rs err = last (err # List.map_filter decides rs)"
  by (induction rs arbitrary: err) (auto simp: reply_err_def decides_def split: reply.splits)

lemma wait_reply_first:
  "0 < err \<Longrightarrow> wait_reply err rss = (case List.map_filter settled rss of [] \<Rightarrow> None | v # _ \<Rightarrow> Some v)"
proof (induction rss arbitrary: err)
  case (Cons rs rss)
  define e where "e = fold reply_err rs err"
  have e: "e = last (err # List.map_filter decides rs)"
    by (simp add: e_def fold_reply_err)
  show ?case
  proof (cases "settled rs")
    case None
    then have "0 < e" using Cons.prems e by (auto simp: settled_def split: list.splits if_splits)
    with Cons.IH [of e] None Cons.prems show ?thesis by (simp add: e_def [symmetric])
  next
    case (Some v)
    then have "e = v" "v \<le> 0" using e by (auto simp: settled_def split: list.splits if_splits)
    moreover have "wait_reply v rss = Some v" using \<open>v \<le> 0\<close> by (cases rss) auto
    ultimately show ?thesis using Cons.prems Some by (simp add: e_def [symmetric])
  qed
qed simp

text \<open>C20.
  A request that could be sent returns what the first receive with a decision leaves: 0 for
  an acknowledgement or the end of the messages, the code of a negative error. Replies with
  data and failed receives do not end the wait, and it goes on while nothing has been decided.
  A request that could not be sent returns the error without waiting.
\<close>

theorem requestResponse_first:
  "requestResponse True sent rss =
     (if sent < 0 then Some sent
      else case List.map_filter settled rss of [] \<Rightarrow> None | v # _ \<Rightarrow> Some v)"
  by (simp add: requestResponse_def wait_reply_first)

text \<open>When the callbacks cannot be allocated the request is not sent and still reports success.\<close>

theorem requestResponse_no_memory: "requestResponse False sent rs = Some 0"
  by (simp add: requestResponse_def)



section \<open>Properties of the concurrency matrix\<close>

lemma read_matrix_bounds:
  assumes "0 < smax" "length (feature_matrix m) = nat smax" "num \<le> smax" "fm_size m \<le> smax"
  shows "\<exists>m'. read_matrix smax num i ats m = Some m' \<and> length (feature_matrix m') = nat smax \<and> fm_size m' \<le> smax"
  using assms
proof (induction smax num i ats m rule: read_matrix.induct)
  case (2 smax num i at ats m)
  show ?case
  proof (cases at)
    case (NumFeatureSet n)
    then show ?thesis
      using 2(1) [OF NumFeatureSet refl] 2(5-8) by (auto simp: clamp_sets_def)
  next
    case (FeatureSet v)
    show ?thesis
    proof (cases "int i < num")
      case True
      then have w: "wr (feature_matrix m) (int i) v = Some ((feature_matrix m)[i := v])"
        using 2(5-7) by (simp add: wr_def)
      with 2(2) [OF FeatureSet True w] 2(5-8) FeatureSet True show ?thesis by simp
    next
      case False
      with 2(3) [OF FeatureSet False] 2(5-8) FeatureSet show ?thesis by simp
    qed
  next
    case OtherAttr
    with 2(4) [OF OtherAttr] 2(5-8) show ?thesis by simp
  qed
qed simp

text \<open>C22.
  Whatever attributes the driver's reply holds, in whatever order and however often, the
  concurrency matrix is written inside the caller's array of \<^verbatim>\<open>set_size_max\<close> entries and the
  reported size does not exceed it.
\<close>

theorem concurrency_matrix_bounds:
  assumes "0 < set_size_max" "length (feature_matrix m) = nat set_size_max" "fm_size m \<le> set_size_max"
  shows "\<exists>ok m'. handle_feature_response VENDOR c NumFeatureSetType data set_size_max ats None (Some m) = Some (ok, None, Some m') \<and>
     length (feature_matrix m') = nat set_size_max \<and> fm_size m' \<le> set_size_max"
  using read_matrix_bounds [OF assms(1,2) _ assms(3), of 0 0 ats] assms
  by (auto simp: handle_feature_response_def)

theorem concurrency_matrix_bounds_witness:
  "\<exists>ok m'. handle_feature_response 103 103 NumFeatureSetType [1, 2, 3] 2
       [FeatureSet 4, NumFeatureSet 9, FeatureSet 5, OtherAttr, FeatureSet 6, FeatureSet 7]
       None (Some \<lparr>feature_matrix = [0, 0], fm_size = 0\<rparr>) = Some (ok, None, Some m') \<and> fm_size m' \<le> 2"
  using concurrency_matrix_bounds [of 2 "\<lparr>feature_matrix = [0, 0], fm_size = 0\<rparr>" 103 103 "[1, 2, 3]"]
  by fastforce

section \<open>Where the code and its intent part\<close>

text \<open>
  Without a limit (\<^verbatim>\<open>set_size_max\<close> 0) the driver's count alone bounds the stores, and the array
  is the caller's.
\<close>

theorem concurrency_matrix_unlimited:
  "read_matrix 0 0 0 [NumFeatureSet 1, FeatureSet v] \<lparr>feature_matrix = [], fm_size = 0\<rparr> = None"
  by (simp add: clamp_sets_def wr_def)

text \<open>A monitor is reported as started when its event handler found no room in the table.\<close>

theorem rssi_start_without_handler:
  assumes "num_event_cb info = alloc_event_cb info" "0 \<le> create_ret"
  shows "rssi_start VENDOR oui event create_ret 0 f a info = (0, info)"
  using assms by (simp add: rssi_start_def wifi_register_vendor_handler_def)

text \<open>The name of the stand-in ring buffer is cut to one character.\<close>

theorem ring_buffer_name_cut:
  "wifi_get_ring_buffers_status_dummy True True = (WIFI_SUCCESS, Some (1, ''d''))"
  by (simp add: wifi_get_ring_buffers_status_dummy_def strncpy_def)

section \<open>Properties of the dump and of the groups\<close>

lemma length_hex: "length (concat (map (\<lambda>b. CHR '' '' # hex2 b) bs)) = 3 * length bs"
  by (induction bs) (simp_all add: hex2_def)

lemma length_pad: "length (concat (replicate n ''   '')) = 3 * n"
  by (induction n) simp_all

lemma log_line_length:
  "chunk \<noteq> [] \<Longrightarrow> length chunk \<le> 16 \<Longrightarrow> length (log_line chunk) = 49 + length chunk"
proof (cases chunk)
  case (Cons a list)
  assume "length chunk \<le> 16"
  have "length (hex2 a) = 2" by (simp add: hex2_def)
  with Cons \<open>length chunk \<le> 16\<close> show ?thesis
    by (simp add: log_line_def Let_def length_hex length_pad)
qed simp

lemma blocks_step: "0 < n \<Longrightarrow> (n - 16 + 15) div 16 + 1 = (n + 15) div (16::nat)"
proof (cases "n \<le> 16")
  case True
  assume "0 < n"
  with True have "(n + 15) div 16 = 1" by (intro div_nat_eqI) auto
  with True show ?thesis by simp
next
  case False
  then obtain k where "n = 16 + k" using le_Suc_ex nat_le_linear by blast
  then show ?thesis by simp
qed

lemma log_lines_blocks:
  "length data \<le> n \<Longrightarrow> length (log_lines n data) = (length data + 15) div 16 \<and>
     (\<forall>l \<in> set (log_lines n data). 49 < length l \<and> length l \<le> 65)"
proof (induction n data rule: log_lines.induct)
  case (2 n data)
  show ?case
  proof (cases "data = []")
    case False
    then have d: "0 < length data" by simp
    have "length (log_lines (Suc n) data) = (length data + 15) div 16"
      using 2 False d blocks_step [OF d] by simp
    moreover have "length (log_line (take 16 data)) = 49 + min 16 (length data)"
      using d by (subst log_line_length) auto
    ultimately show ?thesis
      using 2 d False by (auto simp: min_def)
  qed simp
qed simp

text \<open>C23.
  The dump of a message has a line for every sixteen bytes or part of them, and each line
  with its terminating zero stays inside the 81 bytes reserved for it, whatever the data is.
\<close>

theorem log_lines_fit:
  "length (log_event data) = (length data + 15) div 16 \<and> (\<forall>l \<in> set (log_event data). length l + 1 \<le> 81)"
  using log_lines_blocks [of data "length data"] by (auto simp: log_event_def)

theorem log_lines_fit_witness:
  "length (log_event (map (\<lambda>i. 7 * i) [0..<20])) = 2 \<and> length (hd (log_event (map (\<lambda>i. 7 * i) [0..<20]))) + 1 \<le> 81"
proof -
  have "length (log_event (map (\<lambda>i. 7 * i) [0..<20])) = 2"
    using log_lines_fit [of "map (\<lambda>i. 7 * i) [0..<20]"] by simp
  moreover from this have "hd (log_event (map (\<lambda>i. 7 * i) [0..<20])) \<in> set (log_event (map (\<lambda>i. 7 * i) [0..<20]))"
    by (intro hd_in_set) auto
  ultimately show ?thesis using log_lines_fit [of "map (\<lambda>i. 7 * i) [0..<20]"] by blast
qed

lemma strncmp_eq_terminated:
  "CHR 0x00 \<notin> set s \<Longrightarrow> CHR 0x00 \<notin> set t \<Longrightarrow>
   strncmp_eq (s @ [CHR 0x00]) (t @ [CHR 0x00]) (Suc (length s)) \<longleftrightarrow> s = t"
proof (induction s arbitrary: t)
  case Nil
  then show ?case by (cases t) auto
next
  case (Cons a s)
  then show ?case by (cases t) auto
qed

text \<open>A group with a well-formed name and an id is found exactly by its name.\<close>

lemma find_group_first:
  assumes "\<forall>(nm, gid) \<in> set gs. CHR 0x00 \<notin> set nm" "CHR 0x00 \<notin> set grp"
  shows "find_group grp (map (\<lambda>(nm, gid). (Some (nm @ [CHR 0x00]), Some gid)) gs) (-1) =
    (case map_of gs grp of None \<Rightarrow> -1 | Some gid \<Rightarrow> gid)"
  using assms by (induction gs) (auto simp: strncmp_eq_terminated)

text \<open>C15.
  Initialisation succeeds on a complete environment exactly when the kernel offers the four
  groups the HAL listens to and joins each of them; the order in which the kernel lists the groups and
  groups of other names do not matter beyond the first of each name.
\<close>

theorem initialize_needs_groups:
  assumes "malloc_info env" "socketpair_ok env" "\<forall>p. nl_alloc env p \<and> nl_connect_ok env p" "nl_get_cb env"
    "malloc_cb env" "malloc_cmd env" "0 \<le> family_id env" "0 \<le> multicast_res env"
    and "multicast_groups env = Some (map (\<lambda>(nm, gid). (Some (nm @ [CHR 0x00]), Some gid)) gs)"
    and "\<forall>(nm, gid) \<in> set gs. CHR 0x00 \<notin> set nm \<and> 0 \<le> gid"
  shows "fst (wifi_initialize env WIFI_SUCCESS) = WIFI_SUCCESS \<longleftrightarrow>
    (\<forall>grp \<in> {''scan'', ''mlme'', ''regulatory'', ''vendor''}.
       \<exists>gid. map_of gs grp = Some gid \<and> 0 \<le> membership env gid)"
proof -
  have names: "\<forall>(nm, gid) \<in> set gs. CHR 0x00 \<notin> set nm" using assms(10) by auto
  have m: "wifi_add_membership env grp < 0 \<longleftrightarrow> \<not> (\<exists>gid. map_of gs grp = Some gid \<and> 0 \<le> membership env gid)"
    if "CHR 0x00 \<notin> set grp" for grp
  proof (cases "map_of gs grp")
    case None
    then show ?thesis
      using assms that find_group_first [OF names]
      by (simp add: wifi_add_membership_def wifi_get_multicast_id_def not_le)
  next
    case (Some gid)
    then have "0 \<le> gid" using assms(10) map_of_SomeD by fastforce
    then show ?thesis
      using assms that Some find_group_first [OF names]
      by (simp add: wifi_add_membership_def wifi_get_multicast_id_def not_le)
  qed
  show ?thesis
    using assms(1-7) m [of "''scan''"] m [of "''mlme''"] m [of "''regulatory''"] m [of "''vendor''"]
    by (auto simp: wifi_initialize_def wifi_create_nl_socket_def Let_def)
qed

theorem initialize_needs_groups_witness:
  "fst (wifi_initialize (ex_init\<lparr>nl_connect_ok := \<lambda>_. True,
      multicast_groups := Some (map (\<lambda>(nm, gid). (Some (nm @ [CHR 0x00]), Some gid))
        [(''scan'', 4), (''config'', 3), (''vendor'', 6), (''mlme'', 5), (''regulatory'', 2)])\<rparr>) WIFI_SUCCESS)
     = WIFI_SUCCESS"
  using initialize_needs_groups [of "ex_init\<lparr>nl_connect_ok := \<lambda>_. True,
      multicast_groups := Some (map (\<lambda>(nm, gid). (Some (nm @ [CHR 0x00]), Some gid))
        [(''scan'', 4), (''config'', 3), (''vendor'', 6), (''mlme'', 5), (''regulatory'', 2)])\<rparr>"
      "[(''scan'', 4), (''config'', 3), (''vendor'', 6), (''mlme'', 5), (''regulatory'', 2)]"]
  by (simp add: ex_init_def)

end
