(* ===== verification/GpsBuffer.thy ===== *)
theory GpsBuffer
  imports Prelude "HOL-Library.Word"
begin

text \<open>
  The messages between the GPS HAL and the positioning daemon
  (\<^verbatim>\<open>hal/gps/hal/gps_mtk_aosp.c\<close>): the fields of a datagram, the conversion of a name to
  UCS-2 and to hexadecimal text, the reading and sending loops with their retries, and every
  function of the assistance interfaces that builds a datagram and sends it.

  A byte is an \<open>8 word\<close>, an \<^verbatim>\<open>int\<close> takes four bytes with the lowest first.  A copy that leaves
  the buffer on either side is \<open>None\<close>.  The interface \<open>codec\<close> says what a field promises: what is
  put at an offset is got back from there; the round trip of whole messages rests on it.
\<close>

named_theorems put_simps \<open>what the functions that put a field emit\<close>
named_theorems get_simps \<open>what the functions that get a field return\<close>

type_synonym byte = "8 word"

text \<open>A message: the bytes of the buffer and the offset of the next field.\<close>

type_synonym msg = "byte list \<times> nat"

section \<open>Copies\<close>

definition put_at :: "byte list \<Rightarrow> nat \<Rightarrow> byte list \<Rightarrow> byte list option" where
  "put_at buf off bs =
    (if off + length bs \<le> length buf
     then Some (take off buf @ bs @ drop (off + length bs) buf) else None)"

definition get_at :: "byte list \<Rightarrow> nat \<Rightarrow> int \<Rightarrow> byte list option" where
  "get_at buf off n =
    (if 0 \<le> n \<and> off + nat n \<le> length buf then Some (take (nat n) (drop off buf)) else None)"

text \<open>An \<^verbatim>\<open>int\<close> in memory.\<close>

definition le4 :: "int \<Rightarrow> byte list" where
  "le4 x = map of_int [x, x div 256, x div 65536, x div 16777216]"

definition le4_value :: "byte list \<Rightarrow> int" where
  "le4_value bs = wrap32 (foldr (\<lambda>b v. uint b + 256 * v) bs 0)"

section \<open>Fields of a message\<close>

definition buff_put_int :: "int \<Rightarrow> msg \<Rightarrow> msg option" where
  "buff_put_int input m = (case m of (buff, offset) \<Rightarrow> do {
     buff \<leftarrow> put_at buff offset (le4 input);
     Some (buff, offset + 4) })"

text \<open>The argument is the text before the final zero byte.\<close>

definition buff_put_string :: "byte list \<Rightarrow> msg \<Rightarrow> msg option" where
  "buff_put_string str m = (case m of (buff, offset) \<Rightarrow>
     let len = length str + 1 in do {
     buff \<leftarrow> put_at buff offset (le4 (int len));
     buff \<leftarrow> put_at buff (offset + 4) (str @ [0]);
     Some (buff, offset + 4 + len) })"

definition buff_put_binary :: "byte list \<Rightarrow> int \<Rightarrow> msg \<Rightarrow> msg option" where
  "buff_put_binary input len m = (case m of (buff, offset) \<Rightarrow> do {
     buff \<leftarrow> put_at buff offset (le4 len);
     src \<leftarrow> get_at input 0 len;
     buff \<leftarrow> put_at buff (offset + 4) src;
     Some (buff, offset + 4 + nat len) })"

definition buff_put_struct :: "byte list \<Rightarrow> int \<Rightarrow> msg \<Rightarrow> msg option" where
  "buff_put_struct input sz m = (case m of (buff, offset) \<Rightarrow> do {
     src \<leftarrow> get_at input 0 sz;
     buff \<leftarrow> put_at buff offset src;
     Some (buff, offset + nat sz) })"

definition buff_get_int :: "msg \<Rightarrow> (int \<times> msg) option" where
  "buff_get_int m = (case m of (buff, offset) \<Rightarrow> do {
     bs \<leftarrow> get_at buff offset 4;
     Some (le4_value bs, (buff, offset + 4)) })"

text \<open>
  The destination has \<open>cap\<close> bytes.  The result is the bytes copied; their number is the value
  the code returns.
\<close>

definition buff_get_string :: "nat \<Rightarrow> msg \<Rightarrow> (byte list \<times> msg) option" where
  "buff_get_string cap m = (case m of (buff, offset) \<Rightarrow> do {
     bs \<leftarrow> get_at buff offset 4;
     let len = le4_value bs;
     str \<leftarrow> get_at buff (offset + 4) len;
     if len \<le> int cap then Some (str, (buff, offset + 4 + nat len)) else None })"

definition buff_get_struct :: "int \<Rightarrow> msg \<Rightarrow> (byte list \<times> msg) option" where
  "buff_get_struct sz m = (case m of (buff, offset) \<Rightarrow> do {
     bs \<leftarrow> get_at buff offset sz;
     Some (bs, (buff, offset + nat sz)) })"

definition buff_get_binary :: "nat \<Rightarrow> msg \<Rightarrow> (byte list \<times> msg) option" where
  "buff_get_binary cap m = (case m of (buff, offset) \<Rightarrow> do {
     bs \<leftarrow> get_at buff offset 4;
     let len = le4_value bs;
     out \<leftarrow> get_at buff (offset + 4) len;
     if len \<le> int cap then Some (out, (buff, offset + 4 + nat len)) else None })"

text \<open>A C string in an array: the bytes before the first zero.\<close>

definition c_string :: "byte list \<Rightarrow> byte list" where
  "c_string bs = takeWhile (\<lambda>b. b \<noteq> 0) bs"

section \<open>Names as UCS-2 and as hexadecimal text\<close>

fun ucs2_chars :: "byte list \<Rightarrow> int \<Rightarrow> byte list \<Rightarrow> (byte list \<times> int) option" where
  "ucs2_chars output len [] = None"
| "ucs2_chars output len (c # input) =
    (if c = 0 then Some (output, len)
     else do {
       output \<leftarrow> wr output len 0;
       output \<leftarrow> wr output (len + 1) c;
       ucs2_chars output (len + 2) input })"

text \<open>The result is the array and the length returned.\<close>

definition asc_str_to_usc2_str :: "byte list \<Rightarrow> byte list \<Rightarrow> (byte list \<times> int) option" where
  "asc_str_to_usc2_str output input = do {
     output \<leftarrow> wr output 0 254;
     output \<leftarrow> wr output 1 255;
     (output, len) \<leftarrow> ucs2_chars output 2 input;
     output \<leftarrow> wr output (len + 1) 0;
     output \<leftarrow> wr output (len + 2) 0;
     Some (output, len) }"

definition hex_digit :: "int \<Rightarrow> byte" where
  "hex_digit tmp = (if 0 \<le> tmp \<and> tmp \<le> 9 then of_int (tmp + 48) else of_int (tmp - 10 + 65))"

fun hex_loop :: "byte list \<Rightarrow> byte list \<Rightarrow> int \<Rightarrow> nat \<Rightarrow> byte list option" where
  "hex_loop output input i 0 = Some output"
| "hex_loop output input i (Suc n) = do {
     b \<leftarrow> rd input i;
     output \<leftarrow> wr output (i * 2) (hex_digit (uint b div 16 mod 16));
     output \<leftarrow> wr output (i * 2 + 1) (hex_digit (uint b mod 16));
     hex_loop output input (i + 1) n }"

definition raw_data_to_hex_string :: "byte list \<Rightarrow> byte list \<Rightarrow> int \<Rightarrow> byte list option" where
  "raw_data_to_hex_string output input input_len = hex_loop output input 0 (nat input_len)"

section \<open>Reading and sending\<close>

datatype errno = EINTR | EAGAIN | EPIPE | Errno int

text \<open>What the kernel answers to a call, in order.  An empty list: the call has not returned.\<close>

datatype io = Done int | Fail errno

text \<open>The sockets: the answers to come, the error of the last call that failed, the datagrams delivered.\<close>

record net =
  answers :: "io list"
  errno_of :: errno
  delivered :: "byte list list"

text \<open>
  \<^verbatim>\<open>read\<close> in the loop of \<^verbatim>\<open>safe_read\<close>.  The code looks at \<^verbatim>\<open>errno\<close> also after a read of no bytes,
  which leaves it as it was.
\<close>

fun read_loop :: "nat \<Rightarrow> errno \<Rightarrow> io list \<Rightarrow> (int \<times> errno \<times> io list) option" where
  "read_loop retry e [] = None"
| "read_loop retry e (a # as) =
    (let e = (case a of Fail e' \<Rightarrow> e' | Done _ \<Rightarrow> e) in
     if (case a of Done n \<Rightarrow> 0 < n | Fail _ \<Rightarrow> False)
     then Some (case a of Done n \<Rightarrow> n | Fail _ \<Rightarrow> - 1, e, as)
     else if e = EINTR then read_loop retry e as
     else if e = EAGAIN \<and> 0 < retry then read_loop (retry - 1) e as
     else Some (- 1, e, as))"

text \<open>The first answer is that of \<^verbatim>\<open>fcntl\<close>, whose failure is only logged.\<close>

definition safe_read :: "int \<Rightarrow> bool \<Rightarrow> int \<Rightarrow> net \<Rightarrow> (int \<times> net) option" where
  "safe_read fd buf_null len n =
    (if fd < 0 \<or> buf_null \<or> len < 0 then Some (- 1, n)
     else if len = 0 then Some (0, n)
     else (case answers n of
       [] \<Rightarrow> None
     | c # as \<Rightarrow> do {
         (r, e, as) \<leftarrow> read_loop 10 (case c of Fail e \<Rightarrow> e | Done _ \<Rightarrow> errno_of n) as;
         Some (r, n\<lparr>errno_of := e, answers := as\<rparr>) }))"

fun send_loop :: "byte list \<Rightarrow> nat \<Rightarrow> net \<Rightarrow> io list \<Rightarrow> (int \<times> net) option" where
  "send_loop buf retry n [] = None"
| "send_loop buf retry n (Done _ # as) =
     Some (0, n\<lparr>answers := as, delivered := delivered n @ [buf]\<rparr>)"
| "send_loop buf retry n (Fail e # as) =
    (let n = n\<lparr>errno_of := e\<rparr> in
     if e = EINTR then send_loop buf retry n as
     else if e = EAGAIN \<and> 0 < retry then send_loop buf (retry - 1) n as
     else Some (- 1, n\<lparr>answers := as\<rparr>))"

definition mtk_daemon_send :: "byte list \<Rightarrow> net \<Rightarrow> (int \<times> net) option" where
  "mtk_daemon_send buf n = send_loop buf 10 n (answers n)"

section \<open>Commands of the HAL\<close>

definition MNL_CMD_INIT :: int where "MNL_CMD_INIT = 0"
definition MNL_CMD_CLEANUP :: int where "MNL_CMD_CLEANUP = 1"
definition MNL_CMD_STOP :: int where "MNL_CMD_STOP = 2"
definition MNL_CMD_START :: int where "MNL_CMD_START = 3"
definition MNL_CMD_RESTART_HOT :: int where "MNL_CMD_RESTART_HOT = 5"
definition MNL_CMD_RESTART_WARM :: int where "MNL_CMD_RESTART_WARM = 6"
definition MNL_CMD_RESTART_COLD :: int where "MNL_CMD_RESTART_COLD = 7"
definition MNL_CMD_RESTART_FULL :: int where "MNL_CMD_RESTART_FULL = 8"
definition MNL_CMD_RESTART_AGPS :: int where "MNL_CMD_RESTART_AGPS = 9"
definition MNL_CMD_GPSMEASUREMENT_INIT :: int where "MNL_CMD_GPSMEASUREMENT_INIT = 21"
definition MNL_CMD_GPSMEASUREMENT_CLOSE :: int where "MNL_CMD_GPSMEASUREMENT_CLOSE = 22"
definition MNL_CMD_GPSNAVIGATION_INIT :: int where "MNL_CMD_GPSNAVIGATION_INIT = 23"
definition MNL_CMD_GPSNAVIGATION_CLOSE :: int where "MNL_CMD_GPSNAVIGATION_CLOSE = 24"
definition MNL_CMD_UPDATE_EPO_FILE :: int where "MNL_CMD_UPDATE_EPO_FILE = 52"
definition MNL_CMD_GPS_LOG_WRITE :: int where "MNL_CMD_GPS_LOG_WRITE = 64"
definition MNL_CMD_GPS_INJECT_TIME :: int where "MNL_CMD_GPS_INJECT_TIME = 70"
definition MNL_CMD_GPS_INJECT_LOCATION :: int where "MNL_CMD_GPS_INJECT_LOCATION = 71"
definition MNL_CMD_GPS_NLP_LOCATION_REQ :: int where "MNL_CMD_GPS_NLP_LOCATION_REQ = 74"

definition AGPS_FRAMEWORK_INFO_DATA_CONN_OPEN :: int where "AGPS_FRAMEWORK_INFO_DATA_CONN_OPEN = 125"
definition AGPS_FRAMEWORK_INFO_DATA_CONN_FAILED :: int where "AGPS_FRAMEWORK_INFO_DATA_CONN_FAILED = 126"
definition AGPS_FRAMEWORK_INFO_DATA_CONN_CLOSED :: int where "AGPS_FRAMEWORK_INFO_DATA_CONN_CLOSED = 127"
definition AGPS_FRAMEWORK_INFO_NI_MESSAGE :: int where "AGPS_FRAMEWORK_INFO_NI_MESSAGE = 128"
definition AGPS_FRAMEWORK_INFO_NI_RESPOND :: int where "AGPS_FRAMEWORK_INFO_NI_RESPOND = 129"
definition AGPS_FRAMEWORK_INFO_SET_REF_LOC :: int where "AGPS_FRAMEWORK_INFO_SET_REF_LOC = 130"
definition AGPS_FRAMEWORK_INFO_SET_SET_ID :: int where "AGPS_FRAMEWORK_INFO_SET_SET_ID = 131"
definition AGPS_FRAMEWORK_INFO_SET_SERVER :: int where "AGPS_FRAMEWORK_INFO_SET_SERVER = 132"
definition AGPS_FRAMEWORK_INFO_UPDATE_NETWORK_STATE :: int where "AGPS_FRAMEWORK_INFO_UPDATE_NETWORK_STATE = 133"
definition AGPS_FRAMEWORK_INFO_UPDATE_NETWORK_AVAILABILITY :: int where "AGPS_FRAMEWORK_INFO_UPDATE_NETWORK_AVAILABILITY = 134"
definition AGPS_FRAMEWORK_INFO_DATA_CONN_OPEN_IP_TYPE :: int where "AGPS_FRAMEWORK_INFO_DATA_CONN_OPEN_IP_TYPE = 135"
definition AGPS_FRAMEWORK_INFO_INSTALL_CERTIFICATES :: int where "AGPS_FRAMEWORK_INFO_INSTALL_CERTIFICATES = 136"
definition AGPS_FRAMEWORK_INFO_REVOKE_CERTIFICATES :: int where "AGPS_FRAMEWORK_INFO_REVOKE_CERTIFICATES = 137"

lemmas command_defs =
  MNL_CMD_GPS_NLP_LOCATION_REQ_def
  AGPS_FRAMEWORK_INFO_DATA_CONN_OPEN_def AGPS_FRAMEWORK_INFO_DATA_CONN_FAILED_def
  AGPS_FRAMEWORK_INFO_DATA_CONN_CLOSED_def AGPS_FRAMEWORK_INFO_NI_MESSAGE_def
  AGPS_FRAMEWORK_INFO_NI_RESPOND_def AGPS_FRAMEWORK_INFO_SET_REF_LOC_def
  AGPS_FRAMEWORK_INFO_SET_SET_ID_def AGPS_FRAMEWORK_INFO_SET_SERVER_def
  AGPS_FRAMEWORK_INFO_UPDATE_NETWORK_STATE_def AGPS_FRAMEWORK_INFO_UPDATE_NETWORK_AVAILABILITY_def
  AGPS_FRAMEWORK_INFO_DATA_CONN_OPEN_IP_TYPE_def AGPS_FRAMEWORK_INFO_INSTALL_CERTIFICATES_def
  AGPS_FRAMEWORK_INFO_REVOKE_CERTIFICATES_def

section \<open>The assistance interfaces\<close>

text \<open>\<^verbatim>\<open>char buff[1024] = {0}\<close> with \<^verbatim>\<open>offset = 0\<close>, with which every function starts.\<close>

definition BUFF :: msg where
  "BUFF = (replicate 1024 0, 0)"

definition agps_data_conn_open :: "byte list \<Rightarrow> net \<Rightarrow> (int \<times> net) option" where
  "agps_data_conn_open apn n = do {
     m \<leftarrow> buff_put_int AGPS_FRAMEWORK_INFO_DATA_CONN_OPEN BUFF;
     m \<leftarrow> buff_put_string apn m;
     (_, n) \<leftarrow> mtk_daemon_send (fst m) n;
     Some (0, n) }"

definition agps_data_conn_open_with_apn_ip_type :: "byte list \<Rightarrow> int \<Rightarrow> net \<Rightarrow> (int \<times> net) option" where
  "agps_data_conn_open_with_apn_ip_type apn apnIpType n = do {
     m \<leftarrow> buff_put_int AGPS_FRAMEWORK_INFO_DATA_CONN_OPEN_IP_TYPE BUFF;
     m \<leftarrow> buff_put_string apn m;
     m \<leftarrow> buff_put_int apnIpType m;
     (_, n) \<leftarrow> mtk_daemon_send (fst m) n;
     Some (0, n) }"

definition agps_data_conn_closed :: "net \<Rightarrow> (int \<times> net) option" where
  "agps_data_conn_closed n = do {
     m \<leftarrow> buff_put_int AGPS_FRAMEWORK_INFO_DATA_CONN_CLOSED BUFF;
     (_, n) \<leftarrow> mtk_daemon_send (fst m) n;
     Some (0, n) }"

definition agps_data_conn_failed :: "net \<Rightarrow> (int \<times> net) option" where
  "agps_data_conn_failed n = do {
     m \<leftarrow> buff_put_int AGPS_FRAMEWORK_INFO_DATA_CONN_FAILED BUFF;
     (_, n) \<leftarrow> mtk_daemon_send (fst m) n;
     Some (0, n) }"

definition agps_set_server :: "int \<Rightarrow> byte list \<Rightarrow> int \<Rightarrow> net \<Rightarrow> (int \<times> net) option" where
  "agps_set_server type hostname port n = do {
     m \<leftarrow> buff_put_int AGPS_FRAMEWORK_INFO_SET_SERVER BUFF;
     m \<leftarrow> buff_put_int type m;
     m \<leftarrow> buff_put_string hostname m;
     m \<leftarrow> buff_put_int port m;
     mtk_daemon_send (fst m) n }"

text \<open>
  The certificates are an array of structures; the argument is its memory.  The code takes the
  number of certificates for the number of bytes.
\<close>

definition agps_install_certificates :: "byte list \<Rightarrow> nat \<Rightarrow> net \<Rightarrow> (int \<times> net) option" where
  "agps_install_certificates certificates len n = do {
     m \<leftarrow> buff_put_int AGPS_FRAMEWORK_INFO_INSTALL_CERTIFICATES BUFF;
     m \<leftarrow> buff_put_int (int len) m;
     m \<leftarrow> buff_put_struct certificates (wrap32 (int len)) m;
     mtk_daemon_send (fst m) n }"

definition agps_revoke_certificates :: "byte list \<Rightarrow> nat \<Rightarrow> net \<Rightarrow> (int \<times> net) option" where
  "agps_revoke_certificates fingerprints len n = do {
     m \<leftarrow> buff_put_int AGPS_FRAMEWORK_INFO_REVOKE_CERTIFICATES BUFF;
     m \<leftarrow> buff_put_int (int len) m;
     m \<leftarrow> buff_put_struct fingerprints (wrap32 (int len)) m;
     mtk_daemon_send (fst m) n }"

definition gps_ni_respond :: "int \<Rightarrow> int \<Rightarrow> net \<Rightarrow> net option" where
  "gps_ni_respond notif_id user_response n = do {
     m \<leftarrow> buff_put_int AGPS_FRAMEWORK_INFO_NI_RESPOND BUFF;
     m \<leftarrow> buff_put_int notif_id m;
     m \<leftarrow> buff_put_int user_response m;
     (_, n) \<leftarrow> mtk_daemon_send (fst m) n;
     Some n }"

text \<open>The location is the memory of an \<^verbatim>\<open>AGpsRefLocation\<close>, whose size is a constant of the platform.\<close>

definition agps_ril_set_ref_location :: "int \<Rightarrow> byte list \<Rightarrow> int \<Rightarrow> net \<Rightarrow> net option" where
  "agps_ril_set_ref_location sizeof_AGpsRefLocation agps_reflocation sz_struct n = do {
     m \<leftarrow> buff_put_int AGPS_FRAMEWORK_INFO_SET_REF_LOC BUFF;
     m \<leftarrow> buff_put_struct agps_reflocation sizeof_AGpsRefLocation m;
     m \<leftarrow> buff_put_int sz_struct m;
     (_, n) \<leftarrow> mtk_daemon_send (fst m) n;
     Some n }"

definition agps_ril_set_set_id :: "int \<Rightarrow> byte list \<Rightarrow> net \<Rightarrow> net option" where
  "agps_ril_set_set_id type setid n = do {
     m \<leftarrow> buff_put_int AGPS_FRAMEWORK_INFO_SET_SET_ID BUFF;
     m \<leftarrow> buff_put_int type m;
     m \<leftarrow> buff_put_string setid m;
     (_, n) \<leftarrow> mtk_daemon_send (fst m) n;
     Some n }"

definition agps_ril_ni_message :: "byte list \<Rightarrow> nat \<Rightarrow> net \<Rightarrow> net option" where
  "agps_ril_ni_message msg len n = do {
     m \<leftarrow> buff_put_int AGPS_FRAMEWORK_INFO_NI_MESSAGE BUFF;
     m \<leftarrow> buff_put_binary msg (wrap32 (int len)) m;
     (_, n) \<leftarrow> mtk_daemon_send (fst m) n;
     Some n }"

definition agps_network_connected_wifi_tragger_nlp :: "net \<Rightarrow> net option" where
  "agps_network_connected_wifi_tragger_nlp n = do {
     m \<leftarrow> buff_put_int MNL_CMD_GPS_NLP_LOCATION_REQ BUFF;
     (_, n) \<leftarrow> mtk_daemon_send (fst m) n;
     Some n }"

text \<open>What the HAL remembers of the network.\<close>

record network =
  nw_connected :: int
  nw_type :: int

definition nw_wifi :: int where "nw_wifi = 1"
definition nw_data :: int where "nw_data = 0"

text \<open>A null pointer for the text is \<open>None\<close>.\<close>

definition agps_ril_update_network_state ::
  "int \<Rightarrow> int \<Rightarrow> int \<Rightarrow> byte list option \<Rightarrow> network \<times> net \<Rightarrow> (network \<times> net) option" where
  "agps_ril_update_network_state connected type roaming extra_info s = (case s of (w, n) \<Rightarrow> do {
     n \<leftarrow> (if nw_connected w = 0 \<and> connected = 1 \<and> type = nw_wifi
           then agps_network_connected_wifi_tragger_nlp n else Some n);
     let w = w\<lparr>nw_connected := connected, nw_type := type\<rparr>;
     m \<leftarrow> buff_put_int AGPS_FRAMEWORK_INFO_UPDATE_NETWORK_STATE BUFF;
     m \<leftarrow> buff_put_int connected m;
     m \<leftarrow> buff_put_int type m;
     m \<leftarrow> buff_put_int roaming m;
     m \<leftarrow> (case extra_info of None \<Rightarrow> buff_put_string [] m | Some str \<Rightarrow> buff_put_string str m);
     (_, n) \<leftarrow> mtk_daemon_send (fst m) n;
     Some (w, n) })"

definition agps_ril_update_network_availability :: "int \<Rightarrow> byte list option \<Rightarrow> net \<Rightarrow> net option" where
  "agps_ril_update_network_availability avaiable apn n = do {
     m \<leftarrow> buff_put_int AGPS_FRAMEWORK_INFO_UPDATE_NETWORK_AVAILABILITY BUFF;
     m \<leftarrow> buff_put_int avaiable m;
     m \<leftarrow> (case apn of None \<Rightarrow> buff_put_string [] m | Some str \<Rightarrow> buff_put_string str m);
     (_, n) \<leftarrow> mtk_daemon_send (fst m) n;
     Some n }"

section \<open>Commands of one byte\<close>

definition mtk_init :: "net \<Rightarrow> (int \<times> net) option" where
  "mtk_init n = mtk_daemon_send [of_int MNL_CMD_INIT] n"

definition mtk_cleanup :: "net \<Rightarrow> (int \<times> net) option" where
  "mtk_cleanup n = do {
     (err, n) \<leftarrow> mtk_daemon_send [of_int MNL_CMD_CLEANUP] n;
     Some (0, n) }"

text \<open>The retries after a broken pipe: \<open>k\<close> are left.\<close>

fun start_loop :: "nat \<Rightarrow> int \<times> net \<Rightarrow> (int \<times> net) option" where
  "start_loop 0 (err, n) = Some (err, n)"
| "start_loop (Suc k) (err, n) =
    (if err \<noteq> 0 \<and> errno_of n = EPIPE
     then do { r \<leftarrow> mtk_daemon_send [of_int MNL_CMD_START] n; start_loop k r }
     else Some (err, n))"

definition mtk_start :: "net \<Rightarrow> (int \<times> net) option" where
  "mtk_start n = do {
     r \<leftarrow> mtk_daemon_send [of_int MNL_CMD_START] n;
     start_loop 5 r }"

definition mtk_stop :: "net \<Rightarrow> (int \<times> net) option" where
  "mtk_stop n = mtk_daemon_send [of_int MNL_CMD_STOP] n"

definition mtk_restart :: "int \<Rightarrow> net \<Rightarrow> (int \<times> net) option" where
  "mtk_restart cmd n = mtk_daemon_send [of_int cmd] n"

definition mtk_measurement_init :: "net \<Rightarrow> (int \<times> net) option" where
  "mtk_measurement_init n = mtk_daemon_send [of_int MNL_CMD_GPSMEASUREMENT_INIT] n"

definition mtk_measurement_close :: "net \<Rightarrow> (int \<times> net) option" where
  "mtk_measurement_close n = mtk_daemon_send [of_int MNL_CMD_GPSMEASUREMENT_CLOSE] n"

definition mtk_navigation_init :: "net \<Rightarrow> (int \<times> net) option" where
  "mtk_navigation_init n = mtk_daemon_send [of_int MNL_CMD_GPSNAVIGATION_INIT] n"

definition mtk_navigation_close :: "net \<Rightarrow> (int \<times> net) option" where
  "mtk_navigation_close n = mtk_daemon_send [of_int MNL_CMD_GPSNAVIGATION_CLOSE] n"

section \<open>The fields as text of bytes\<close>

text \<open>The reference: the bytes a field takes, written at the offset.\<close>

definition emit :: "byte list \<Rightarrow> msg \<Rightarrow> msg option" where
  "emit bs m = map_option (\<lambda>buff. (buff, snd m + length bs)) (put_at (fst m) (snd m) bs)"

definition enc_string :: "byte list \<Rightarrow> byte list" where
  "enc_string s = le4 (int (length s) + 1) @ s @ [0]"

definition enc_binary :: "byte list \<Rightarrow> byte list" where
  "enc_binary bs = le4 (int (length bs)) @ bs"

definition int_ok :: "int \<Rightarrow> bool" where
  "int_ok x \<longleftrightarrow> - 2147483648 \<le> x \<and> x \<le> 2147483647"

definition string_ok :: "byte list \<Rightarrow> bool" where
  "string_ok s \<longleftrightarrow> 0 \<notin> set s \<and> length s < 1024"

definition get_text :: "msg \<Rightarrow> (byte list \<times> msg) option" where
  "get_text m = map_option (\<lambda>(bs, m). (c_string bs, m)) (buff_get_string 1024 m)"

lemma length_le4 [simp]: "length (le4 x) = 4"
  by (simp add: le4_def)

lemma uint_byte: "uint (of_int y :: byte) = y mod 256"
  by (simp add: uint_word_of_int_eq take_bit_eq_mod)

lemma base_256:
  fixes x :: int
  shows "x mod 256 + 256 * (x div 256 mod 256 + 256 * (x div 65536 mod 256 + 256 * (x div 16777216 mod 256)))
    = x mod 4294967296"
proof -
  define y z where yz: "y = x div 256" "z = x div 65536"
  have "x mod 4294967296 = 256 * (y mod 16777216) + x mod 256"
    using zmod_zmult2_eq [of 16777216 x 256] by (simp add: yz)
  moreover have "y mod 16777216 = 256 * (y div 256 mod 65536) + y mod 256"
    using zmod_zmult2_eq [of 65536 y 256] by simp
  moreover have "z mod 65536 = 256 * (z div 256 mod 256) + z mod 256"
    using zmod_zmult2_eq [of 256 z 256] by simp
  moreover have "y div 256 = z"
    using zdiv_zmult2_eq [of 256 x 256] by (simp add: yz)
  moreover have "z div 256 = x div 16777216"
    using zdiv_zmult2_eq [of 256 x 65536] by (simp add: yz)
  ultimately show ?thesis by (simp add: yz [symmetric])
qed

lemma wrap32_mod: "wrap32 (x mod 4294967296) = wrap32 x"
  unfolding wrap32_def by (simp only: mod_add_left_eq)

lemma le4_value_le4: "le4_value (le4 x) = wrap32 x"
  unfolding le4_value_def le4_def
  by (simp only: list.map foldr.simps o_apply id_apply uint_byte mult_zero_right add_0_right
      base_256 wrap32_mod)

lemma put_at_put_at:
  "put_at b off as \<bind> (\<lambda>b. put_at b (off + length as) bs) = put_at b off (as @ bs)"
proof (cases "off + length as \<le> length b")
  case True
  then have off: "off \<le> length b" by simp
  show ?thesis
    by (cases "off + length as + length bs \<le> length b")
      (use True off in \<open>simp_all add: put_at_def min_absorb2 ac_simps\<close>)
next
  case False
  then show ?thesis by (simp add: put_at_def)
qed

lemma emit_conv: "emit bs (b, off) = put_at b off bs \<bind> (\<lambda>b. Some (b, off + length bs))"
  by (cases "put_at b off bs") (simp_all add: emit_def)

lemma emit_emit: "emit as m \<bind> emit bs = emit (as @ bs) m"
  using put_at_put_at [of "fst m" "snd m" as bs]
  by (cases m; cases "put_at (fst m) (snd m) as") (simp_all add: emit_conv add.assoc)

lemma buff_put_int_emit [put_simps]: "buff_put_int x m = emit (le4 x) m"
  by (cases m) (simp add: buff_put_int_def emit_conv)

lemma buff_put_string_emit [put_simps]: "buff_put_string s m = emit (enc_string s) m"
proof (cases m)
  case (Pair b off)
  show ?thesis
    using put_at_put_at [of b off "le4 (int (length s) + 1)" "s @ [0]"] unfolding Pair
    by (cases "put_at b off (le4 (int (length s) + 1))")
      (simp_all add: buff_put_string_def emit_conv enc_string_def ac_simps)
qed

lemma get_at_all [simp]: "get_at bs 0 (int (length bs)) = Some bs"
  by (simp add: get_at_def)

lemma buff_put_binary_emit [put_simps]:
  "buff_put_binary bs (int (length bs)) m = emit (enc_binary bs) m"
proof (cases m)
  case (Pair b off)
  show ?thesis
    using put_at_put_at [of b off "le4 (int (length bs))" bs] unfolding Pair
    by (cases "put_at b off (le4 (int (length bs)))")
      (simp_all add: buff_put_binary_def emit_conv enc_binary_def add.assoc)
qed

lemma buff_put_struct_emit [put_simps]:
  "buff_put_struct bs (int (length bs)) m = emit bs m"
  by (cases m) (simp add: buff_put_struct_def emit_conv)

lemma get_at_mid: "get_at (pre @ bs @ post) (length pre) (int (length bs)) = Some bs"
  by (simp add: get_at_def)

lemma get_at_mid4:
  assumes "length bs = 4"
  shows "get_at (pre @ bs @ post) (length pre) 4 = Some bs"
  using get_at_mid [of pre bs post] assms by simp

section \<open>What a field promises\<close>

text \<open>The message holds the bytes \<open>bs\<close> at its offset.\<close>

definition reads :: "msg \<Rightarrow> byte list \<Rightarrow> bool" where
  "reads m bs \<longleftrightarrow> (\<exists>pre post. m = (pre @ bs @ post, length pre))"

lemma reads_start [simp]: "reads (bs @ post, 0) bs"
  unfolding reads_def by (intro exI [of _ "[]"] exI [of _ post]) simp

locale codec =
  fixes put :: "'a \<Rightarrow> msg \<Rightarrow> msg option" and get :: "msg \<Rightarrow> ('a \<times> msg) option"
    and enc :: "'a \<Rightarrow> byte list" and ok :: "'a \<Rightarrow> bool"
  assumes put_enc: "ok x \<Longrightarrow> put x m = emit (enc x) m"
    and get_enc: "ok x \<Longrightarrow>
      get (pre @ enc x @ post, length pre) = Some (x, (pre @ enc x @ post, length pre + length (enc x)))"
begin

text \<open>One step of a reader: the field is read and the rest of the message is behind it.\<close>

lemma get_step:
  assumes m: "reads m (enc x @ rest)" and ok: "ok x"
    and cont: "\<And>m'. reads m' rest \<Longrightarrow> f (x, m') = r"
  shows "get m \<bind> f = r"
proof -
  obtain pre post where "m = (pre @ enc x @ rest @ post, length pre)"
    using m by (auto simp: reads_def)
  moreover have "reads (pre @ enc x @ rest @ post, length pre + length (enc x)) rest"
    unfolding reads_def by (intro exI [of _ "pre @ enc x"] exI [of _ post]) simp
  ultimately show ?thesis
    using get_enc [OF ok, of pre "rest @ post"] cont by simp
qed

lemma get_last:
  assumes "reads m (enc x)" "ok x" "\<And>m'. f (x, m') = r"
  shows "get m \<bind> f = r"
  using assms by (intro get_step [where rest = "[]"]) simp_all

text \<open>What was put at an offset is got from there, also after fields were put behind it.\<close>

lemma put_get:
  assumes "ok x" "put x m = Some m1" "emit bs m1 = Some m2"
  shows "get (fst m2, snd m) = Some (x, (fst m2, snd m1))"
proof -
  obtain b off where m: "m = (b, off)" by (cases m)
  have "emit (enc x @ bs) m = Some m2"
    using assms emit_emit [of "enc x" m bs] by (simp add: put_enc)
  then have "off + length (enc x @ bs) \<le> length b"
    and "fst m2 = take off b @ enc x @ bs @ drop (off + length (enc x @ bs)) b"
    by (auto simp: m emit_conv put_at_def split: if_splits)
  moreover have "snd m1 = off + length (enc x)"
    using assms by (auto simp: put_enc m emit_conv put_at_def split: if_splits)
  ultimately show ?thesis
    using get_enc [OF assms(1), of "take off b"] by (simp add: m min_absorb2)
qed

end

interpretation ci: codec buff_put_int buff_get_int le4 int_ok
proof
  fix x m assume "int_ok x"
  show "buff_put_int x m = emit (le4 x) m" by (rule buff_put_int_emit)
next
  fix x pre post assume "int_ok x"
  then show "buff_get_int (pre @ le4 x @ post, length pre)
      = Some (x, (pre @ le4 x @ post, length pre + length (le4 x)))"
    by (simp add: buff_get_int_def get_at_mid4 le4_value_le4 int_ok_def wrap32_id)
qed

lemma get_counted: "get_at (pre @ le4 x @ bs @ post) (length pre + 4) (int (length bs)) = Some bs"
  using get_at_mid [of "pre @ le4 x" bs post] by simp

lemma le4_count: "int (length bs) \<le> 2147483647 \<Longrightarrow> le4_value (le4 (int (length bs))) = int (length bs)"
  by (simp add: le4_value_le4 wrap32_id)

interpretation cb: codec "\<lambda>bs. buff_put_binary bs (int (length bs))" "buff_get_binary 1024" enc_binary "\<lambda>bs. length bs \<le> 1024"
proof
  fix bs :: "byte list" and m assume "length bs \<le> 1024"
  show "buff_put_binary bs (int (length bs)) m = emit (enc_binary bs) m" by (rule buff_put_binary_emit)
next
  fix bs pre post assume "length (bs :: byte list) \<le> 1024"
  then show "buff_get_binary 1024 (pre @ enc_binary bs @ post, length pre)
      = Some (bs, (pre @ enc_binary bs @ post, length pre + length (enc_binary bs)))"
    by (simp add: buff_get_binary_def enc_binary_def get_at_mid4 get_counted le4_count)
qed

interpretation cs: codec buff_put_string get_text enc_string string_ok
proof
  fix s m assume "string_ok s"
  show "buff_put_string s m = emit (enc_string s) m" by (rule buff_put_string_emit)
next
  fix s pre post assume s: "string_ok s"
  have e: "enc_string s = le4 (int (length (s @ [0]))) @ (s @ [0])"
    by (simp add: enc_string_def add.commute)
  have "c_string (s @ [0]) = s"
    using s by (auto simp: c_string_def string_ok_def takeWhile_append)
  moreover have "int (length (s @ [0])) \<le> 1024" using s by (simp add: string_ok_def)
  ultimately show "get_text (pre @ enc_string s @ post, length pre)
      = Some (s, (pre @ enc_string s @ post, length pre + length (enc_string s)))"
    using get_counted [of pre "int (length (s @ [0]))" "s @ [0]" post] le4_count [of "s @ [0]"] unfolding e
    by (simp add: get_text_def buff_get_string_def get_at_mid4 Let_def nat_add_distrib)
qed

interpretation ct: codec "\<lambda>bs. buff_put_struct bs (int sz)" "buff_get_struct (int sz)" id "\<lambda>bs. length bs = sz"
  for sz
proof
  fix bs m assume "length (bs :: byte list) = sz"
  then show "buff_put_struct bs (int sz) m = emit (id bs) m" using buff_put_struct_emit [of bs m] by simp
next
  fix bs pre post assume "length (bs :: byte list) = sz"
  then show "buff_get_struct (int sz) (pre @ id bs @ post, length pre)
      = Some (bs, (pre @ id bs @ post, length pre + length (id bs)))"
    using get_at_mid [of pre bs post] by (simp add: buff_get_struct_def)
qed

section \<open>Datagrams\<close>

text \<open>The bytes of the fields of a message, and the datagram that carries them.\<close>

definition datagram :: "byte list \<Rightarrow> byte list" where
  "datagram bs = bs @ replicate (1024 - length bs) 0"

lemma emit_BUFF:
  "emit bs BUFF = (if length bs \<le> 1024 then Some (datagram bs, length bs) else None)"
  by (simp add: BUFF_def emit_conv put_at_def datagram_def)

lemma emit_bind: "emit as m \<bind> (\<lambda>m. emit bs m \<bind> f) = emit (as @ bs) m \<bind> f"
  by (simp add: emit_emit [symmetric])

text \<open>What the functions of the interfaces ask the daemon for.\<close>

datatype request =
    Data_conn_open "byte list"
  | Data_conn_open_ip "byte list" int
  | Data_conn_closed
  | Data_conn_failed
  | Set_server int "byte list" int
  | Install_certificates "byte list"
  | Revoke_certificates "byte list"
  | Ni_respond int int
  | Set_ref_location "byte list" int
  | Set_set_id int "byte list"
  | Ni_message "byte list"
  | Nlp_location
  | Network_state int int int "byte list"
  | Network_availability int "byte list"

text \<open>The function of the HAL behind each of them.\<close>

definition run :: "request \<Rightarrow> network \<times> net \<Rightarrow> (network \<times> net) option" where
  "run q s = (case s of (w, n) \<Rightarrow> (case q of
       Data_conn_open apn \<Rightarrow> map_option (\<lambda>r. (w, snd r)) (agps_data_conn_open apn n)
     | Data_conn_open_ip apn t \<Rightarrow>
         map_option (\<lambda>r. (w, snd r)) (agps_data_conn_open_with_apn_ip_type apn t n)
     | Data_conn_closed \<Rightarrow> map_option (\<lambda>r. (w, snd r)) (agps_data_conn_closed n)
     | Data_conn_failed \<Rightarrow> map_option (\<lambda>r. (w, snd r)) (agps_data_conn_failed n)
     | Set_server t host port \<Rightarrow> map_option (\<lambda>r. (w, snd r)) (agps_set_server t host port n)
     | Install_certificates c \<Rightarrow> map_option (\<lambda>r. (w, snd r)) (agps_install_certificates c (length c) n)
     | Revoke_certificates c \<Rightarrow> map_option (\<lambda>r. (w, snd r)) (agps_revoke_certificates c (length c) n)
     | Ni_respond i r \<Rightarrow> map_option (\<lambda>n. (w, n)) (gps_ni_respond i r n)
     | Set_ref_location l k \<Rightarrow>
         map_option (\<lambda>n. (w, n)) (agps_ril_set_ref_location (int (length l)) l k n)
     | Set_set_id t i \<Rightarrow> map_option (\<lambda>n. (w, n)) (agps_ril_set_set_id t i n)
     | Ni_message b \<Rightarrow> map_option (\<lambda>n. (w, n)) (agps_ril_ni_message b (length b) n)
     | Nlp_location \<Rightarrow> map_option (\<lambda>n. (w, n)) (agps_network_connected_wifi_tragger_nlp n)
     | Network_state c t r x \<Rightarrow> agps_ril_update_network_state c t r (Some x) (w, n)
     | Network_availability a x \<Rightarrow>
         map_option (\<lambda>n. (w, n)) (agps_ril_update_network_availability a (Some x) n)))"

text \<open>The fields of a message, in the order in which they are sent.\<close>

fun request_bytes :: "request \<Rightarrow> byte list" where
  "request_bytes (Data_conn_open apn) = le4 AGPS_FRAMEWORK_INFO_DATA_CONN_OPEN @ enc_string apn"
| "request_bytes (Data_conn_open_ip apn t) =
     le4 AGPS_FRAMEWORK_INFO_DATA_CONN_OPEN_IP_TYPE @ enc_string apn @ le4 t"
| "request_bytes Data_conn_closed = le4 AGPS_FRAMEWORK_INFO_DATA_CONN_CLOSED"
| "request_bytes Data_conn_failed = le4 AGPS_FRAMEWORK_INFO_DATA_CONN_FAILED"
| "request_bytes (Set_server t host port) =
     le4 AGPS_FRAMEWORK_INFO_SET_SERVER @ le4 t @ enc_string host @ le4 port"
| "request_bytes (Install_certificates c) =
     le4 AGPS_FRAMEWORK_INFO_INSTALL_CERTIFICATES @ enc_binary c"
| "request_bytes (Revoke_certificates c) =
     le4 AGPS_FRAMEWORK_INFO_REVOKE_CERTIFICATES @ enc_binary c"
| "request_bytes (Ni_respond i r) = le4 AGPS_FRAMEWORK_INFO_NI_RESPOND @ le4 i @ le4 r"
| "request_bytes (Set_ref_location l k) = le4 AGPS_FRAMEWORK_INFO_SET_REF_LOC @ l @ le4 k"
| "request_bytes (Set_set_id t i) = le4 AGPS_FRAMEWORK_INFO_SET_SET_ID @ le4 t @ enc_string i"
| "request_bytes (Ni_message b) = le4 AGPS_FRAMEWORK_INFO_NI_MESSAGE @ enc_binary b"
| "request_bytes Nlp_location = le4 MNL_CMD_GPS_NLP_LOCATION_REQ"
| "request_bytes (Network_state c t r x) =
     le4 AGPS_FRAMEWORK_INFO_UPDATE_NETWORK_STATE @ le4 c @ le4 t @ le4 r @ enc_string x"
| "request_bytes (Network_availability a x) =
     le4 AGPS_FRAMEWORK_INFO_UPDATE_NETWORK_AVAILABILITY @ le4 a @ enc_string x"

text \<open>A reader of the datagrams, with the HAL's own functions; \<open>sz\<close> is the size of a location.\<close>

definition decode :: "nat \<Rightarrow> byte list \<Rightarrow> request option" where
  "decode sz d = do {
     (cmd, m) \<leftarrow> buff_get_int (d, 0);
     if cmd = AGPS_FRAMEWORK_INFO_DATA_CONN_OPEN then do {
       (apn, m) \<leftarrow> get_text m; Some (Data_conn_open apn) }
     else if cmd = AGPS_FRAMEWORK_INFO_DATA_CONN_OPEN_IP_TYPE then do {
       (apn, m) \<leftarrow> get_text m; (t, m) \<leftarrow> buff_get_int m; Some (Data_conn_open_ip apn t) }
     else if cmd = AGPS_FRAMEWORK_INFO_DATA_CONN_CLOSED then Some Data_conn_closed
     else if cmd = AGPS_FRAMEWORK_INFO_DATA_CONN_FAILED then Some Data_conn_failed
     else if cmd = AGPS_FRAMEWORK_INFO_SET_SERVER then do {
       (t, m) \<leftarrow> buff_get_int m; (host, m) \<leftarrow> get_text m; (port, m) \<leftarrow> buff_get_int m;
       Some (Set_server t host port) }
     else if cmd = AGPS_FRAMEWORK_INFO_INSTALL_CERTIFICATES then do {
       (c, m) \<leftarrow> buff_get_binary 1024 m; Some (Install_certificates c) }
     else if cmd = AGPS_FRAMEWORK_INFO_REVOKE_CERTIFICATES then do {
       (c, m) \<leftarrow> buff_get_binary 1024 m; Some (Revoke_certificates c) }
     else if cmd = AGPS_FRAMEWORK_INFO_NI_RESPOND then do {
       (i, m) \<leftarrow> buff_get_int m; (r, m) \<leftarrow> buff_get_int m; Some (Ni_respond i r) }
     else if cmd = AGPS_FRAMEWORK_INFO_SET_REF_LOC then do {
       (l, m) \<leftarrow> buff_get_struct (int sz) m; (k, m) \<leftarrow> buff_get_int m; Some (Set_ref_location l k) }
     else if cmd = AGPS_FRAMEWORK_INFO_SET_SET_ID then do {
       (t, m) \<leftarrow> buff_get_int m; (i, m) \<leftarrow> get_text m; Some (Set_set_id t i) }
     else if cmd = AGPS_FRAMEWORK_INFO_NI_MESSAGE then do {
       (b, m) \<leftarrow> buff_get_binary 1024 m; Some (Ni_message b) }
     else if cmd = MNL_CMD_GPS_NLP_LOCATION_REQ then Some Nlp_location
     else if cmd = AGPS_FRAMEWORK_INFO_UPDATE_NETWORK_STATE then do {
       (c, m) \<leftarrow> buff_get_int m; (t, m) \<leftarrow> buff_get_int m; (r, m) \<leftarrow> buff_get_int m;
       (x, m) \<leftarrow> get_text m; Some (Network_state c t r x) }
     else if cmd = AGPS_FRAMEWORK_INFO_UPDATE_NETWORK_AVAILABILITY then do {
       (a, m) \<leftarrow> buff_get_int m; (x, m) \<leftarrow> get_text m; Some (Network_availability a x) }
     else None }"

text \<open>A request whose numbers are 32-bit integers and whose texts have no zero byte.\<close>

fun request_ok :: "nat \<Rightarrow> request \<Rightarrow> bool" where
  "request_ok sz (Data_conn_open apn) \<longleftrightarrow> 0 \<notin> set apn"
| "request_ok sz (Data_conn_open_ip apn t) \<longleftrightarrow> 0 \<notin> set apn \<and> int_ok t"
| "request_ok sz (Set_server t host port) \<longleftrightarrow> int_ok t \<and> 0 \<notin> set host \<and> int_ok port"
| "request_ok sz (Ni_respond i r) \<longleftrightarrow> int_ok i \<and> int_ok r"
| "request_ok sz (Set_ref_location l k) \<longleftrightarrow> length l = sz \<and> int_ok k"
| "request_ok sz (Set_set_id t i) \<longleftrightarrow> int_ok t \<and> 0 \<notin> set i"
| "request_ok sz (Network_state c t r x) \<longleftrightarrow> int_ok c \<and> int_ok t \<and> int_ok r \<and> 0 \<notin> set x"
| "request_ok sz (Network_availability a x) \<longleftrightarrow> int_ok a \<and> 0 \<notin> set x"
| "request_ok sz _ \<longleftrightarrow> True"

lemmas get_steps = ci.get_step cs.get_step cb.get_step ct.get_step [unfolded id_apply]
  ci.get_last cs.get_last cb.get_last

lemma int_ok_commands [simp]:
  "int_ok AGPS_FRAMEWORK_INFO_DATA_CONN_OPEN" "int_ok AGPS_FRAMEWORK_INFO_DATA_CONN_FAILED"
  "int_ok AGPS_FRAMEWORK_INFO_DATA_CONN_CLOSED" "int_ok AGPS_FRAMEWORK_INFO_NI_MESSAGE"
  "int_ok AGPS_FRAMEWORK_INFO_NI_RESPOND" "int_ok AGPS_FRAMEWORK_INFO_SET_REF_LOC"
  "int_ok AGPS_FRAMEWORK_INFO_SET_SET_ID" "int_ok AGPS_FRAMEWORK_INFO_SET_SERVER"
  "int_ok AGPS_FRAMEWORK_INFO_UPDATE_NETWORK_STATE" "int_ok AGPS_FRAMEWORK_INFO_UPDATE_NETWORK_AVAILABILITY"
  "int_ok AGPS_FRAMEWORK_INFO_DATA_CONN_OPEN_IP_TYPE" "int_ok AGPS_FRAMEWORK_INFO_INSTALL_CERTIFICATES"
  "int_ok AGPS_FRAMEWORK_INFO_REVOKE_CERTIFICATES" "int_ok MNL_CMD_GPS_NLP_LOCATION_REQ"
  by (simp_all add: int_ok_def command_defs)

lemma length_enc_string [simp]: "length (enc_string s) = length s + 5"
  by (simp add: enc_string_def)

lemma length_enc_binary [simp]: "length (enc_binary s) = length s + 4"
  by (simp add: enc_binary_def)

lemma decode_request:
  "reads (d, 0) (request_bytes q) \<Longrightarrow> request_ok sz q \<Longrightarrow> length (request_bytes q) \<le> 1024
    \<Longrightarrow> decode sz d = Some q"
  unfolding decode_def
  by (cases q; simp only: request_bytes.simps;
      (erule get_steps, simp add: string_ok_def, simp add: command_defs)+)

text \<open>A request that fits is put together in the buffer and sent; one that does not overruns it.\<close>

lemma wrap32_length [simp]: "length (bs :: byte list) \<le> 1024 \<Longrightarrow> wrap32 (int (length bs)) = int (length bs)"
  by (simp add: wrap32_id)

lemma emit_send:
  "length bs \<le> 1024 \<Longrightarrow> emit bs BUFF \<bind> (\<lambda>m. mtk_daemon_send (fst m) n \<bind> f) = mtk_daemon_send (datagram bs) n \<bind> f"
  "length bs \<le> 1024 \<Longrightarrow> emit bs BUFF \<bind> (\<lambda>m. mtk_daemon_send (fst m) n) = mtk_daemon_send (datagram bs) n"
  by (simp_all add: emit_BUFF)

lemmas request_defs = agps_data_conn_open_def agps_data_conn_open_with_apn_ip_type_def
  agps_data_conn_closed_def agps_data_conn_failed_def agps_set_server_def
  agps_install_certificates_def agps_revoke_certificates_def gps_ni_respond_def
  agps_ril_set_ref_location_def agps_ril_set_set_id_def agps_ril_ni_message_def
  agps_network_connected_wifi_tragger_nlp_def agps_ril_update_network_availability_def

lemma map_option_send:
  "map_option f (send \<bind> (\<lambda>(r, n). Some (g r n))) = map_option (\<lambda>r. f (g (fst r) (snd r))) send"
  by (cases send) auto

lemmas run_simps = run_def request_defs put_simps emit_bind emit_send map_option_send enc_binary_def

fun is_network_state :: "request \<Rightarrow> bool" where
  "is_network_state (Network_state _ _ _ _) = True"
| "is_network_state _ = False"

lemma run_request:
  assumes "length (request_bytes q) \<le> 1024" "\<not> is_network_state q"
  shows "run q (w, n) = map_option (\<lambda>r. (w, snd r)) (mtk_daemon_send (datagram (request_bytes q)) n)"
  using assms by (cases q) (simp_all add: run_simps)

lemma run_network_state:
  assumes "length (request_bytes q) \<le> 1024" "q = Network_state c t r x"
  shows "run q (w, n) = do {
    n \<leftarrow> (if nw_connected w = 0 \<and> c = 1 \<and> t = nw_wifi
         then map_option snd (mtk_daemon_send (datagram (request_bytes Nlp_location)) n) else Some n);
    (r, n) \<leftarrow> mtk_daemon_send (datagram (request_bytes q)) n;
    Some (w\<lparr>nw_connected := c, nw_type := t\<rparr>, n) }"
  using assms
  by (cases "mtk_daemon_send (datagram (request_bytes Nlp_location)) n")
    (auto simp: run_simps agps_ril_update_network_state_def)

section \<open>Retries\<close>

text \<open>A datagram is delivered once, and the result says whether it was.\<close>

lemma send_loop_result:
  "send_loop buf retry n as = Some (r, n') \<Longrightarrow>
    (r = 0 \<and> delivered n' = delivered n @ [buf]) \<or> (r = - 1 \<and> delivered n' = delivered n)"
  by (induction buf retry n as rule: send_loop.induct) (auto simp: Let_def split: if_splits)

definition retried :: "io \<Rightarrow> bool" where
  "retried a \<longleftrightarrow> a = Fail EINTR \<or> a = Fail EAGAIN"

lemma send_loop_retries:
  assumes "\<forall>a \<in> set pre. retried a" "count_list pre (Fail EAGAIN) \<le> retry"
  shows "\<exists>e. send_loop buf retry n (pre @ as)
    = send_loop buf (retry - count_list pre (Fail EAGAIN)) (n\<lparr>errno_of := e\<rparr>) as"
  using assms
proof (induction pre arbitrary: n retry)
  case Nil
  show ?case by (intro exI [of _ "errno_of n"]) simp
next
  case (Cons a pre)
  consider "a = Fail EINTR" | "a = Fail EAGAIN" using Cons.prems by (auto simp: retried_def)
  then show ?case
  proof cases
    case 1
    with Cons.prems Cons.IH [of retry "n\<lparr>errno_of := EINTR\<rparr>"] show ?thesis by simp
  next
    case 2
    with Cons.prems Cons.IH [of "retry - 1" "n\<lparr>errno_of := EAGAIN\<rparr>"] show ?thesis
      by simp
  qed
qed

lemma send_loop_total:
  assumes "\<not> retried a \<or> count_list pre (Fail EAGAIN) = retry \<and> a = Fail EAGAIN"
    "\<forall>a \<in> set pre. retried a" "count_list pre (Fail EAGAIN) \<le> retry"
  shows "\<exists>n'. send_loop buf retry n (pre @ a # as) = Some (if \<exists>k. a = Done k then 0 else - 1, n')
    \<and> answers n' = as"
proof -
  obtain e where "send_loop buf retry n (pre @ a # as)
      = send_loop buf (retry - count_list pre (Fail EAGAIN)) (n\<lparr>errno_of := e\<rparr>) (a # as)"
    using send_loop_retries [OF assms(2, 3)] by blast
  moreover have "\<exists>n'. \<dots> = Some (if \<exists>k. a = Done k then 0 else - 1, n') \<and> answers n' = as"
    using assms(1) by (cases a) (auto simp: retried_def Let_def)
  ultimately show ?thesis by simp
qed

text \<open>The answer that decides a call: success, an error that is not retried, or one \<open>EAGAIN\<close> too many.\<close>

definition decides :: "io list \<Rightarrow> io \<Rightarrow> bool" where
  "decides pre a \<longleftrightarrow> (\<forall>b \<in> set pre. retried b) \<and> count_list pre (Fail EAGAIN) \<le> 10
     \<and> (\<not> retried a \<or> count_list pre (Fail EAGAIN) = 10 \<and> a = Fail EAGAIN)"

lemma mtk_daemon_send_Done:
  "answers n = Done k # as \<Longrightarrow>
    mtk_daemon_send buf n = Some (0, n\<lparr>answers := as, delivered := delivered n @ [buf]\<rparr>)"
  by (simp add: mtk_daemon_send_def)

section \<open>Texts\<close>

definition ucs2 :: "byte list \<Rightarrow> byte list" where
  "ucs2 s = [254, 255] @ concat (map (\<lambda>c. [0, c]) s)"

definition hex :: "byte list \<Rightarrow> byte list" where
  "hex bs = concat (map (\<lambda>b. [hex_digit (uint b div 16 mod 16), hex_digit (uint b mod 16)]) bs)"

definition unhex_digit :: "byte \<Rightarrow> int" where
  "unhex_digit c = (if uint c < 65 then uint c - 48 else uint c - 55)"

fun unhex :: "byte list \<Rightarrow> byte list" where
  "unhex (a # b # cs) = of_int (16 * unhex_digit a + unhex_digit b) # unhex cs"
| "unhex _ = []"

lemma uint_hex_digit:
  assumes "0 \<le> d" "d < 16"
  shows "uint (hex_digit d) = (if d \<le> 9 then d + 48 else d + 55)"
  using uint_byte [of "d + 48"] uint_byte [of "d - 10 + 65"] assms
  by (simp add: hex_digit_def del: of_int_add of_int_diff)

lemma unhex_hex_digit: "0 \<le> d \<Longrightarrow> d < 16 \<Longrightarrow> unhex_digit (hex_digit d) = d"
  by (simp add: unhex_digit_def uint_hex_digit)

lemma byte_halves: "0 \<le> u \<Longrightarrow> u < 256 \<Longrightarrow> 16 * (u div 16 mod 16) + u mod 16 = (u :: int)"
  by simp

lemma unhex_hex: "unhex (hex bs) = bs"
proof (induction bs)
  case Nil
  show ?case by (simp add: hex_def)
next
  case (Cons b bs)
  have "0 \<le> uint b" "uint b < 256" using uint_lt2p [of b] by simp_all
  from byte_halves [OF this]
  have "of_int (16 * (uint b div 16 mod 16) + uint b mod 16) = b"
    by (simp only: word_of_int_uint)
  with Cons show ?case by (simp add: hex_def unhex_hex_digit del: of_int_add of_int_mult)
qed

lemma length_ucs2 [simp]: "length (ucs2 s) = 2 * length s + 2"
  by (induction s) (simp_all add: ucs2_def)

lemma length_hex_text [simp]: "length (hex bs) = 2 * length bs"
  by (induction bs) (simp_all add: hex_def)

lemma wr_append: "wr (pre @ x # post) (int (length pre)) v = Some (pre @ v # post)"
  by (simp add: wr_def)

lemma ucs2_chars_run:
  assumes "0 \<notin> set s" "length post = 2 * length s + k"
  shows "ucs2_chars (pre @ post) (int (length pre)) (s @ 0 # behind)
    = Some (pre @ concat (map (\<lambda>c. [0, c]) s) @ drop (2 * length s) post, int (length pre + 2 * length s))"
  using assms
proof (induction s arbitrary: pre post)
  case Nil
  then show ?case by simp
next
  case (Cons c s)
  then obtain x y post' where post: "post = x # y # post'"
    by (cases post; cases "tl post") auto
  have "ucs2_chars ((pre @ [0, c]) @ post') (int (length (pre @ [0, c]))) (s @ 0 # behind)
    = Some ((pre @ [0, c]) @ concat (map (\<lambda>c. [0, c]) s) @ drop (2 * length s) post',
        int (length (pre @ [0, c]) + 2 * length s))"
    using Cons.prems by (intro Cons.IH) (auto simp: post)
  then show ?case
    using Cons.prems wr_append [of pre x "y # post'" 0] wr_append [of "pre @ [0]" y post' c]
    by (simp add: post add.commute)
qed

lemma asc_str_to_usc2_str_run:
  assumes "0 \<notin> set s" "length out = 2 * length s + 5 + k"
  shows "\<exists>out'. asc_str_to_usc2_str out (s @ 0 # behind) = Some (out', 2 * int (length s) + 2)
    \<and> length out' = length out \<and> take (2 * length s + 2) out' = ucs2 s"
proof -
  obtain x y post where out: "out = x # y # post" and post: "length post = 2 * length s + (3 + k)"
    using assms(2) by (cases out; cases "tl out") auto
  have *: "ucs2_chars ([254, 255] @ post) (int (length [254, 255 :: byte])) (s @ 0 # behind)
    = Some (ucs2 s @ drop (2 * length s) post, int (2 + 2 * length s))"
    using ucs2_chars_run [OF assms(1) post, of "[254, 255]"] by (simp add: ucs2_def)
  show ?thesis
    using * post by (simp add: asc_str_to_usc2_str_def out wr_def nat_add_distrib nat_mult_distrib)
qed

lemma hex_loop_run:
  assumes "length post = 2 * length bs + k"
  shows "hex_loop (hex pre @ post) (pre @ bs @ behind) (int (length pre)) (length bs)
    = Some (hex (pre @ bs) @ drop (2 * length bs) post)"
  using assms
proof (induction bs arbitrary: pre post)
  case Nil
  then show ?case by simp
next
  case (Cons b bs)
  then obtain x y post' where post: "post = x # y # post'"
    by (cases post; cases "tl post") auto
  define u v where uv: "u = hex_digit (uint b div 16 mod 16)" "v = hex_digit (uint b mod 16)"
  have h: "hex (pre @ [b]) = hex pre @ [u, v]" by (simp add: hex_def uv)
  have "hex_loop (hex (pre @ [b]) @ post') ((pre @ [b]) @ bs @ behind) (int (length (pre @ [b]))) (length bs)
    = Some (hex ((pre @ [b]) @ bs) @ drop (2 * length bs) post')"
    using Cons.prems by (intro Cons.IH) (simp add: post)
  moreover have "rd (pre @ b # bs @ behind) (int (length pre)) = Some b" by (simp add: rd_def)
  ultimately show ?case
    using wr_append [of "hex pre" x "y # post'" u] wr_append [of "hex pre @ [u]" y post' v]
    by (simp add: post h uv [symmetric] mult.commute add.commute)
qed

lemma raw_data_to_hex_string_run:
  assumes "2 * length bs \<le> length out" "n = int (length bs)"
  shows "raw_data_to_hex_string out (bs @ behind) n = Some (hex bs @ drop (2 * length bs) out)"
proof -
  obtain k where "length out = 2 * length bs + k" using assms(1) le_Suc_ex by blast
  from hex_loop_run [OF this, of "[]" behind] show ?thesis
    by (simp add: raw_data_to_hex_string_def hex_def assms(2))
qed

section \<open>Properties\<close>

text \<open>
  What the daemon is to be asked for: the first connection to a Wi-Fi network also asks for a
  position from the network.
\<close>

fun asked :: "network \<Rightarrow> request \<Rightarrow> request list" where
  "asked w (Network_state c t r x) =
    (if nw_connected w = 0 \<and> c = 1 \<and> t = nw_wifi then [Nlp_location] else []) @ [Network_state c t r x]"
| "asked w q = [q]"

lemma decode_datagram:
  "request_ok sz q \<Longrightarrow> length (request_bytes q) \<le> 1024 \<Longrightarrow> decode sz (datagram (request_bytes q)) = Some q"
  by (rule decode_request) (simp_all add: datagram_def)

lemma decode_Nlp_location: "decode sz (datagram (le4 MNL_CMD_GPS_NLP_LOCATION_REQ)) = Some Nlp_location"
  using decode_datagram [of sz Nlp_location] by simp



text \<open>C27.
  Sending retries while the call is interrupted and up to ten times while the socket is
  full.  The first answer that is not retried decides: the result is 0 and the datagram is
  delivered exactly once, or the result is -1 and nothing is delivered.
\<close>

theorem mtk_daemon_send_result:
  assumes "answers n = pre @ a # as" "decides pre a"
  shows "\<exists>r n'. mtk_daemon_send buf n = Some (r, n') \<and> answers n' = as
    \<and> (case a of Done _ \<Rightarrow> r = 0 \<and> delivered n' = delivered n @ [buf]
         | Fail _ \<Rightarrow> r = - 1 \<and> delivered n' = delivered n)"
proof -
  obtain n' where n': "mtk_daemon_send buf n = Some (if \<exists>k. a = Done k then 0 else - 1, n')" "answers n' = as"
    using assms send_loop_total [of a pre 10 buf n as] by (auto simp: mtk_daemon_send_def decides_def)
  then show ?thesis
    using send_loop_result [of buf 10 n "answers n" _ n'] by (cases a) (auto simp: mtk_daemon_send_def)
qed

theorem mtk_daemon_send_result_witness:
  "\<exists>r n'. mtk_daemon_send [3] \<lparr>answers = [Fail EINTR, Fail EAGAIN, Done 1], errno_of = EINTR, delivered = []\<rparr> = Some (r, n')
    \<and> answers n' = [] \<and> r = 0 \<and> delivered n' = [[3]]"
  using mtk_daemon_send_result [of "\<lparr>answers = [Fail EINTR, Fail EAGAIN, Done 1], errno_of = EINTR, delivered = []\<rparr>"
      "[Fail EINTR, Fail EAGAIN]" "Done 1" "[]" "[3]"]
  by (simp add: decides_def retried_def)



section \<open>Departures\<close>

text \<open>Nothing bounds a text by the room left in the buffer.\<close>

lemma apn_overruns_buffer:
  "1015 < length apn \<Longrightarrow> agps_data_conn_open apn n = None"
  unfolding agps_data_conn_open_def put_simps emit_bind by (simp add: emit_BUFF)

text \<open>
  The number of certificates is used as their size in bytes: whatever they are, only so many
  bytes of the first structure reach the daemon.
\<close>

lemma install_certificates_cut:
  assumes "take k certificates = take k others" "k \<le> length certificates" "k \<le> length others" "k \<le> 1016"
  shows "agps_install_certificates certificates k n = agps_install_certificates others k n"
  using assms by (simp add: agps_install_certificates_def buff_put_struct_def get_at_def wrap32_id)

text \<open>The end of the UCS-2 text is written one byte too far: the byte behind the text stays.\<close>

lemma ucs2_not_terminated:
  "asc_str_to_usc2_str [9, 9, 9, 9, 9, 9, 9] [65, 0] = Some ([254, 255, 0, 65, 9, 0, 0], 4)"
  by (simp add: asc_str_to_usc2_str_def wr_def)

end
