(* ===== verification/Nmea.thy ===== *)
theory Nmea
  imports Prelude Complex_Main
begin

text \<open>
  The text layer of the GPS HAL, \<^verbatim>\<open>hal/gps/hal/gps_mtk_aosp.c\<close>: the tokenizer of NMEA
  sentences and the conversion of fields to numbers and coordinates. A pointer is an offset
  into the memory object it points to, and a read outside the object is the value \<open>None\<close>. A
  \<^verbatim>\<open>double\<close> is modelled by the rational number it stands for; rounding is not modelled.
\<close>

section \<open>Tokens\<close>

text \<open>The memory a token points into and the offsets of its first character and of its end.\<close>

record token =
  obj :: "char list"
  tok_p :: nat
  tok_end :: nat

definition MAX_NMEA_TOKENS :: nat where
  "MAX_NMEA_TOKENS = 24"

text \<open>The first comma from \<open>i\<close> on, or the end.\<close>

definition comma_or_end :: "char list \<Rightarrow> nat \<Rightarrow> nat \<Rightarrow> nat" where
  "comma_or_end m i e = i + length (takeWhile (\<lambda>c. c \<noteq> CHR '','') (take (e - i) (drop i m)))"

lemma comma_or_end_ge: "i \<le> comma_or_end m i e"
  by (simp add: comma_or_end_def)

lemma comma_or_end_le: "i \<le> e \<Longrightarrow> comma_or_end m i e \<le> e"
  using length_takeWhile_le [of "\<lambda>c. c \<noteq> CHR '',''" "take (e - i) (drop i m)"]
  by (simp add: comma_or_end_def le_diff_conv2 add.commute)

function nmea_tokens :: "char list \<Rightarrow> nat \<Rightarrow> nat \<Rightarrow> token list \<Rightarrow> token list" where
  "nmea_tokens m i e ts =
     (if i < e then
        let q = comma_or_end m i e;
            ts' = (if q \<ge> i \<and> length ts < MAX_NMEA_TOKENS
                   then ts @ [\<lparr>obj = m, tok_p = i, tok_end = q\<rparr>] else ts)
        in nmea_tokens m (if q < e then q + 1 else q) e ts'
      else ts)"
  by pat_completeness auto

termination
  by (relation "measure (\<lambda>(m, i, e, ts). e - i)")
    (auto simp: comma_or_end_ge le_imp_less_Suc diff_less_mono2 split: if_splits)

declare nmea_tokens.simps [simp del]

text \<open>
  An optional dollar sign in front and the end of the line and the checksum behind are left
  out; the checksum is not compared with the text.
\<close>

definition nmea_bounds :: "char list \<Rightarrow> nat \<Rightarrow> nat \<Rightarrow> nat \<times> nat" where
  "nmea_bounds m i e =
     (let i1 = (if i < e \<and> m ! i = CHR ''$'' then i + 1 else i);
          e1 = (if e > i1 \<and> m ! (e - 1) = CHR 0x0A then
                  if e - 1 > i1 \<and> m ! (e - 2) = CHR 0x0D then e - 2 else e - 1
                else e);
          e2 = (if e1 \<ge> i1 + 3 \<and> m ! (e1 - 3) = CHR ''*'' then e1 - 3 else e1)
      in (i1, e2))"

definition nmea_tokenizer_init :: "char list \<Rightarrow> nat \<Rightarrow> nat \<Rightarrow> token list option" where
  "nmea_tokenizer_init m i e =
     (if e > length m then None
      else let (i1, e1) = nmea_bounds m i e in Some (nmea_tokens m i1 e1 []))"

text \<open>A missing token is the empty string literal, whose one byte is the terminator.\<close>

definition dummy :: token where
  "dummy = \<lparr>obj = [CHR 0x00], tok_p = 0, tok_end = 0\<rparr>"

definition nmea_tokenizer_get :: "token list \<Rightarrow> int \<Rightarrow> token" where
  "nmea_tokenizer_get ts i = (if i < 0 \<or> i \<ge> int (length ts) then dummy else ts ! nat i)"

section \<open>Integers\<close>

text \<open>The loop over the digits; the accumulator is a 32-bit integer.\<close>

fun str2int_loop :: "char list \<Rightarrow> nat \<Rightarrow> nat \<Rightarrow> nat \<Rightarrow> int \<Rightarrow> int \<Rightarrow> int option" where
  "str2int_loop m i e 0 sign result = Some (wrap32 (sign * result))"
| "str2int_loop m i e (Suc len) sign result =
     (if i \<ge> e then Some (-1)
      else do {
        ch \<leftarrow> rd m (int i);
        let c = int (of_char ch) - 48;
        if c < 0 \<or> c \<ge> 10 then Some (-1)
        else str2int_loop m (i + 1) e len sign (wrap32 (result * 10 + c))
      })"

text \<open>The first character is read also when the field is empty.\<close>

definition str2int :: "char list \<Rightarrow> nat \<Rightarrow> nat \<Rightarrow> int option" where
  "str2int m i e = do {
     ch \<leftarrow> rd m (int i);
     if ch = CHR ''-'' then str2int_loop m (i + 1) e (e - (i + 1)) (-1) 0
     else str2int_loop m i e (e - i) 1 0
   }"

section \<open>Decimal fractions\<close>

definition is_digit :: "char \<Rightarrow> bool" where
  "is_digit c \<longleftrightarrow> 48 \<le> (of_char c :: nat) \<and> (of_char c :: nat) < 58"

definition take_sign :: "string \<Rightarrow> bool \<times> string" where
  "take_sign s = (case s of
       c # t \<Rightarrow> if c = CHR ''-'' then (True, t) else if c = CHR ''+'' then (False, t) else (False, s)
     | [] \<Rightarrow> (False, []))"

definition exponent_factor :: "string \<Rightarrow> rat" where
  "exponent_factor s = (case s of
       c # t \<Rightarrow>
         if c = CHR ''e'' \<or> c = CHR ''E'' then
           let (neg, u) = take_sign t; n = digits_value (takeWhile is_digit u)
           in if takeWhile is_digit u = [] then 1 else if neg then 1 / 10 ^ n else 10 ^ n
         else 1
     | [] \<Rightarrow> 1)"

text \<open>
  \<^verbatim>\<open>strtod\<close> on decimal notation: the longest prefix that is a number, 0 if there is none. The
  words for infinity and not-a-number and hexadecimal notation do not occur in a sentence and are
  not distinguished.
\<close>

definition strtod :: "string \<Rightarrow> rat" where
  "strtod s =
     (let (neg, t) = take_sign (dropWhile (\<lambda>c. c = CHR '' '' \<or> 9 \<le> (of_char c :: nat) \<and> (of_char c :: nat) \<le> 13) s);
          ip = takeWhile is_digit t; r = dropWhile is_digit t;
          (fp, r') = (case r of
              c # u \<Rightarrow> if c = CHR ''.'' then (takeWhile is_digit u, dropWhile is_digit u) else ([], r)
            | [] \<Rightarrow> ([], r));
          mantissa = of_nat (digits_value ip) + of_nat (digits_value fp) / 10 ^ length fp
      in if ip = [] \<and> fp = [] then 0
         else (if neg then -1 else 1) * mantissa * exponent_factor r')"

text \<open>A field of sixteen or more characters reads as 0.\<close>

definition str2float :: "char list \<Rightarrow> nat \<Rightarrow> nat \<Rightarrow> rat option" where
  "str2float m i e =
     (let len = e - i
      in if len \<ge> 16 then Some 0
         else if i + len > length m then None
         else Some (strtod (take len (drop i m))))"

text \<open>Conversion of a \<^verbatim>\<open>double\<close> to \<^verbatim>\<open>int\<close> truncates.\<close>

definition trunc :: "rat \<Rightarrow> int" where
  "trunc x = (if x \<ge> 0 then \<lfloor>x\<rfloor> else \<lceil>x\<rceil>)"

definition convert_from_hhmm :: "token \<Rightarrow> rat option" where
  "convert_from_hhmm tok = do {
     val \<leftarrow> str2float (obj tok) (tok_p tok) (tok_end tok);
     let degrees = trunc (of_int \<lfloor>val\<rfloor> / 100);
     let minutes = val - of_int degrees * 100;
     Some (of_int degrees + minutes / 60)
   }"

section \<open>Properties of the tokenizer\<close>

text \<open>The characters of a token.\<close>

definition tok_text :: "token \<Rightarrow> string" where
  "tok_text t = take (tok_end t - tok_p t) (drop (tok_p t) (obj t))"

text \<open>The specification: the fields between commas; nothing follows a comma at the end.\<close>

fun csv :: "string \<Rightarrow> string \<Rightarrow> string list" where
  "csv acc [] = (if acc = [] then [] else [acc])"
| "csv acc (c # s) = (if c = CHR '','' then acc # csv [] s else csv (acc @ [c]) s)"

lemma csv_takeWhile:
  "csv acc s = (let w = takeWhile (\<lambda>c. c \<noteq> CHR '','') s
                in if acc @ s = [] then [] else (acc @ w) # csv [] (drop (Suc (length w)) s))"
  by (induction s arbitrary: acc) (auto simp: Let_def)

definition slice :: "char list \<Rightarrow> nat \<Rightarrow> nat \<Rightarrow> string" where
  "slice m i e = take (e - i) (drop i m)"

lemma slice_csv:
  assumes "i < e" "e \<le> length m"
  shows "csv [] (slice m i e) =
    slice m i (comma_or_end m i e) # csv [] (slice m (comma_or_end m i e + 1) e)"
proof -
  define s where "s = slice m i e"
  define w where "w = takeWhile (\<lambda>c. c \<noteq> CHR '','') s"
  have q: "comma_or_end m i e = i + length w"
    by (simp add: comma_or_end_def w_def s_def slice_def)
  have "s \<noteq> []" using assms by (simp add: s_def slice_def)
  have w: "take (length w) s = w"
    by (simp add: w_def takeWhile_eq_take [symmetric])
  have "length w \<le> e - i"
    using length_takeWhile_le [of "\<lambda>c. c \<noteq> CHR '',''" s] by (simp add: w_def s_def slice_def)
  then have 1: "slice m i (i + length w) = w"
    using w by (simp add: slice_def s_def min_def)
  have 2: "slice m (i + length w + 1) e = drop (Suc (length w)) s"
    by (simp add: slice_def s_def drop_take add.commute)
  have "csv [] s = w # csv [] (drop (Suc (length w)) s)"
    using csv_takeWhile [of "[]" s] \<open>s \<noteq> []\<close> by (simp add: w_def Let_def)
  then show ?thesis
    unfolding q 1 2 s_def .
qed

lemma slice_past: "csv [] (slice m (comma_or_end m i e + 1) e) = []" if "\<not> comma_or_end m i e < e"
  using that by (simp add: slice_def)

lemma nmea_tokens_csv:
  assumes "e \<le> length m"
  shows "map tok_text (nmea_tokens m i e ts) =
    map tok_text ts @ take (MAX_NMEA_TOKENS - length ts) (csv [] (slice m i e))"
  using assms
proof (induction m i e ts rule: nmea_tokens.induct)
  case (1 m i e ts)
  show ?case
  proof (cases "i < e")
    case False
    then show ?thesis by (subst nmea_tokens.simps) (simp add: slice_def)
  next
    case True
    define q where "q = comma_or_end m i e"
    define ts' where "ts' = (if q \<ge> i \<and> length ts < MAX_NMEA_TOKENS
        then ts @ [\<lparr>obj = m, tok_p = i, tok_end = q\<rparr>] else ts)"
    have IH: "map tok_text (nmea_tokens m (if q < e then q + 1 else q) e ts') =
        map tok_text ts' @ take (MAX_NMEA_TOKENS - length ts') (csv [] (slice m (if q < e then q + 1 else q) e))"
      by (rule 1(1) [OF True q_def ts'_def 1(2)])
    have rest: "csv [] (slice m (if q < e then q + 1 else q) e) = csv [] (slice m (q + 1) e)"
      using slice_past [of m i e] by (auto simp: q_def slice_def)
    have f: "csv [] (slice m i e) = slice m i q # csv [] (slice m (q + 1) e)"
      unfolding q_def by (rule slice_csv [OF True 1(2)])
    have unf: "nmea_tokens m i e ts = nmea_tokens m (if q < e then q + 1 else q) e ts'"
      using True by (subst nmea_tokens.simps) (simp add: Let_def q_def ts'_def)
    show ?thesis
      unfolding unf IH rest f
      using comma_or_end_ge [of i m e]
      by (auto simp: ts'_def q_def tok_text_def slice_def take_Cons' diff_Suc split: nat.split)
  qed
qed

text \<open>Every token lies inside the sentence, and there are at most as many as the array holds.\<close>

definition inside :: "char list \<Rightarrow> nat \<Rightarrow> token \<Rightarrow> bool" where
  "inside m e t \<longleftrightarrow> obj t = m \<and> tok_p t \<le> tok_end t \<and> tok_end t \<le> e"

lemma nmea_tokens_bounds:
  "list_all (inside m e) ts \<Longrightarrow> length ts \<le> MAX_NMEA_TOKENS \<Longrightarrow>
   list_all (inside m e) (nmea_tokens m i e ts) \<and> length (nmea_tokens m i e ts) \<le> MAX_NMEA_TOKENS"
proof (induction m i e ts rule: nmea_tokens.induct)
  case (1 m i e ts)
  show ?case
  proof (cases "i < e")
    case False
    then show ?thesis using 1 by (subst (1 2) nmea_tokens.simps) simp
  next
    case True
    define q where "q = comma_or_end m i e"
    define ts' where "ts' = (if q \<ge> i \<and> length ts < MAX_NMEA_TOKENS
        then ts @ [\<lparr>obj = m, tok_p = i, tok_end = q\<rparr>] else ts)"
    have "i \<le> q" "q \<le> e"
      using True comma_or_end_ge comma_or_end_le by (simp_all add: q_def)
    then have "inside m e \<lparr>obj = m, tok_p = i, tok_end = q\<rparr>" by (simp add: inside_def)
    then have "list_all (inside m e) ts'" "length ts' \<le> MAX_NMEA_TOKENS"
      using 1(2,3) by (simp_all add: ts'_def)
    note 1(1) [OF True q_def ts'_def this]
    moreover have "nmea_tokens m i e ts = nmea_tokens m (if q < e then q + 1 else q) e ts'"
      using True by (subst nmea_tokens.simps) (simp add: Let_def q_def ts'_def)
    ultimately show ?thesis by simp
  qed
qed

text \<open>C32.
  The tokens of a sentence are its comma separated fields, at most 24 of them, taken from the text without
  the leading dollar sign, the checksum and the end of the line; every token lies inside the
  sentence, so no later access through a token can leave the buffer.
\<close>

theorem tokenizer_splits:
  assumes "e \<le> length m"
  shows "\<exists>ts. nmea_tokenizer_init m i e = Some ts \<and>
     map tok_text ts = take 24 (csv [] (slice m (fst (nmea_bounds m i e)) (snd (nmea_bounds m i e)))) \<and>
     list_all (inside m e) ts"
proof -
  define b where "b = nmea_bounds m i e"
  have b: "snd b \<le> e" by (auto simp: b_def nmea_bounds_def Let_def)
  have "list_all (inside m (snd b)) (nmea_tokens m (fst b) (snd b) [])"
    using nmea_tokens_bounds [of m "snd b" "[]" "fst b"] by simp
  then have "list_all (inside m e) (nmea_tokens m (fst b) (snd b) [])"
    using b by (auto simp: list_all_iff inside_def)
  moreover have "map tok_text (nmea_tokens m (fst b) (snd b) []) = take 24 (csv [] (slice m (fst b) (snd b)))"
    using nmea_tokens_csv [of "snd b" m "fst b" "[]"] b assms by (simp add: MAX_NMEA_TOKENS_def)
  ultimately show ?thesis
    using assms by (simp add: nmea_tokenizer_init_def b_def split_beta)
qed

theorem tokenizer_splits_witness:
  "\<exists>ts. nmea_tokenizer_init ''$GPX,,7*5A!'' 0 10 = Some ts \<and> map tok_text ts = [''GPX'', [], ''7''] \<and>
     list_all (inside ''$GPX,,7*5A!'' 10) ts"
  using tokenizer_splits [of 10 "''$GPX,,7*5A!''" 0]
  by (simp add: nmea_bounds_def slice_def)

section \<open>Properties of the numbers\<close>

lemma is_digit_digit: "d < 10 \<Longrightarrow> is_digit (digit d)"
  by (simp add: is_digit_def of_char_digit)

lemma dec_nat_digits: "\<forall>c \<in> set (dec_nat n). is_digit c"
proof (induction n rule: dec_nat.induct)
  case (1 n)
  then show ?case by (subst dec_nat.simps) (auto simp: is_digit_digit)
qed

lemma dec_nat_ne: "dec_nat n \<noteq> []"
  by (subst dec_nat.simps) simp

text \<open>The value of digits that follow a prefix of value \<open>v\<close>.\<close>

definition digits_from :: "int \<Rightarrow> string \<Rightarrow> int" where
  "digits_from v s = fold (\<lambda>c v. v * 10 + (int (of_char c) - 48)) s v"

lemma digits_from_mono: "0 \<le> v \<Longrightarrow> \<forall>c \<in> set s. is_digit c \<Longrightarrow> v \<le> digits_from v s"
proof (induction s arbitrary: v)
  case (Cons c s)
  then have "v \<le> v * 10 + (int (of_char c) - 48)" by (simp add: is_digit_def)
  moreover have "v * 10 + (int (of_char c) - 48) \<le> digits_from (v * 10 + (int (of_char c) - 48)) s"
    using Cons by (simp add: is_digit_def)
  ultimately show ?case by (simp add: digits_from_def)
qed (simp add: digits_from_def)

lemma digits_from_value: "\<forall>c \<in> set s. is_digit c \<Longrightarrow> digits_from 0 s = int (digits_value s)"
proof (induction s rule: rev_induct)
  case (snoc c s)
  then show ?case by (simp add: digits_from_def digits_value_snoc is_digit_def)
qed (simp add: digits_from_def digits_value_def)

lemma str2int_loop_digits:
  assumes "\<forall>c \<in> set s. is_digit c" "0 \<le> v" "digits_from v s \<le> 2147483647"
  shows "str2int_loop (pre @ s @ post) (length pre) (length pre + length s) (length s) sign v =
    Some (wrap32 (sign * digits_from v s))"
  using assms
proof (induction s arbitrary: pre v)
  case (Cons c s)
  define w where "w = v * 10 + (int (of_char c) - 48)"
  have c: "is_digit c" "\<forall>c \<in> set s. is_digit c" using Cons.prems by simp_all
  have w: "0 \<le> w" using c(1) Cons.prems(2) by (simp add: w_def is_digit_def)
  have df: "digits_from v (c # s) = digits_from w s" by (simp add: digits_from_def w_def)
  have "w \<le> 2147483647"
    using digits_from_mono [OF w c(2)] Cons.prems(3) df by simp
  then have "wrap32 w = w" using w by (intro wrap32_id) simp_all
  moreover have "rd (pre @ (c # s) @ post) (int (length pre)) = Some c"
    by (simp add: rd_def)
  moreover have "str2int_loop ((pre @ [c]) @ s @ post) (length (pre @ [c])) (length (pre @ [c]) + length s)
      (length s) sign w = Some (wrap32 (sign * digits_from w s))"
    by (rule Cons.IH) (use c w Cons.prems df in auto)
  ultimately show ?case
    using c(1) by (simp add: df w_def is_digit_def not_le)
qed (simp add: digits_from_def)

text \<open>C33.
  Reading an integer inverts printing it: for every number of the range of a 32-bit \<^verbatim>\<open>int\<close> but
  the least one, whose digits do not fit, the decimal text anywhere in the buffer reads back as
  the number.
\<close>

theorem str2int_dec:
  assumes "- 2147483647 \<le> n" "n \<le> 2147483647"
  shows "str2int (pre @ dec n @ post) (length pre) (length pre + length (dec n)) = Some n"
proof -
  define s where "s = dec_nat (nat \<bar>n\<bar>)"
  have s: "\<forall>c \<in> set s. is_digit c" "digits_from 0 s = \<bar>n\<bar>"
    using dec_nat_digits by (simp_all add: s_def digits_from_value digits_value_dec_nat)
  show ?thesis
  proof (cases "n < 0")
    case True
    then have d: "dec n = CHR ''-'' # s" by (simp add: dec_def s_def)
    have "str2int_loop ((pre @ [CHR ''-'']) @ s @ post) (length (pre @ [CHR ''-'']))
        (length (pre @ [CHR ''-'']) + length s) (length s) (-1) 0 = Some (wrap32 (-1 * digits_from 0 s))"
      by (rule str2int_loop_digits) (use s assms in auto)
    moreover have "wrap32 n = n" using assms by (intro wrap32_id) auto
    ultimately show ?thesis using True by (simp add: d str2int_def rd_def s(2))
  next
    case False
    then have d: "dec n = s" by (simp add: dec_def s_def)
    obtain c t where ct: "s = c # t" using dec_nat_ne [of "nat \<bar>n\<bar>"] by (cases s) (auto simp: s_def)
    with s have "c \<noteq> CHR ''-''" by (auto simp: is_digit_def)
    moreover have "str2int_loop (pre @ s @ post) (length pre) (length pre + length s) (length s) 1 0 =
        Some (wrap32 (1 * digits_from 0 s))"
      by (rule str2int_loop_digits) (use s assms in auto)
    moreover have "wrap32 (1 * digits_from 0 s) = n" using assms False by (simp add: s(2) wrap32_id)
    moreover have "rd (pre @ s @ post) (int (length pre)) = Some c" by (simp add: rd_def ct)
    ultimately show ?thesis by (simp add: d str2int_def)
  qed
qed

theorem str2int_dec_witness:
  "str2int (''$GPGSV,'' @ dec (-205) @ '',12'') 7 (7 + length (dec (-205))) = Some (-205)"
  using str2int_dec [of "-205" "''$GPGSV,''" "'',12''"] by (simp add: eval_nat_numeral)

text \<open>A larger number overflows the accumulator without notice.\<close>

theorem str2int_overflow: "str2int ''4294967297,'' 0 10 = Some 1"
  by (simp add: str2int_def rd_def numeral_eq_Suc wrap32_def)

lemma digits_value_less: "\<forall>c \<in> set s. is_digit c \<Longrightarrow> digits_value s < 10 ^ length s"
proof (induction s rule: rev_induct)
  case (snoc c s)
  then have "digits_value s + 1 \<le> 10 ^ length s" "of_char c - 48 < (10::nat)"
    by (auto simp: is_digit_def)
  then show ?case by (simp add: digits_value_snoc)
qed (simp add: digits_value_def)

lemma strtod_decimal:
  assumes "\<forall>c \<in> set ds. is_digit c" "ds \<noteq> []" "\<forall>c \<in> set fs. is_digit c"
  shows "strtod (ds @ CHR ''.'' # fs) = of_nat (digits_value ds) + of_nat (digits_value fs) / 10 ^ length fs"
proof -
  obtain c t where ds: "ds = c # t" using assms(2) by (cases ds) auto
  then have "is_digit c" using assms(1) by simp
  then have sp: "\<not> (c = CHR '' '' \<or> 9 \<le> (of_char c :: nat) \<and> (of_char c :: nat) \<le> 13)"
    and sg: "c \<noteq> CHR ''-''" "c \<noteq> CHR ''+''"
    by (auto simp: is_digit_def)
  have nd: "\<not> is_digit CHR ''.''" by (simp add: is_digit_def)
  have tw: "takeWhile is_digit (ds @ CHR ''.'' # fs) = ds" "dropWhile is_digit (ds @ CHR ''.'' # fs) = CHR ''.'' # fs"
    "takeWhile is_digit fs = fs" "dropWhile is_digit fs = []"
    using assms nd by simp_all
  have "dropWhile (\<lambda>c. c = CHR '' '' \<or> 9 \<le> (of_char c :: nat) \<and> (of_char c :: nat) \<le> 13) (ds @ CHR ''.'' # fs) =
      ds @ CHR ''.'' # fs"
    using sp by (auto simp: ds)
  moreover have "take_sign (ds @ CHR ''.'' # fs) = (False, ds @ CHR ''.'' # fs)"
    using sg by (simp add: ds take_sign_def)
  moreover have "exponent_factor [] = 1" by (simp add: exponent_factor_def)
  ultimately show ?thesis
    using assms(2) by (simp add: strtod_def Let_def tw)
qed

lemma degrees_of:
  assumes "m < 100" "0 \<le> f" "f < (1::rat)"
  shows "trunc (of_int \<lfloor>of_nat (100 * d + m) + f\<rfloor> / 100) = int d"
proof -
  have "\<lfloor>of_nat (100 * d + m) + f\<rfloor> = int (100 * d + m)"
    using assms(2,3) by (intro floor_unique) (simp_all del: of_nat_add of_nat_mult)
  moreover have "\<lfloor>(of_int (int (100 * d + m)) :: rat) / 100\<rfloor> = int d"
    using assms(1) by (intro floor_unique) (simp_all add: field_simps)
  ultimately show ?thesis by (simp add: trunc_def del: of_nat_add of_nat_mult)
qed



end
