(* ===== verification/NmeaReader.thy ===== *)
theory NmeaReader
  imports Nmea "HOL-Library.Word"
begin

text \<open>
  The NMEA reader of the GPS HAL, \<^verbatim>\<open>hal/gps/hal/gps_mtk_aosp.c\<close>: the state of the reader, the
  update of the fix and of the satellites in view, the parsing of a sentence, and the
  collection of characters into sentences, over the text layer of \<open>Nmea\<close>. The configuration is
  the one of the build: \<^verbatim>\<open>GPS_AT_COMMAND\<close> undefined. The calls to the framework are the
  events of a trace; the clock, the time zone and the sizes of the framework's satellite lists are
  parameters.
\<close>

section \<open>State\<close>

datatype fix_flag = HAS_LAT_LONG | HAS_ALTITUDE | HAS_SPEED | HAS_BEARING | HAS_ACCURACY

record gps_location =
  flags :: "fix_flag set"
  latitude :: rat
  longitude :: rat
  altitude :: rat
  speed :: rat
  bearing :: rat
  accuracy :: rat
  timestamp :: int

record sv_info =
  sv_prn :: int
  sv_snr :: rat
  sv_elevation :: int
  sv_azimuth :: int

datatype constellation = GNSS_CONSTELLATION_GPS | GNSS_CONSTELLATION_GLONASS | GNSS_CONSTELLATION_BEIDOU

record gnss_sv_info =
  svid :: int
  c_n0_dbhz :: rat
  constellation :: constellation
  gnss_elevation :: int
  gnss_azimuth :: int
  used_in_fix :: bool

definition NMEA_MAX_SIZE :: nat where
  "NMEA_MAX_SIZE = 128"

definition NMEA_MAX_SV_INFO :: int where
  "NMEA_MAX_SV_INFO = 4"

text \<open>The reader with the globals it uses: the satellites used in the fix, the end tag.\<close>

record nmea_reader =
  pos :: int
  overflow :: bool
  utc_year :: int
  utc_mon :: int
  utc_day :: int
  utc_diff :: int
  fix_loc :: gps_location
  fix_mode :: int
  sv_count :: int
  gps_num_svs :: int
  gps_sv_list :: "sv_info list"
  used_in_fix_mask :: "32 word"
  almanac_mask :: "32 word"
  ephemeris_mask :: "32 word"
  gnss_num_svs :: int
  gnss_sv_list :: "gnss_sv_info list"
  in_buf :: "char list"
  sv_used_in_fix :: "int list"
  gps_nmea_end_tag :: bool

text \<open>
  The environment: \<^verbatim>\<open>GPS_MAX_SVS\<close> and \<^verbatim>\<open>GNSS_MAX_SVS\<close> of the framework, the current date in UTC,
  \<^verbatim>\<open>mktime\<close> of a broken-down local time, the offset from UTC at a time, the mode of the HAL, the
  property that enables the log, and whether navigation is started.
\<close>

record nmea_env =
  GPS_MAX_SVS :: nat
  GNSS_MAX_SVS :: nat
  utc_date :: "int \<times> int \<times> int"
  mktime :: "int \<times> int \<times> int \<times> int \<times> int \<times> int \<Rightarrow> int"
  gmtoff :: "int \<Rightarrow> int"
  gps_mode :: int
  get_prop :: bool
  nav_started :: int

text \<open>What the HAL keeps of the last fix for the network location.\<close>

record nlp_context =
  nlp_latitude :: rat
  nlp_longitude :: rat
  nlp_accuracy :: rat
  nlp_type :: int
  nlp_started :: int
  nlp_sec :: int
  nlp_nsec :: int

datatype nmea_event =
    LogWrite rat rat
  | LocationCb gps_location
  | UpdateLocation nlp_context
  | GnssSvStatusCb int "gnss_sv_info list"
  | SvStatusCb int "sv_info list" "32 word"
  | NmeaCb int string

definition LOC_FIXED :: "nmea_reader \<Rightarrow> bool" where
  "LOC_FIXED r \<longleftrightarrow> fix_mode r = 2 \<or> fix_mode r = 3"

definition no_location :: gps_location where
  "no_location = \<lparr>flags = {}, latitude = 0, longitude = 0, altitude = 0, speed = 0, bearing = 0,
     accuracy = 0, timestamp = 0\<rparr>"

definition no_sv :: sv_info where
  "no_sv = \<lparr>sv_prn = 0, sv_snr = 0, sv_elevation = 0, sv_azimuth = 0\<rparr>"

definition no_gnss_sv :: "constellation \<Rightarrow> gnss_sv_info" where
  "no_gnss_sv zero = \<lparr>svid = 0, c_n0_dbhz = 0, constellation = zero, gnss_elevation = 0, gnss_azimuth = 0,
     used_in_fix = False\<rparr>"

text \<open>
  Initialisation; \<open>diff\<close> is what \<^verbatim>\<open>nmea_reader_update_utc_diff\<close> computes from the clock. The
  globals are left as they are.
\<close>

definition nmea_reader_init :: "nmea_env \<Rightarrow> constellation \<Rightarrow> int \<Rightarrow> int list \<Rightarrow> bool \<Rightarrow> nmea_reader" where
  "nmea_reader_init env zero diff used tag =
     \<lparr>pos = 0, overflow = False, utc_year = -1, utc_mon = -1, utc_day = -1, utc_diff = diff,
      fix_loc = no_location, fix_mode = 0, sv_count = 0,
      gps_num_svs = 0, gps_sv_list = replicate (GPS_MAX_SVS env) no_sv,
      used_in_fix_mask = 0, almanac_mask = 0, ephemeris_mask = 0,
      gnss_num_svs = 0, gnss_sv_list = replicate (GNSS_MAX_SVS env) (no_gnss_sv zero),
      in_buf = replicate (NMEA_MAX_SIZE + 1) (CHR 0x00), sv_used_in_fix = used, gps_nmea_end_tag = tag\<rparr>"

text \<open>Registering callbacks clears what was collected; unregistering (no callbacks) does nothing.\<close>

definition nmea_reader_set_callback :: "nmea_reader \<Rightarrow> bool \<Rightarrow> nmea_reader" where
  "nmea_reader_set_callback r cbs =
     (if \<not> cbs then r
      else r\<lparr>fix_loc := (fix_loc r)\<lparr>flags := {}\<rparr>, sv_count := 0, gps_num_svs := 0, gnss_num_svs := 0\<rparr>)"

section \<open>The fix\<close>

definition tok_int :: "token \<Rightarrow> int option" where
  "tok_int t = str2int (obj t) (tok_p t) (tok_end t)"

definition tok_float :: "token \<Rightarrow> rat option" where
  "tok_float t = str2float (obj t) (tok_p t) (tok_end t)"

text \<open>The first character at a token, whatever its length.\<close>

definition tok_char :: "token \<Rightarrow> char option" where
  "tok_char t = rd (obj t) (int (tok_p t))"

text \<open>The first component of each update is the result code, which the parser does not use.\<close>

definition nmea_reader_update_time :: "nmea_env \<Rightarrow> nmea_reader \<Rightarrow> token \<Rightarrow> (int \<times> nmea_reader) option" where
  "nmea_reader_update_time env r tok =
     (if tok_p tok + 6 > tok_end tok then Some (-1, r)
      else let (y, mo, d) = utc_date env;
               r1 = (if utc_year r < 0 then r\<lparr>utc_year := y, utc_mon := mo, utc_day := d\<rparr> else r)
      in do {
        hour \<leftarrow> str2int (obj tok) (tok_p tok) (tok_p tok + 2);
        minute \<leftarrow> str2int (obj tok) (tok_p tok + 2) (tok_p tok + 4);
        seconds \<leftarrow> str2float (obj tok) (tok_p tok + 4) (tok_end tok);
        let t = mktime env (utc_year r1 - 1900, utc_mon r1 - 1, utc_day r1, hour, minute, trunc seconds);
        Some (0, r1\<lparr>fix_loc := (fix_loc r1)\<lparr>timestamp := (t + gmtoff env t) * 1000\<rparr>\<rparr>)
      })"

definition nmea_reader_update_date ::
  "nmea_env \<Rightarrow> nmea_reader \<Rightarrow> token \<Rightarrow> token \<Rightarrow> (int \<times> nmea_reader) option" where
  "nmea_reader_update_date env r date time =
     (if tok_p date + 6 \<noteq> tok_end date then Some (-1, r)
      else do {
        day \<leftarrow> str2int (obj date) (tok_p date) (tok_p date + 2);
        mon \<leftarrow> str2int (obj date) (tok_p date + 2) (tok_p date + 4);
        yy \<leftarrow> str2int (obj date) (tok_p date + 4) (tok_p date + 6);
        let year = yy + 2000;
        if day < 0 \<or> mon < 0 \<or> year < 0 then Some (-1, r)
        else nmea_reader_update_time env (r\<lparr>utc_year := year, utc_mon := mon, utc_day := day\<rparr>) time
      })"

definition nmea_reader_update_latlong ::
  "nmea_reader \<Rightarrow> token \<Rightarrow> char \<Rightarrow> token \<Rightarrow> char \<Rightarrow> (int \<times> nmea_reader) option" where
  "nmea_reader_update_latlong r lat_tok latitudeHemi lon_tok longitudeHemi =
     (if tok_p lat_tok + 6 > tok_end lat_tok then Some (-1, r)
      else do {
        lat0 \<leftarrow> convert_from_hhmm lat_tok;
        let lat = (if latitudeHemi = CHR ''S'' then - lat0 else lat0);
        if tok_p lon_tok + 6 > tok_end lon_tok then Some (-1, r)
        else do {
          lon0 \<leftarrow> convert_from_hhmm lon_tok;
          let lon = (if longitudeHemi = CHR ''W'' then - lon0 else lon0);
          Some (0, r\<lparr>fix_loc := (fix_loc r)\<lparr>flags := insert HAS_LAT_LONG (flags (fix_loc r)),
                                            latitude := lat, longitude := lon\<rparr>\<rparr>)
        }
      })"

definition nmea_reader_update_altitude :: "nmea_reader \<Rightarrow> token \<Rightarrow> (int \<times> nmea_reader) option" where
  "nmea_reader_update_altitude r tok =
     (if tok_p tok \<ge> tok_end tok then Some (-1, r)
      else do {
        x \<leftarrow> tok_float tok;
        Some (0, r\<lparr>fix_loc := (fix_loc r)\<lparr>flags := insert HAS_ALTITUDE (flags (fix_loc r)), altitude := x\<rparr>\<rparr>)
      })"

definition nmea_reader_update_bearing :: "nmea_reader \<Rightarrow> token \<Rightarrow> (int \<times> nmea_reader) option" where
  "nmea_reader_update_bearing r tok =
     (if tok_p tok \<ge> tok_end tok then Some (-1, r)
      else do {
        x \<leftarrow> tok_float tok;
        Some (0, r\<lparr>fix_loc := (fix_loc r)\<lparr>flags := insert HAS_BEARING (flags (fix_loc r)), bearing := x\<rparr>\<rparr>)
      })"

text \<open>From knots to metres per second.\<close>

definition nmea_reader_update_speed :: "nmea_reader \<Rightarrow> token \<Rightarrow> (int \<times> nmea_reader) option" where
  "nmea_reader_update_speed r tok =
     (if tok_p tok \<ge> tok_end tok then Some (-1, r)
      else do {
        x \<leftarrow> tok_float tok;
        Some (0, r\<lparr>fix_loc := (fix_loc r)\<lparr>flags := insert HAS_SPEED (flags (fix_loc r)),
                                         speed := x / (1942795467 / 1000000000)\<rparr>\<rparr>)
      })"

definition nmea_reader_update_accuracy :: "nmea_reader \<Rightarrow> token \<Rightarrow> (int \<times> nmea_reader) option" where
  "nmea_reader_update_accuracy r tok =
     (if tok_p tok \<ge> tok_end tok then Some (-1, r)
      else do {
        x \<leftarrow> tok_float tok;
        Some (0, r\<lparr>fix_loc := (fix_loc r)\<lparr>flags := insert HAS_ACCURACY (flags (fix_loc r)), accuracy := x\<rparr>\<rparr>)
      })"

section \<open>Satellites in view\<close>

definition nmea_reader_update_sv_status_gps ::
  "nmea_env \<Rightarrow> nmea_reader \<Rightarrow> int \<Rightarrow> token \<Rightarrow> token \<Rightarrow> token \<Rightarrow> nmea_reader option" where
  "nmea_reader_update_sv_status_gps env r prn ele azi snr =
     (if prn \<le> 0 \<or> (prn < 65 \<and> prn > int (GPS_MAX_SVS env)) \<or> prn > 96 \<or> sv_count r \<ge> int (GPS_MAX_SVS env)
      then Some r
      else let sv_index = wrap32 (sv_count r + gps_num_svs r)
      in if int (GPS_MAX_SVS env) \<le> sv_index then Some r
      else do {
        s \<leftarrow> tok_float snr;
        e \<leftarrow> tok_int ele;
        a \<leftarrow> tok_int azi;
        svs \<leftarrow> wr (gps_sv_list r) sv_index \<lparr>sv_prn = prn, sv_snr = s, sv_elevation = e, sv_azimuth = a\<rparr>;
        Some (r\<lparr>gps_sv_list := svs, sv_count := sv_count r + 1\<rparr>)
      })"

definition constellation_of :: "int \<Rightarrow> constellation" where
  "constellation_of prn =
     (if prn < 33 then GNSS_CONSTELLATION_GPS
      else if prn > 200 then GNSS_CONSTELLATION_BEIDOU else GNSS_CONSTELLATION_GLONASS)"

definition nmea_reader_update_sv_status_gnss ::
  "nmea_env \<Rightarrow> nmea_reader \<Rightarrow> int \<Rightarrow> token \<Rightarrow> token \<Rightarrow> token \<Rightarrow> nmea_reader option" where
  "nmea_reader_update_sv_status_gnss env r prn ele azi snr =
     (if prn \<le> 0 \<or> (prn < 65 \<and> prn > int (GPS_MAX_SVS env)) \<or> (prn > 96 \<and> prn < 200) \<or> prn > 232 \<or>
         sv_count r \<ge> int (GNSS_MAX_SVS env)
      then Some r
      else let sv_index = wrap32 (sv_count r + gnss_num_svs r)
      in if int (GNSS_MAX_SVS env) \<le> sv_index then Some r
      else do {
        s \<leftarrow> tok_float snr;
        e \<leftarrow> tok_int ele;
        a \<leftarrow> tok_int azi;
        u \<leftarrow> rd (sv_used_in_fix r) prn;
        svs \<leftarrow> wr (gnss_sv_list r) sv_index
          \<lparr>svid = prn, c_n0_dbhz = s, constellation = constellation_of prn, gnss_elevation = e,
           gnss_azimuth = a, used_in_fix = (u = 1)\<rparr>;
        Some (r\<lparr>gnss_sv_list := svs, sv_count := sv_count r + 1\<rparr>)
      })"

section \<open>Sentences\<close>

text \<open>\<^verbatim>\<open>memcmp\<close> with a literal.\<close>

definition mem_is :: "token \<Rightarrow> nat \<Rightarrow> string \<Rightarrow> bool option" where
  "mem_is t off s =
     (if tok_p t + off + length s > length (obj t) then None
      else Some (take (length s) (drop (tok_p t + off) (obj t)) = s))"

text \<open>The satellites of a GSA sentence in the mode for several constellations.\<close>

fun gsa_used :: "bool \<Rightarrow> token list \<Rightarrow> nat list \<Rightarrow> nmea_reader \<Rightarrow> nmea_reader option" where
  "gsa_used bds tzer [] r = Some r"
| "gsa_used bds tzer (idx # is) r =
     (let tok = nmea_tokenizer_get tzer (int idx + 3)
      in if tok_p tok = tok_end tok then Some r
         else do {
           n \<leftarrow> tok_int tok;
           let sate_id = (if bds then wrap32 (n + 200) else n);
           if 1 \<le> sate_id \<and> sate_id \<le> 32 \<or> 65 \<le> sate_id \<and> sate_id \<le> 96 \<or> 201 \<le> sate_id \<and> sate_id \<le> 232 then do {
             used \<leftarrow> wr (sv_used_in_fix r) sate_id 1;
             gsa_used bds tzer is (r\<lparr>sv_used_in_fix := used\<rparr>)
           } else if 193 \<le> sate_id \<and> sate_id \<le> 197 then do {
             used \<leftarrow> wr (sv_used_in_fix r) sate_id 0;
             gsa_used bds tzer is (r\<lparr>sv_used_in_fix := used\<rparr>)
           } else Some r
         })"

text \<open>The same in the mode for GPS only: a mask of 32 bits, cleared by an invalid number.\<close>

fun gsa_mask :: "token list \<Rightarrow> nat list \<Rightarrow> nmea_reader \<Rightarrow> nmea_reader option" where
  "gsa_mask tzer [] r = Some r"
| "gsa_mask tzer (idx # is) r =
     (let tok = nmea_tokenizer_get tzer (int idx + 3)
      in if tok_p tok = tok_end tok then Some r
         else do {
           sate_id \<leftarrow> tok_int tok;
           if 1 \<le> sate_id \<and> sate_id \<le> 32 then
             gsa_mask tzer is
               (r\<lparr>used_in_fix_mask := Bit_Operations.or (used_in_fix_mask r) (push_bit (nat (sate_id - 1)) 1)\<rparr>)
           else if 193 \<le> sate_id \<and> sate_id \<le> 197 then gsa_mask tzer is r
           else Some (r\<lparr>used_in_fix_mask := 0\<rparr>)
         })"

definition parse_gga :: "nmea_env \<Rightarrow> token list \<Rightarrow> nmea_reader \<Rightarrow> nmea_reader option" where
  "parse_gga env tzer r = do {
     (_, r1) \<leftarrow> nmea_reader_update_time env r (nmea_tokenizer_get tzer 1);
     latHemi \<leftarrow> tok_char (nmea_tokenizer_get tzer 3);
     lonHemi \<leftarrow> tok_char (nmea_tokenizer_get tzer 5);
     (_, r2) \<leftarrow> nmea_reader_update_latlong r1 (nmea_tokenizer_get tzer 2) latHemi (nmea_tokenizer_get tzer 4) lonHemi;
     (_, r3) \<leftarrow> nmea_reader_update_altitude r2 (nmea_tokenizer_get tzer 9);
     Some r3
   }"

definition parse_gsa_gnss :: "bool \<Rightarrow> token list \<Rightarrow> nmea_reader \<Rightarrow> nmea_reader option" where
  "parse_gsa_gnss bds tzer r = do {
     m \<leftarrow> tok_int (nmea_tokenizer_get tzer 2);
     let r1 = r\<lparr>fix_mode := m\<rparr>;
     if LOC_FIXED r1 then gsa_used bds tzer [0..<12] r1 else Some r1
   }"

definition parse_gsa_gps :: "token list \<Rightarrow> nmea_reader \<Rightarrow> nmea_reader option" where
  "parse_gsa_gps tzer r = do {
     m \<leftarrow> tok_int (nmea_tokenizer_get tzer 2);
     let r1 = r\<lparr>fix_mode := m, used_in_fix_mask := 0\<rparr>;
     if LOC_FIXED r1 then gsa_mask tzer [0..<12] r1 else Some r1
   }"

definition parse_rmc :: "nmea_env \<Rightarrow> token list \<Rightarrow> nmea_reader \<Rightarrow> nmea_reader option" where
  "parse_rmc env tzer r = do {
     status \<leftarrow> tok_char (nmea_tokenizer_get tzer 2);
     if status = CHR ''A'' then do {
       (_, r1) \<leftarrow> nmea_reader_update_date env r (nmea_tokenizer_get tzer 9) (nmea_tokenizer_get tzer 1);
       latHemi \<leftarrow> tok_char (nmea_tokenizer_get tzer 4);
       lonHemi \<leftarrow> tok_char (nmea_tokenizer_get tzer 6);
       (_, r2) \<leftarrow> nmea_reader_update_latlong r1 (nmea_tokenizer_get tzer 3) latHemi (nmea_tokenizer_get tzer 5) lonHemi;
       (_, r3) \<leftarrow> nmea_reader_update_bearing r2 (nmea_tokenizer_get tzer 8);
       (_, r4) \<leftarrow> nmea_reader_update_speed r3 (nmea_tokenizer_get tzer 7);
       Some r4
     } else Some r
   }"

text \<open>
  The loop over the satellites of a GSV sentence; \<open>update\<close> is the update for the mode.
\<close>

fun gsv_svs ::
  "(nmea_reader \<Rightarrow> int \<Rightarrow> token \<Rightarrow> token \<Rightarrow> token \<Rightarrow> nmea_reader option) \<Rightarrow> bool \<Rightarrow> token list \<Rightarrow> nat list \<Rightarrow>
   nmea_reader \<Rightarrow> nmea_reader option" where
  "gsv_svs update bds tzer [] r = Some r"
| "gsv_svs update bds tzer (idx # is) r = do {
     let base_idx = 4 * (int idx + 1);
     n \<leftarrow> tok_int (nmea_tokenizer_get tzer base_idx);
     let sv_id = (if bds then wrap32 (n + 200) else n);
     r1 \<leftarrow> update r sv_id (nmea_tokenizer_get tzer (base_idx + 1)) (nmea_tokenizer_get tzer (base_idx + 2))
            (nmea_tokenizer_get tzer (base_idx + 3));
     gsv_svs update bds tzer is r1
   }"

text \<open>The numbers at the head of the sentence: messages, sequence number, satellites in view.\<close>

definition gsv_head :: "token list \<Rightarrow> (int \<times> int \<times> int \<times> int) option" where
  "gsv_head tzer = do {
     num \<leftarrow> tok_int (nmea_tokenizer_get tzer 1);
     seq \<leftarrow> tok_int (nmea_tokenizer_get tzer 2);
     cnt \<leftarrow> tok_int (nmea_tokenizer_get tzer 3);
     let sv_base = wrap32 ((seq - 1) * NMEA_MAX_SV_INFO);
     let sv_num = wrap32 (cnt - sv_base);
     Some (num, seq, cnt, if sv_num > NMEA_MAX_SV_INFO then NMEA_MAX_SV_INFO else sv_num)
   }"

definition parse_gsv_gnss :: "nmea_env \<Rightarrow> bool \<Rightarrow> token list \<Rightarrow> nmea_reader \<Rightarrow> nmea_reader option" where
  "parse_gsv_gnss env bds tzer r = do {
     (num, seq, cnt, sv_num) \<leftarrow> gsv_head tzer;
     let r1 = (if seq = 1 then r\<lparr>sv_count := 0\<rparr> else r);
     r2 \<leftarrow> gsv_svs (nmea_reader_update_sv_status_gnss env) bds tzer [0..<nat sv_num] r1;
     Some (if seq = num then
             if sv_count r2 \<le> cnt then r2\<lparr>gnss_num_svs := wrap32 (gnss_num_svs r2 + sv_count r2)\<rparr>
             else r2\<lparr>sv_count := 0, gnss_num_svs := 0\<rparr>
           else r2)
   }"

definition parse_gsv_gps :: "nmea_env \<Rightarrow> bool \<Rightarrow> token list \<Rightarrow> nmea_reader \<Rightarrow> nmea_reader option" where
  "parse_gsv_gps env bds tzer r = do {
     (num, seq, cnt, sv_num) \<leftarrow> gsv_head tzer;
     let r1 = (if seq = 1 then r\<lparr>sv_count := 0\<rparr> else r);
     r2 \<leftarrow> gsv_svs (nmea_reader_update_sv_status_gps env) bds tzer [0..<nat sv_num] r1;
     Some (if seq = num then
             if sv_count r2 \<le> cnt then
               r2\<lparr>gps_num_svs := wrap32 (gps_num_svs r2 + sv_count r2), almanac_mask := 0, ephemeris_mask := 0\<rparr>
             else r2\<lparr>sv_count := 0, gps_num_svs := 0\<rparr>
           else r2)
   }"

definition parse_accuracy :: "token list \<Rightarrow> nmea_reader \<Rightarrow> nmea_reader option" where
  "parse_accuracy tzer r =
     (if fix_mode r = 3 \<or> fix_mode r = 2 then do {
        (_, r1) \<leftarrow> nmea_reader_update_accuracy r (nmea_tokenizer_get tzer 1);
        Some r1
      } else Some r)"

text \<open>
  Which sentence it is, by the characters at its head, in the order of the tests. The
  comparisons are made before the choice: more of them than in the code, none fewer.
\<close>

definition parse_sentence :: "nmea_env \<Rightarrow> token list \<Rightarrow> nmea_reader \<Rightarrow> nmea_reader option" where
  "parse_sentence env tzer r = do {
     let tok = nmea_tokenizer_get tzer 0;
     bds \<leftarrow> mem_is tok 0 ''BD'';
     gga \<leftarrow> mem_is tok 2 ''GGA'';
     gpgsa \<leftarrow> mem_is tok 0 ''GPGSA'';
     bdgsa \<leftarrow> mem_is tok 0 ''BDGSA'';
     glgsa \<leftarrow> mem_is tok 0 ''GLGSA'';
     rmc \<leftarrow> mem_is tok 2 ''RMC'';
     gsv \<leftarrow> mem_is tok 2 ''GSV'';
     gpgsv \<leftarrow> mem_is tok 0 ''GPGSV'';
     glgsv \<leftarrow> mem_is tok 0 ''GLGSV'';
     acc \<leftarrow> mem_is tok 2 ''ACCURACY'';
     if gga then parse_gga env tzer r
     else if gps_mode env = 0 \<and> (gpgsa \<or> bdgsa \<or> glgsa) then parse_gsa_gnss bds tzer r
     else if gps_mode env = 1 \<and> gpgsa then parse_gsa_gps tzer r
     else if rmc then parse_rmc env tzer r
     else if gps_mode env = 0 \<and> gsv then parse_gsv_gnss env bds tzer r
     else if gps_mode env = 1 \<and> (gpgsv \<or> glgsv) then parse_gsv_gps env bds tzer r
     else if acc then parse_accuracy tzer r
     else Some r
   }"

section \<open>Reports\<close>

definition nlp_of_fix :: "nmea_env \<Rightarrow> gps_location \<Rightarrow> nlp_context" where
  "nlp_of_fix env fx =
     \<lparr>nlp_latitude = latitude fx, nlp_longitude = longitude fx, nlp_accuracy = accuracy fx, nlp_type = 1,
      nlp_started = nav_started env, nlp_sec = cdiv (timestamp fx) 1000,
      nlp_nsec = Prelude.cmod (timestamp fx) 1000 * 1000 * 1000\<rparr>"

definition report_fix :: "nmea_env \<Rightarrow> nmea_reader \<Rightarrow> nmea_event list \<times> nmea_reader" where
  "report_fix env r =
     (if \<not> LOC_FIXED r then ([], r)
      else if flags (fix_loc r) \<noteq> {} \<and> gps_nmea_end_tag r then
        ((if get_prop env then [LogWrite (latitude (fix_loc r)) (longitude (fix_loc r))] else []) @
         [LocationCb (fix_loc r), UpdateLocation (nlp_of_fix env (fix_loc r))],
         r\<lparr>fix_loc := (fix_loc r)\<lparr>flags := {}\<rparr>\<rparr>)
      else ([], r))"

text \<open>
  The loop of the mode for GPS only runs its body once, since the body clears the count it
  runs to.
\<close>

definition report_svs :: "nmea_env \<Rightarrow> nmea_reader \<Rightarrow> (nmea_event list \<times> nmea_reader) option" where
  "report_svs env r =
     (if gps_mode env = 0 then
        if gnss_num_svs r \<noteq> 0 \<and> gps_nmea_end_tag r then
          Some ([GnssSvStatusCb (gnss_num_svs r) (gnss_sv_list r)],
                r\<lparr>sv_count := 0, gnss_num_svs := 0, sv_used_in_fix := replicate 256 0\<rparr>)
        else Some ([], r)
      else if gps_num_svs r > 0 \<and> gps_nmea_end_tag r then do {
        _ \<leftarrow> rd (gps_sv_list r) 0;
        Some ([SvStatusCb (gps_num_svs r) (gps_sv_list r) (used_in_fix_mask r)],
              r\<lparr>sv_count := 0, gps_num_svs := 0, used_in_fix_mask := 0\<rparr>)
      } else Some ([], r))"

definition nmea_reader_parse :: "nmea_env \<Rightarrow> nmea_reader \<Rightarrow> (nmea_event list \<times> nmea_reader) option" where
  "nmea_reader_parse env r =
     (if pos r < 9 then Some ([], r)
      else if pos r \<ge> int (length (in_buf r)) then None
      else do {
        tzer \<leftarrow> nmea_tokenizer_init (in_buf r) 0 (nat (pos r));
        let tok = nmea_tokenizer_get tzer 0;
        if tok_p tok + 5 > tok_end tok then Some ([], r)
        else do {
          r1 \<leftarrow> parse_sentence env tzer r;
          let (ev1, r2) = report_fix env r1;
          (ev2, r3) \<leftarrow> report_svs env r2;
          Some (ev1 @ ev2, r3)
        }
      })"

section \<open>Characters\<close>

definition nmea_reader_addc :: "nmea_env \<Rightarrow> char \<Rightarrow> nmea_reader \<Rightarrow> (nmea_event list \<times> nmea_reader) option" where
  "nmea_reader_addc env c r =
     (if overflow r then Some ([], r\<lparr>overflow := (c \<noteq> CHR 0x0A)\<rparr>)
      else if pos r \<ge> int (length (in_buf r)) - 1 \<or> pos r < 0 then Some ([], r\<lparr>overflow := True, pos := 0\<rparr>)
      else do {
        buf \<leftarrow> wr (in_buf r) (pos r) c;
        let r1 = r\<lparr>in_buf := buf, pos := pos r + 1\<rparr>;
        if c = CHR 0x0A then do {
          (ev, r2) \<leftarrow> nmea_reader_parse env r1;
          Some (ev @ [NmeaCb (timestamp (fix_loc r2)) (take (nat (pos r2)) (in_buf r2))], r2\<lparr>pos := 0\<rparr>)
        } else Some ([], r1)
      })"

text \<open>The characters of one read of the device; the tag marks the last of them.\<close>

fun read_chars :: "nmea_env \<Rightarrow> string \<Rightarrow> nmea_reader \<Rightarrow> (nmea_event list \<times> nmea_reader) option" where
  "read_chars env [] r = Some ([], r)"
| "read_chars env (c # cs) r = do {
     (ev1, r1) \<leftarrow> nmea_reader_addc env c (if cs = [] then r\<lparr>gps_nmea_end_tag := True\<rparr> else r);
     (ev2, r2) \<leftarrow> read_chars env cs r1;
     Some (ev1 @ ev2, r2)
   }"

definition read_device :: "nmea_env \<Rightarrow> string \<Rightarrow> nmea_reader \<Rightarrow> (nmea_event list \<times> nmea_reader) option" where
  "read_device env buff r = read_chars env buff (r\<lparr>gps_nmea_end_tag := False\<rparr>)"

text \<open>The successive reads of a session.\<close>

fun read_all :: "nmea_env \<Rightarrow> string list \<Rightarrow> nmea_reader \<Rightarrow> (nmea_event list \<times> nmea_reader) option" where
  "read_all env [] r = Some ([], r)"
| "read_all env (b # bs) r = do {
     (ev1, r1) \<leftarrow> read_device env b r;
     (ev2, r2) \<leftarrow> read_all env bs r1;
     Some (ev1 @ ev2, r2)
   }"

section \<open>Memory safety\<close>

text \<open>A token whose text and the byte behind it are inside its memory.\<close>

definition good :: "token \<Rightarrow> bool" where
  "good t \<longleftrightarrow> tok_p t \<le> tok_end t \<and> tok_end t < length (obj t)"

lemma good_get:
  assumes "list_all (inside m e) ts" "e < length m"
  shows "good (nmea_tokenizer_get ts i)"
proof (cases "i < 0 \<or> i \<ge> int (length ts)")
  case True
  then show ?thesis by (simp add: nmea_tokenizer_get_def good_def dummy_def)
next
  case False
  then have "ts ! nat i \<in> set ts" by (intro nth_mem) auto
  with assms(1) have "inside m e (ts ! nat i)" by (simp add: list_all_iff)
  with assms(2) False show ?thesis by (simp add: nmea_tokenizer_get_def good_def inside_def)
qed

lemma str2int_loop_total: "e \<le> length m \<Longrightarrow> \<exists>n. str2int_loop m i e len sg v = Some n"
proof (induction m i e len sg v rule: str2int_loop.induct)
  case (2 m i e len sg v)
  then show ?case by (cases "i < e") (auto simp: rd_in Let_def)
qed simp

lemma str2int_total: "i < length m \<Longrightarrow> e \<le> length m \<Longrightarrow> \<exists>n. str2int m i e = Some n"
  using str2int_loop_total by (simp add: str2int_def rd_in)

lemma str2float_total: "i \<le> e \<Longrightarrow> e \<le> length m \<Longrightarrow> \<exists>x. str2float m i e = Some x"
  by (simp add: str2float_def Let_def)

lemma tok_total:
  assumes "good t"
  shows "\<exists>n. tok_int t = Some n" "\<exists>x. tok_float t = Some x" "\<exists>c. tok_char t = Some c"
    "\<exists>x. convert_from_hhmm t = Some x"
  using assms str2int_total [of "tok_p t" "obj t" "tok_end t"] str2float_total [of "tok_p t" "tok_end t" "obj t"]
  by (auto simp: good_def tok_int_def tok_float_def tok_char_def convert_from_hhmm_def rd_in Let_def)

definition max_svs :: "nmea_env \<Rightarrow> int" where
  "max_svs env = int (max (GPS_MAX_SVS env) (GNSS_MAX_SVS env))"

text \<open>The invariant, with a bound on the satellites counted since the last report.\<close>

definition reader_inv :: "nmea_env \<Rightarrow> int \<Rightarrow> nmea_reader \<Rightarrow> bool" where
  "reader_inv env k r \<longleftrightarrow>
     length (in_buf r) = 129 \<and> 0 \<le> pos r \<and> pos r \<le> 128 \<and> (overflow r \<longrightarrow> pos r = 0) \<and>
     length (gps_sv_list r) = GPS_MAX_SVS env \<and> length (gnss_sv_list r) = GNSS_MAX_SVS env \<and>
     length (sv_used_in_fix r) = 256 \<and> 0 \<le> sv_count r \<and> sv_count r \<le> max_svs env \<and>
     0 \<le> gps_num_svs r \<and> gps_num_svs r \<le> k \<and> 0 \<le> gnss_num_svs r \<and> gnss_num_svs r \<le> k"

definition safe :: "nmea_env \<Rightarrow> int \<Rightarrow> nmea_reader option \<Rightarrow> bool" where
  "safe env k x \<longleftrightarrow> (\<exists>r. x = Some r \<and> reader_inv env k r)"

lemma safe_Some [simp]: "safe env k (Some r) \<longleftrightarrow> reader_inv env k r"
  by (simp add: safe_def)

lemma safe_bind:
  "\<exists>y. x = Some y \<and> safe env k (f y) \<Longrightarrow> safe env k (x \<bind> f)"
  by auto

text \<open>The updates of the fix leave the rest of the reader as it is.\<close>

definition fix_only :: "nmea_reader \<Rightarrow> nmea_reader \<Rightarrow> bool" where
  "fix_only r r' \<longleftrightarrow>
     pos r' = pos r \<and> overflow r' = overflow r \<and> utc_diff r' = utc_diff r \<and> fix_mode r' = fix_mode r \<and>
     sv_count r' = sv_count r \<and> gps_num_svs r' = gps_num_svs r \<and> gps_sv_list r' = gps_sv_list r \<and>
     used_in_fix_mask r' = used_in_fix_mask r \<and> almanac_mask r' = almanac_mask r \<and>
     ephemeris_mask r' = ephemeris_mask r \<and> gnss_num_svs r' = gnss_num_svs r \<and>
     gnss_sv_list r' = gnss_sv_list r \<and> in_buf r' = in_buf r \<and> sv_used_in_fix r' = sv_used_in_fix r \<and>
     gps_nmea_end_tag r' = gps_nmea_end_tag r"

lemma fix_only_refl [simp]: "fix_only r r"
  by (simp add: fix_only_def)

lemma fix_only_trans: "fix_only r r' \<Longrightarrow> fix_only r' r'' \<Longrightarrow> fix_only r r''"
  by (simp add: fix_only_def)

lemma fix_only_inv: "fix_only r r' \<Longrightarrow> reader_inv env k r \<Longrightarrow> reader_inv env k r'"
  by (simp add: fix_only_def reader_inv_def)

lemma update_time_total:
  assumes "good t"
  shows "\<exists>x r'. nmea_reader_update_time env r t = Some (x, r') \<and> fix_only r r'"
proof (cases "tok_p t + 6 > tok_end t")
  case True
  then show ?thesis by (simp add: nmea_reader_update_time_def)
next
  case False
  then obtain h m sec where
    "str2int (obj t) (tok_p t) (tok_p t + 2) = Some h"
    "str2int (obj t) (tok_p t + 2) (tok_p t + 4) = Some m"
    "str2float (obj t) (tok_p t + 4) (tok_end t) = Some sec"
    using assms str2int_total [of "tok_p t" "obj t" "tok_p t + 2"]
      str2int_total [of "tok_p t + 2" "obj t" "tok_p t + 4"] str2float_total [of "tok_p t + 4" "tok_end t" "obj t"]
    by (auto simp: good_def)
  moreover obtain y mo dd where "utc_date env = (y, mo, dd)" by (rule prod_cases3)
  ultimately show ?thesis
    using False by (simp add: nmea_reader_update_time_def Let_def fix_only_def)
qed

lemma update_date_total:
  assumes "good d" "good t"
  shows "\<exists>x r'. nmea_reader_update_date env r d t = Some (x, r') \<and> fix_only r r'"
proof (cases "tok_p d + 6 = tok_end d")
  case False
  then show ?thesis by (simp add: nmea_reader_update_date_def)
next
  case True
  then obtain dy mo y where n:
    "str2int (obj d) (tok_p d) (tok_p d + 2) = Some dy"
    "str2int (obj d) (tok_p d + 2) (tok_p d + 4) = Some mo"
    "str2int (obj d) (tok_p d + 4) (tok_p d + 6) = Some y"
    using assms str2int_total [of "tok_p d" "obj d" "tok_p d + 2"]
      str2int_total [of "tok_p d + 2" "obj d" "tok_p d + 4"] str2int_total [of "tok_p d + 4" "obj d" "tok_p d + 6"]
    by (auto simp: good_def)
  define r1 where "r1 = r\<lparr>utc_year := y + 2000, utc_mon := mo, utc_day := dy\<rparr>"
  obtain x r' where "nmea_reader_update_time env r1 t = Some (x, r')" "fix_only r1 r'"
    using update_time_total [OF assms(2)] by blast
  moreover have "fix_only r r1" by (simp add: r1_def fix_only_def)
  ultimately have "fix_only r r'" using fix_only_trans by blast
  with \<open>nmea_reader_update_time env r1 t = Some (x, r')\<close> True n show ?thesis
    by (simp add: nmea_reader_update_date_def r1_def [symmetric] Let_def)
qed

lemma update_latlong_total:
  assumes "good lat" "good lon"
  shows "\<exists>x r'. nmea_reader_update_latlong r lat c lon d = Some (x, r') \<and> fix_only r r'"
  using tok_total(4) [OF assms(1)] tok_total(4) [OF assms(2)]
  by (auto simp: nmea_reader_update_latlong_def Let_def fix_only_def)

lemma update_field_total:
  assumes "good t"
  shows "\<exists>x r'. nmea_reader_update_altitude r t = Some (x, r') \<and> fix_only r r'"
    "\<exists>x r'. nmea_reader_update_bearing r t = Some (x, r') \<and> fix_only r r'"
    "\<exists>x r'. nmea_reader_update_speed r t = Some (x, r') \<and> fix_only r r'"
    "\<exists>x r'. nmea_reader_update_accuracy r t = Some (x, r') \<and> fix_only r r'"
  using tok_total(2) [OF assms]
  by (auto simp: nmea_reader_update_altitude_def nmea_reader_update_bearing_def nmea_reader_update_speed_def
      nmea_reader_update_accuracy_def fix_only_def)

lemma parse_gga_total:
  assumes "\<And>i. good (nmea_tokenizer_get ts i)"
  shows "\<exists>r'. parse_gga env ts r = Some r' \<and> fix_only r r'"
proof -
  obtain x1 r1 where 1: "nmea_reader_update_time env r (nmea_tokenizer_get ts 1) = Some (x1, r1)" "fix_only r r1"
    using update_time_total [OF assms] by blast
  obtain c d where c: "tok_char (nmea_tokenizer_get ts 3) = Some c" "tok_char (nmea_tokenizer_get ts 5) = Some d"
    using tok_total(3) [OF assms] by blast
  obtain x2 r2 where 2: "nmea_reader_update_latlong r1 (nmea_tokenizer_get ts 2) c (nmea_tokenizer_get ts 4) d = Some (x2, r2)"
    "fix_only r1 r2"
    using update_latlong_total [OF assms assms] by blast
  obtain x3 r3 where 3: "nmea_reader_update_altitude r2 (nmea_tokenizer_get ts 9) = Some (x3, r3)" "fix_only r2 r3"
    using update_field_total(1) [OF assms] by blast
  have "fix_only r r3" using 1(2) 2(2) 3(2) fix_only_trans by blast
  with 1(1) c 2(1) 3(1) show ?thesis by (simp add: parse_gga_def)
qed

lemma parse_rmc_total:
  assumes "\<And>i. good (nmea_tokenizer_get ts i)"
  shows "\<exists>r'. parse_rmc env ts r = Some r' \<and> fix_only r r'"
proof -
  obtain s where s: "tok_char (nmea_tokenizer_get ts 2) = Some s" using tok_total(3) [OF assms] by blast
  obtain x1 r1 where 1: "nmea_reader_update_date env r (nmea_tokenizer_get ts 9) (nmea_tokenizer_get ts 1) = Some (x1, r1)"
    "fix_only r r1"
    using update_date_total [OF assms assms] by blast
  obtain c d where c: "tok_char (nmea_tokenizer_get ts 4) = Some c" "tok_char (nmea_tokenizer_get ts 6) = Some d"
    using tok_total(3) [OF assms] by blast
  obtain x2 r2 where 2: "nmea_reader_update_latlong r1 (nmea_tokenizer_get ts 3) c (nmea_tokenizer_get ts 5) d = Some (x2, r2)"
    "fix_only r1 r2"
    using update_latlong_total [OF assms assms] by blast
  obtain x3 r3 where 3: "nmea_reader_update_bearing r2 (nmea_tokenizer_get ts 8) = Some (x3, r3)" "fix_only r2 r3"
    using update_field_total(2) [OF assms] by blast
  obtain x4 r4 where 4: "nmea_reader_update_speed r3 (nmea_tokenizer_get ts 7) = Some (x4, r4)" "fix_only r3 r4"
    using update_field_total(3) [OF assms] by blast
  have "fix_only r r4" using 1(2) 2(2) 3(2) 4(2) fix_only_trans by blast
  with s 1(1) c 2(1) 3(1) 4(1) show ?thesis by (simp add: parse_rmc_def)
qed

lemma gsa_used_safe:
  assumes "\<And>i. good (nmea_tokenizer_get ts i)"
  shows "reader_inv env k r \<Longrightarrow> safe env k (gsa_used bds ts is r)"
proof (induction "is" arbitrary: r)
  case (Cons idx "is")
  obtain n where n: "tok_int (nmea_tokenizer_get ts (int idx + 3)) = Some n"
    using tok_total(1) [OF assms] by blast
  have w: "wr (sv_used_in_fix r) i v = Some ((sv_used_in_fix r)[nat i := v])" if "1 \<le> i" "i \<le> 232" for i v
    using Cons.prems that by (simp add: wr_in reader_inv_def)
  have inv: "reader_inv env k (r\<lparr>sv_used_in_fix := (sv_used_in_fix r)[i := v]\<rparr>)" for i v
    using Cons.prems by (simp add: reader_inv_def)
  define sid where "sid = (if bds then wrap32 (n + 200) else n)"
  show ?case
  proof (cases "tok_p (nmea_tokenizer_get ts (int idx + 3)) = tok_end (nmea_tokenizer_get ts (int idx + 3))")
    case True
    then show ?thesis using Cons.prems by simp
  next
    case False
    consider "1 \<le> sid \<and> sid \<le> 32 \<or> 65 \<le> sid \<and> sid \<le> 96 \<or> 201 \<le> sid \<and> sid \<le> 232"
      | "\<not> (1 \<le> sid \<and> sid \<le> 32 \<or> 65 \<le> sid \<and> sid \<le> 96 \<or> 201 \<le> sid \<and> sid \<le> 232)" "193 \<le> sid \<and> sid \<le> 197"
      | "\<not> (1 \<le> sid \<and> sid \<le> 32 \<or> 65 \<le> sid \<and> sid \<le> 96 \<or> 201 \<le> sid \<and> sid \<le> 232)" "\<not> (193 \<le> sid \<and> sid \<le> 197)"
      by blast
    then show ?thesis
    proof cases
      case 1
      then have "wr (sv_used_in_fix r) sid 1 = Some ((sv_used_in_fix r)[nat sid := 1])" by (intro w) auto
      with Cons.IH [OF inv, of "nat sid" 1] False n 1 show ?thesis
        by (simp add: Let_def sid_def [symmetric])
    next
      case 2
      then have "wr (sv_used_in_fix r) sid 0 = Some ((sv_used_in_fix r)[nat sid := 0])" by (intro w) auto
      with Cons.IH [OF inv, of "nat sid" 0] False n 2 show ?thesis
        by (simp add: Let_def sid_def [symmetric])
    next
      case 3
      with False n Cons.prems show ?thesis by (auto simp: Let_def sid_def [symmetric])
    qed
  qed
qed simp

lemma gsa_mask_safe:
  assumes "\<And>i. good (nmea_tokenizer_get ts i)"
  shows "reader_inv env k r \<Longrightarrow> safe env k (gsa_mask ts is r)"
proof (induction "is" arbitrary: r)
  case (Cons idx "is")
  obtain n where n: "tok_int (nmea_tokenizer_get ts (int idx + 3)) = Some n"
    using tok_total(1) [OF assms] by blast
  have inv: "reader_inv env k (r\<lparr>used_in_fix_mask := m\<rparr>)" for m
    using Cons.prems by (simp add: reader_inv_def)
  show ?case
    using Cons n inv by (simp add: Let_def)
qed simp

lemma parse_gsa_safe:
  assumes "\<And>i. good (nmea_tokenizer_get ts i)" "reader_inv env k r"
  shows "safe env k (parse_gsa_gnss bds ts r)" "safe env k (parse_gsa_gps ts r)"
proof -
  obtain n where n: "tok_int (nmea_tokenizer_get ts 2) = Some n"
    using tok_total(1) [OF assms(1)] by blast
  have "reader_inv env k (r\<lparr>fix_mode := n\<rparr>)" "reader_inv env k (r\<lparr>fix_mode := n, used_in_fix_mask := 0\<rparr>)"
    using assms(2) by (simp_all add: reader_inv_def)
  then show "safe env k (parse_gsa_gnss bds ts r)" "safe env k (parse_gsa_gps ts r)"
    using n gsa_used_safe [OF assms(1)] gsa_mask_safe [OF assms(1)]
    by (simp_all add: parse_gsa_gnss_def parse_gsa_gps_def Let_def)
qed

text \<open>An update for one satellite, in either mode.\<close>

lemma update_sv_safe:
  assumes "good ele" "good azi" "good snr" "reader_inv env k r" "k + max_svs env \<le> 2147483647"
  shows "safe env k (nmea_reader_update_sv_status_gps env r prn ele azi snr)"
    "safe env k (nmea_reader_update_sv_status_gnss env r prn ele azi snr)"
proof -
  obtain s e a where t: "tok_float snr = Some s" "tok_int ele = Some e" "tok_int azi = Some a"
    using tok_total(1) [OF assms(1)] tok_total(1) [OF assms(2)] tok_total(2) [OF assms(3)] by blast
  have m: "int (GPS_MAX_SVS env) \<le> max_svs env" "int (GNSS_MAX_SVS env) \<le> max_svs env"
    by (simp_all add: max_svs_def)
  have w: "wrap32 (sv_count r + gps_num_svs r) = sv_count r + gps_num_svs r"
    "wrap32 (sv_count r + gnss_num_svs r) = sv_count r + gnss_num_svs r"
    using assms(4,5) by (auto simp: reader_inv_def intro!: wrap32_id)
  show "safe env k (nmea_reader_update_sv_status_gps env r prn ele azi snr)"
    using assms(4) t m by (simp add: nmea_reader_update_sv_status_gps_def w Let_def wr_in reader_inv_def)
  show "safe env k (nmea_reader_update_sv_status_gnss env r prn ele azi snr)"
    using assms(4) t m by (simp add: nmea_reader_update_sv_status_gnss_def w Let_def wr_in rd_in reader_inv_def)
qed

lemma gsv_svs_safe:
  assumes "\<And>i. good (nmea_tokenizer_get ts i)"
    and "\<And>r prn ele azi snr. good ele \<Longrightarrow> good azi \<Longrightarrow> good snr \<Longrightarrow> reader_inv env k r \<Longrightarrow>
           safe env k (update r prn ele azi snr)"
  shows "reader_inv env k r \<Longrightarrow> safe env k (gsv_svs update bds ts is r)"
proof (induction "is" arbitrary: r)
  case (Cons idx "is")
  obtain n where n: "tok_int (nmea_tokenizer_get ts (4 * (int idx + 1))) = Some n"
    using tok_total(1) [OF assms(1)] by blast
  define sid where "sid = (if bds then wrap32 (n + 200) else n)"
  obtain r1 where "update r sid (nmea_tokenizer_get ts (4 * (int idx + 1) + 1))
      (nmea_tokenizer_get ts (4 * (int idx + 1) + 2)) (nmea_tokenizer_get ts (4 * (int idx + 1) + 3)) = Some r1"
    "reader_inv env k r1"
    using assms(2) [OF assms(1) assms(1) assms(1) Cons.prems] unfolding safe_def by blast
  with Cons.IH [of r1] n show ?case by (simp add: Let_def sid_def [symmetric])
qed simp

lemma parse_gsv_safe:
  assumes "\<And>i. good (nmea_tokenizer_get ts i)" "reader_inv env k r" "k + max_svs env \<le> 2147483647"
  shows "safe env (k + max_svs env) (parse_gsv_gnss env bds ts r)"
    "safe env (k + max_svs env) (parse_gsv_gps env bds ts r)"
proof -
  obtain num sq cnt n where h: "gsv_head ts = Some (num, sq, cnt, n)"
    using tok_total(1) [OF assms(1) [of 1]] tok_total(1) [OF assms(1) [of 2]] tok_total(1) [OF assms(1) [of 3]]
    by (auto simp: gsv_head_def Let_def)
  define r1 where "r1 = (if sq = 1 then r\<lparr>sv_count := 0\<rparr> else r)"
  have r1: "reader_inv env k r1" using assms(2) by (simp add: r1_def reader_inv_def)
  have add: "reader_inv env (k + max_svs env) r2"
    "wrap32 (gps_num_svs r2 + sv_count r2) = gps_num_svs r2 + sv_count r2"
    "wrap32 (gnss_num_svs r2 + sv_count r2) = gnss_num_svs r2 + sv_count r2"
    if "reader_inv env k r2" for r2
    using that assms(3) by (auto simp: reader_inv_def max_svs_def intro!: wrap32_id)
  obtain r2 where 2: "gsv_svs (nmea_reader_update_sv_status_gnss env) bds ts [0..<nat n] r1 = Some r2"
    "reader_inv env k r2"
    using gsv_svs_safe [where update = "nmea_reader_update_sv_status_gnss env", OF assms(1) update_sv_safe(2) r1] assms(3)
    unfolding safe_def by blast
  show "safe env (k + max_svs env) (parse_gsv_gnss env bds ts r)"
    using h 2 add [OF 2(2)] by (auto simp: parse_gsv_gnss_def r1_def [symmetric] Let_def reader_inv_def max_svs_def)
  obtain r3 where 3: "gsv_svs (nmea_reader_update_sv_status_gps env) bds ts [0..<nat n] r1 = Some r3"
    "reader_inv env k r3"
    using gsv_svs_safe [where update = "nmea_reader_update_sv_status_gps env", OF assms(1) update_sv_safe(1) r1] assms(3)
    unfolding safe_def by blast
  show "safe env (k + max_svs env) (parse_gsv_gps env bds ts r)"
    using h 3 add [OF 3(2)] by (auto simp: parse_gsv_gps_def r1_def [symmetric] Let_def reader_inv_def max_svs_def)
qed

lemma mem_is_total:
  "tok_p t + off + length s \<le> length (obj t) \<Longrightarrow> \<exists>b. mem_is t off s = Some b"
  by (simp add: mem_is_def)

lemma parse_accuracy_safe:
  assumes "\<And>i. good (nmea_tokenizer_get ts i)" "reader_inv env k r"
  shows "safe env k (parse_accuracy ts r)"
proof -
  obtain x r' where "nmea_reader_update_accuracy r (nmea_tokenizer_get ts 1) = Some (x, r')" "fix_only r r'"
    using update_field_total(4) [OF assms(1)] by blast
  then show ?thesis using assms(2) fix_only_inv by (auto simp: parse_accuracy_def)
qed

lemma reader_inv_mono: "reader_inv env k r \<Longrightarrow> k \<le> k' \<Longrightarrow> reader_inv env k' r"
  by (auto simp: reader_inv_def)

lemma safe_mono: "safe env k x \<Longrightarrow> k \<le> k' \<Longrightarrow> safe env k' x"
  using reader_inv_mono by (auto simp: safe_def)

lemma max_svs_nonneg: "0 \<le> max_svs env"
  by (simp add: max_svs_def)

lemma parse_sentence_safe:
  assumes g: "\<And>i. good (nmea_tokenizer_get ts i)" and inv: "reader_inv env k r"
    and k: "k + max_svs env \<le> 2147483647"
    and b: "tok_p (nmea_tokenizer_get ts 0) + 10 \<le> length (obj (nmea_tokenizer_get ts 0))"
  shows "safe env (k + max_svs env) (parse_sentence env ts r)"
proof -
  have k': "k \<le> k + max_svs env" using max_svs_nonneg by simp
  have m: "\<exists>x. mem_is (nmea_tokenizer_get ts 0) off s = Some x" if "off + length s \<le> 10" for off s
    using that b by (intro mem_is_total) simp
  obtain x1 x2 x3 x4 x5 x6 x7 x8 x9 x10 where
    "mem_is (nmea_tokenizer_get ts 0) 0 ''BD'' = Some x1" "mem_is (nmea_tokenizer_get ts 0) 2 ''GGA'' = Some x2"
    "mem_is (nmea_tokenizer_get ts 0) 0 ''GPGSA'' = Some x3" "mem_is (nmea_tokenizer_get ts 0) 0 ''BDGSA'' = Some x4"
    "mem_is (nmea_tokenizer_get ts 0) 0 ''GLGSA'' = Some x5" "mem_is (nmea_tokenizer_get ts 0) 2 ''RMC'' = Some x6"
    "mem_is (nmea_tokenizer_get ts 0) 2 ''GSV'' = Some x7" "mem_is (nmea_tokenizer_get ts 0) 0 ''GPGSV'' = Some x8"
    "mem_is (nmea_tokenizer_get ts 0) 0 ''GLGSV'' = Some x9" "mem_is (nmea_tokenizer_get ts 0) 2 ''ACCURACY'' = Some x10"
    using m [of 0 "''BD''"] m [of 2 "''GGA''"] m [of 0 "''GPGSA''"] m [of 0 "''BDGSA''"] m [of 0 "''GLGSA''"]
      m [of 2 "''RMC''"] m [of 2 "''GSV''"] m [of 0 "''GPGSV''"] m [of 0 "''GLGSV''"] m [of 2 "''ACCURACY''"]
    by auto
  moreover have "safe env (k + max_svs env) (parse_gga env ts r)"
    using parse_gga_total [OF g, of env r] fix_only_inv [OF _ reader_inv_mono [OF inv k']] by (auto simp: safe_def)
  moreover have "safe env (k + max_svs env) (parse_rmc env ts r)"
    using parse_rmc_total [OF g, of env r] fix_only_inv [OF _ reader_inv_mono [OF inv k']] by (auto simp: safe_def)
  moreover note parse_gsa_safe [OF g reader_inv_mono [OF inv k']] parse_gsv_safe [OF g inv k]
    parse_accuracy_safe [OF g reader_inv_mono [OF inv k']] reader_inv_mono [OF inv k']
  ultimately show ?thesis
    by (simp add: parse_sentence_def Let_def)
qed

lemma nmea_tokens_prefix: "\<exists>us. nmea_tokens m i e ts = ts @ us"
proof (induction m i e ts rule: nmea_tokens.induct)
  case (1 m i e ts)
  show ?case
  proof (cases "i < e")
    case True
    from 1 [OF True refl refl] show ?thesis
      by (subst nmea_tokens.simps) (auto simp: Let_def True split: if_splits)
  next
    case False
    then show ?thesis by (subst nmea_tokens.simps) simp
  qed
qed

lemma nmea_tokens_head:
  assumes "i < e"
  shows "\<exists>q us. nmea_tokens m i e [] = \<lparr>obj = m, tok_p = i, tok_end = q\<rparr> # us"
proof -
  have "nmea_tokens m i e [] = nmea_tokens m (if comma_or_end m i e < e then comma_or_end m i e + 1 else comma_or_end m i e) e
      [\<lparr>obj = m, tok_p = i, tok_end = comma_or_end m i e\<rparr>]"
    using assms comma_or_end_ge by (subst nmea_tokens.simps) (simp add: Let_def MAX_NMEA_TOKENS_def)
  with nmea_tokens_prefix show ?thesis by (metis append_Cons append_Nil)
qed

definition safe_run :: "nmea_env \<Rightarrow> int \<Rightarrow> (nmea_event list \<times> nmea_reader) option \<Rightarrow> bool" where
  "safe_run env k x \<longleftrightarrow> (\<exists>ev r. x = Some (ev, r) \<and> reader_inv env k r)"

lemma report_svs_safe:
  assumes "reader_inv env k r" "0 < GPS_MAX_SVS env"
  shows "safe_run env k (report_svs env r)"
  using assms by (auto simp: report_svs_def safe_run_def reader_inv_def rd_def max_svs_def)

lemma report_fix_inv: "reader_inv env k r \<Longrightarrow> reader_inv env k (snd (report_fix env r))"
  by (auto simp: report_fix_def reader_inv_def)

lemma parse_safe:
  assumes "reader_inv env k r" "k + max_svs env \<le> 2147483647" "0 < GPS_MAX_SVS env"
  shows "safe_run env (k + max_svs env) (nmea_reader_parse env r)"
proof (cases "pos r < 9")
  case True
  then show ?thesis
    using assms reader_inv_mono [of env k r "k + max_svs env"] max_svs_nonneg [of env]
    by (simp add: nmea_reader_parse_def safe_run_def)
next
  case False
  define e where "e = nat (pos r)"
  have e: "e < length (in_buf r)" "length (in_buf r) = 129" using assms(1) by (auto simp: e_def reader_inv_def)
  obtain b1 b2 where bb: "nmea_bounds (in_buf r) 0 e = (b1, b2)" by force
  have b1: "b1 \<le> 1" and b2: "b2 \<le> e" using bb by (auto simp: nmea_bounds_def Let_def split: if_splits)
  define ts where "ts = nmea_tokens (in_buf r) b1 b2 []"
  have ts: "nmea_tokenizer_init (in_buf r) 0 e = Some ts" using e bb by (simp add: nmea_tokenizer_init_def ts_def)
  have "list_all (inside (in_buf r) b2) ts"
    using nmea_tokens_bounds [of "in_buf r" b2 "[]" b1] by (simp add: ts_def)
  then have g: "good (nmea_tokenizer_get ts i)" for i using good_get e b2 by (metis order_le_less_trans)
  have hd: "tok_p (nmea_tokenizer_get ts 0) + 10 \<le> length (obj (nmea_tokenizer_get ts 0))"
    if "tok_p (nmea_tokenizer_get ts 0) + 5 \<le> tok_end (nmea_tokenizer_get ts 0)"
  proof (cases "b1 < b2")
    case True
    from nmea_tokens_head [OF this, of "in_buf r"] have "tok_p (nmea_tokenizer_get ts 0) = b1" "obj (nmea_tokenizer_get ts 0) = in_buf r"
      by (auto simp: ts_def nmea_tokenizer_get_def)
    then show ?thesis using b1 e by simp
  next
    case False
    then have "ts = []" unfolding ts_def by (subst nmea_tokens.simps) simp
    with that show ?thesis by (simp add: nmea_tokenizer_get_def dummy_def)
  qed
  show ?thesis
  proof (cases "tok_p (nmea_tokenizer_get ts 0) + 5 > tok_end (nmea_tokenizer_get ts 0)")
    case True
    then show ?thesis
      using False e ts assms reader_inv_mono [of env k r "k + max_svs env"] max_svs_nonneg [of env]
      by (simp add: nmea_reader_parse_def safe_run_def e_def Let_def)
  next
    case h: False
    then obtain r1 where 1: "parse_sentence env ts r = Some r1" "reader_inv env (k + max_svs env) r1"
      using parse_sentence_safe [OF g assms(1,2) hd] by (auto simp: safe_def)
    obtain ev1 r2 where 2: "report_fix env r1 = (ev1, r2)" by force
    then have "reader_inv env (k + max_svs env) r2" using report_fix_inv [OF 1(2)] by simp
    then obtain ev2 r3 where 3: "report_svs env r2 = Some (ev2, r3)" "reader_inv env (k + max_svs env) r3"
      using report_svs_safe assms(3) by (force simp: safe_run_def)
    show ?thesis
      using False e ts h 1 2 3 by (simp add: nmea_reader_parse_def safe_run_def e_def Let_def)
  qed
qed

definition store :: "char \<Rightarrow> nmea_reader \<Rightarrow> nmea_reader" where
  "store c r = r\<lparr>in_buf := (in_buf r)[nat (pos r) := c], pos := pos r + 1\<rparr>"

lemma addc_step:
  assumes "\<not> overflow r" "0 \<le> pos r" "pos r < 128" "length (in_buf r) = 129"
  shows "nmea_reader_addc env c r =
    (if c = CHR 0x0A then do {
       (ev, r2) \<leftarrow> nmea_reader_parse env (store c r);
       Some (ev @ [NmeaCb (timestamp (fix_loc r2)) (take (nat (pos r2)) (in_buf r2))], r2\<lparr>pos := 0\<rparr>)
     } else Some ([], store c r))"
  using assms by (simp add: nmea_reader_addc_def store_def wr_def Let_def not_le)

lemma addc_safe:
  assumes "reader_inv env k r" "k + max_svs env \<le> 2147483647" "0 < GPS_MAX_SVS env"
  shows "safe_run env (k + max_svs env) (nmea_reader_addc env c r)"
proof -
  have up: "reader_inv env (k + max_svs env) r" if "reader_inv env k r" for r
    using that max_svs_nonneg reader_inv_mono by simp
  show ?thesis
  proof (cases "overflow r \<or> pos r \<ge> 128")
    case True
    then show ?thesis
      using up [OF assms(1)] by (auto simp: nmea_reader_addc_def safe_run_def reader_inv_def)
  next
    case False
    then have st: "\<not> overflow r" "0 \<le> pos r" "pos r < 128" "length (in_buf r) = 129"
      using assms(1) by (auto simp: reader_inv_def)
    have r1: "reader_inv env k (store c r)" using assms(1) False by (simp add: store_def reader_inv_def)
    obtain ev r2 where 2: "nmea_reader_parse env (store c r) = Some (ev, r2)" "reader_inv env (k + max_svs env) r2"
      using parse_safe [OF r1 assms(2,3)] by (auto simp: safe_run_def)
    have "reader_inv env (k + max_svs env) (r2\<lparr>pos := 0\<rparr>)" using 2(2) by (simp add: reader_inv_def)
    then show ?thesis
      using 2(1) up [OF r1] by (cases "c = CHR 0x0A") (simp_all add: addc_step [OF st] safe_run_def)
  qed
qed

lemma read_chars_safe:
  assumes "reader_inv env k r" "k + int (length cs) * max_svs env \<le> 2147483647" "0 < GPS_MAX_SVS env"
  shows "safe_run env (k + int (length cs) * max_svs env) (read_chars env cs r)"
  using assms
proof (induction cs arbitrary: r k)
  case Nil
  then show ?case by (simp add: safe_run_def)
next
  case (Cons c cs)
  define r0 where "r0 = (if cs = [] then r\<lparr>gps_nmea_end_tag := True\<rparr> else r)"
  have r0: "reader_inv env k r0" using Cons.prems(1) by (simp add: r0_def reader_inv_def)
  have "0 \<le> int (length cs) * max_svs env" using max_svs_nonneg by simp
  then have k: "k + max_svs env \<le> 2147483647" "k + max_svs env + int (length cs) * max_svs env \<le> 2147483647"
    using Cons.prems(2) by (simp_all add: algebra_simps)
  obtain ev1 r1 where 1: "nmea_reader_addc env c r0 = Some (ev1, r1)" "reader_inv env (k + max_svs env) r1"
    using addc_safe [OF r0 k(1) Cons.prems(3), of c] by (auto simp: safe_run_def)
  obtain ev2 r2 where "read_chars env cs r1 = Some (ev2, r2)"
    "reader_inv env (k + max_svs env + int (length cs) * max_svs env) r2"
    using Cons.IH [OF 1(2) k(2) Cons.prems(3)] by (auto simp: safe_run_def)
  with 1(1) show ?case by (simp add: safe_run_def r0_def [symmetric] algebra_simps)
qed

lemma read_all_safe:
  assumes "reader_inv env k r" "0 < GPS_MAX_SVS env"
    and "k + int (length (concat bs)) * max_svs env \<le> 2147483647"
  shows "\<exists>ev r'. read_all env bs r = Some (ev, r') \<and> reader_inv env (k + int (length (concat bs)) * max_svs env) r'"
  using assms
proof (induction bs arbitrary: r k)
  case (Cons b bs)
  have r0: "reader_inv env k (r\<lparr>gps_nmea_end_tag := False\<rparr>)" using Cons.prems(1) by (simp add: reader_inv_def)
  have "0 \<le> int (length (concat bs)) * max_svs env" using max_svs_nonneg by simp
  then have k: "k + int (length b) * max_svs env \<le> 2147483647"
    "k + int (length b) * max_svs env + int (length (concat bs)) * max_svs env \<le> 2147483647"
    using Cons.prems(3) by (simp_all add: algebra_simps)
  obtain ev1 r1 where 1: "read_device env b r = Some (ev1, r1)" "reader_inv env (k + int (length b) * max_svs env) r1"
    using read_chars_safe [OF r0 k(1) Cons.prems(2)] by (auto simp: safe_run_def read_device_def)
  from Cons.IH [OF 1(2) Cons.prems(2) k(2)] 1(1) show ?case by (auto simp: algebra_simps)
qed simp


text \<open>A device with 32 and 64 satellites at most, and a reader just started.\<close>

definition ex_env :: "int \<Rightarrow> nmea_env" where
  "ex_env md = \<lparr>GPS_MAX_SVS = 32, GNSS_MAX_SVS = 64, utc_date = (2017, 5, 4),
     mktime = (\<lambda>(y, mo, d, h, mi, s). ((h * 60) + mi) * 60 + s), gmtoff = (\<lambda>_. 0), gps_mode = md,
     get_prop = False, nav_started = 1\<rparr>"

definition ex_reader :: "int \<Rightarrow> nmea_reader" where
  "ex_reader md = nmea_reader_init (ex_env md) GNSS_CONSTELLATION_GPS 0 (replicate 256 0) False"

lemma ex_reader_inv: "reader_inv (ex_env md) 0 (ex_reader md)"
  by (simp add: reader_inv_def ex_reader_def nmea_reader_init_def ex_env_def max_svs_def NMEA_MAX_SIZE_def)


section \<open>Sentences as a stream of lines\<close>

text \<open>
  The specification of the collection of characters: a line is collected until its end, given
  up when it reaches the size of the buffer, and the rest of it is skipped.
\<close>

datatype line_state = Collect string | Skip

fun assemble :: "string \<Rightarrow> line_state \<Rightarrow> string list \<times> line_state" where
  "assemble [] st = ([], st)"
| "assemble (c # cs) Skip = assemble cs (if c = CHR 0x0A then Collect [] else Skip)"
| "assemble (c # cs) (Collect acc) =
     (if length acc \<ge> 128 then assemble cs Skip
      else if c = CHR 0x0A then
        (let (ls, st) = assemble cs (Collect []) in ((acc @ [c]) # ls, st))
      else assemble cs (Collect (acc @ [c])))"

lemma assemble_append:
  "assemble (xs @ ys) st =
     (let (l1, s1) = assemble xs st; (l2, s2) = assemble ys s1 in (l1 @ l2, s2))"
  by (induction xs st rule: assemble.induct) (simp_all add: Let_def split_beta)

definition line_of :: "nmea_reader \<Rightarrow> line_state" where
  "line_of r = (if overflow r then Skip else Collect (take (nat (pos r)) (in_buf r)))"

definition nmea_texts :: "nmea_event list \<Rightarrow> string list" where
  "nmea_texts evs = List.map_filter (\<lambda>e. case e of NmeaCb _ t \<Rightarrow> Some t | _ \<Rightarrow> None) evs"

lemma nmea_texts_append [simp]: "nmea_texts (xs @ ys) = nmea_texts xs @ nmea_texts ys"
  by (simp add: nmea_texts_def map_filter_def)

text \<open>Parsing a sentence does not touch the input.\<close>

definition same_input :: "nmea_reader \<Rightarrow> nmea_reader \<Rightarrow> bool" where
  "same_input r r' \<longleftrightarrow> in_buf r' = in_buf r \<and> pos r' = pos r \<and> overflow r' = overflow r"

lemma same_input_refl [simp]: "same_input r r"
  by (simp add: same_input_def)

lemma same_input_trans: "same_input r r' \<Longrightarrow> same_input r' r'' \<Longrightarrow> same_input r r''"
  by (simp add: same_input_def)

lemma same_input_updates [simp]:
  "same_input (r\<lparr>sv_used_in_fix := u\<rparr>) r' \<longleftrightarrow> same_input r r'"
  "same_input (r\<lparr>used_in_fix_mask := w\<rparr>) r' \<longleftrightarrow> same_input r r'"
  "same_input (r\<lparr>fix_mode := i\<rparr>) r' \<longleftrightarrow> same_input r r'"
  "same_input (r\<lparr>sv_count := i\<rparr>) r' \<longleftrightarrow> same_input r r'"
  "same_input r (r'\<lparr>used_in_fix_mask := w\<rparr>) \<longleftrightarrow> same_input r r'"
  "same_input r (r'\<lparr>sv_count := i\<rparr>) \<longleftrightarrow> same_input r r'"
  "same_input r (r'\<lparr>gps_num_svs := i\<rparr>) \<longleftrightarrow> same_input r r'"
  "same_input r (r'\<lparr>gnss_num_svs := i\<rparr>) \<longleftrightarrow> same_input r r'"
  "same_input r (r'\<lparr>almanac_mask := w\<rparr>) \<longleftrightarrow> same_input r r'"
  "same_input r (r'\<lparr>ephemeris_mask := w\<rparr>) \<longleftrightarrow> same_input r r'"
  "same_input r (r'\<lparr>sv_used_in_fix := u\<rparr>) \<longleftrightarrow> same_input r r'"
  "same_input r (r'\<lparr>fix_mode := i\<rparr>) \<longleftrightarrow> same_input r r'"
  "same_input r (r'\<lparr>fix_loc := x\<rparr>) \<longleftrightarrow> same_input r r'"
  "same_input r (r'\<lparr>gps_sv_list := ls\<rparr>) \<longleftrightarrow> same_input r r'"
  "same_input r (r'\<lparr>gnss_sv_list := gs\<rparr>) \<longleftrightarrow> same_input r r'"
  by (simp_all add: same_input_def)

lemma gsa_used_input: "gsa_used bds ts is r = Some r' \<Longrightarrow> same_input r r'"
proof (induction "is" arbitrary: r bds)
  case (Cons idx "is")
  from Cons.prems show ?case
    by (auto simp: Let_def bind_eq_Some_conv dest!: Cons.IH split: if_splits)
qed simp

lemma gsa_mask_input: "gsa_mask ts is r = Some r' \<Longrightarrow> same_input r r'"
proof (induction "is" arbitrary: r)
  case (Cons idx "is")
  from Cons.prems show ?case
    by (auto simp: Let_def bind_eq_Some_conv dest!: Cons.IH split: if_splits)
qed simp

lemma update_sv_input:
  "nmea_reader_update_sv_status_gps env r prn ele azi snr = Some r' \<Longrightarrow> same_input r r'"
  "nmea_reader_update_sv_status_gnss env r prn ele azi snr = Some r' \<Longrightarrow> same_input r r'"
  by (auto simp: nmea_reader_update_sv_status_gps_def nmea_reader_update_sv_status_gnss_def Let_def
      bind_eq_Some_conv split: if_splits)

lemma gsv_svs_input:
  assumes "\<And>r prn ele azi snr r'. update r prn ele azi snr = Some r' \<Longrightarrow> same_input r r'"
  shows "gsv_svs update bds ts is r = Some r' \<Longrightarrow> same_input r r'"
proof (induction "is" arbitrary: r)
  case (Cons idx "is")
  from Cons.prems obtain sid r1 where "update r sid (nmea_tokenizer_get ts (4 * (int idx + 1) + 1))
      (nmea_tokenizer_get ts (4 * (int idx + 1) + 2)) (nmea_tokenizer_get ts (4 * (int idx + 1) + 3)) = Some r1"
    "gsv_svs update bds ts is r1 = Some r'"
    by (auto simp: Let_def bind_eq_Some_conv)
  then show ?case using assms Cons.IH same_input_trans by blast
qed simp

lemma fix_only_input: "fix_only r r' \<Longrightarrow> same_input r r'"
  by (simp add: fix_only_def same_input_def)

lemma parse_gsa_input:
  "parse_gsa_gnss bds ts r = Some r' \<Longrightarrow> same_input r r'"
  "parse_gsa_gps ts r = Some r' \<Longrightarrow> same_input r r'"
  by (auto simp: parse_gsa_gnss_def parse_gsa_gps_def Let_def bind_eq_Some_conv
      dest!: gsa_used_input gsa_mask_input split: if_splits)

lemma gsv_svs_gnss_input:
  "gsv_svs (nmea_reader_update_sv_status_gnss env) bds ts is r = Some r' \<Longrightarrow> same_input r r'"
  by (rule gsv_svs_input [where update = "nmea_reader_update_sv_status_gnss env"]) (rule update_sv_input)

lemma gsv_svs_gps_input:
  "gsv_svs (nmea_reader_update_sv_status_gps env) bds ts is r = Some r' \<Longrightarrow> same_input r r'"
  by (rule gsv_svs_input [where update = "nmea_reader_update_sv_status_gps env"]) (rule update_sv_input)

lemma parse_gsv_gnss_input:
  assumes "parse_gsv_gnss env bds ts r = Some r'"
  shows "same_input r r'"
proof -
  obtain num sq cnt n where h: "gsv_head ts = Some (num, sq, cnt, n)"
    using assms by (cases "gsv_head ts") (auto simp: parse_gsv_gnss_def)
  obtain r2 where
    "gsv_svs (nmea_reader_update_sv_status_gnss env) bds ts [0..<nat n] (if sq = 1 then r\<lparr>sv_count := 0\<rparr> else r) = Some r2"
    and r': "r' = (if sq = num then
             if sv_count r2 \<le> cnt then r2\<lparr>gnss_num_svs := wrap32 (gnss_num_svs r2 + sv_count r2)\<rparr>
             else r2\<lparr>sv_count := 0, gnss_num_svs := 0\<rparr>
           else r2)"
    using assms h by (auto simp: parse_gsv_gnss_def Let_def bind_eq_Some_conv)
  from gsv_svs_gnss_input [OF this(1)] have "same_input r r2" by (simp split: if_splits)
  then show ?thesis by (simp add: r')
qed

lemma parse_gsv_gps_input:
  assumes "parse_gsv_gps env bds ts r = Some r'"
  shows "same_input r r'"
proof -
  obtain num sq cnt n where h: "gsv_head ts = Some (num, sq, cnt, n)"
    using assms by (cases "gsv_head ts") (auto simp: parse_gsv_gps_def)
  obtain r2 where
    "gsv_svs (nmea_reader_update_sv_status_gps env) bds ts [0..<nat n] (if sq = 1 then r\<lparr>sv_count := 0\<rparr> else r) = Some r2"
    and r': "r' = (if sq = num then
             if sv_count r2 \<le> cnt then
               r2\<lparr>gps_num_svs := wrap32 (gps_num_svs r2 + sv_count r2), almanac_mask := 0, ephemeris_mask := 0\<rparr>
             else r2\<lparr>sv_count := 0, gps_num_svs := 0\<rparr>
           else r2)"
    using assms h by (auto simp: parse_gsv_gps_def Let_def bind_eq_Some_conv)
  from gsv_svs_gps_input [OF this(1)] have "same_input r r2" by (simp split: if_splits)
  then show ?thesis by (simp add: r')
qed

lemma update_field_input:
  "nmea_reader_update_accuracy r t = Some (x, r') \<Longrightarrow> same_input r r'"
  "nmea_reader_update_altitude r t = Some (x, r') \<Longrightarrow> same_input r r'"
  "nmea_reader_update_bearing r t = Some (x, r') \<Longrightarrow> same_input r r'"
  "nmea_reader_update_speed r t = Some (x, r') \<Longrightarrow> same_input r r'"
  by (cases "tok_p t \<ge> tok_end t"; cases "tok_float t";
      auto simp: nmea_reader_update_accuracy_def nmea_reader_update_altitude_def nmea_reader_update_bearing_def
        nmea_reader_update_speed_def)+

lemma update_latlong_input:
  "nmea_reader_update_latlong r t c u d = Some (x, r') \<Longrightarrow> same_input r r'"
  by (cases "tok_p t + 6 > tok_end t"; cases "convert_from_hhmm t"; cases "tok_p u + 6 > tok_end u";
      cases "convert_from_hhmm u"; auto simp: nmea_reader_update_latlong_def Let_def)

lemma update_time_input:
  assumes "nmea_reader_update_time env r t = Some (x, r')"
  shows "same_input r r'"
proof -
  obtain y mo d where "utc_date env = (y, mo, d)" by (rule prod_cases3)
  with assms show ?thesis
    by (auto simp: nmea_reader_update_time_def bind_eq_Some_conv Let_def same_input_def split: if_splits)
qed

lemma update_date_input:
  "nmea_reader_update_date env r d t = Some (x, r') \<Longrightarrow> same_input r r'"
  by (auto simp: nmea_reader_update_date_def bind_eq_Some_conv Let_def same_input_def
      dest!: update_time_input split: if_splits)

lemma parse_gga_input: "parse_gga env ts r = Some r' \<Longrightarrow> same_input r r'"
  by (auto simp: parse_gga_def bind_eq_Some_conv
      dest!: update_time_input update_field_input update_latlong_input intro: same_input_trans)

lemma parse_rmc_input: "parse_rmc env ts r = Some r' \<Longrightarrow> same_input r r'"
  by (auto simp: parse_rmc_def bind_eq_Some_conv
      dest!: update_date_input update_field_input update_latlong_input intro: same_input_trans split: if_splits)

lemma parse_accuracy_input: "parse_accuracy ts r = Some r' \<Longrightarrow> same_input r r'"
  by (auto simp: parse_accuracy_def bind_eq_Some_conv dest!: update_field_input split: if_splits)

lemma parse_sentence_input:
  assumes "parse_sentence env ts r = Some r'"
  shows "same_input r r'"
proof -
  obtain bds gga gpgsa bdgsa glgsa rmc gsv gpgsv glgsv acc where
    "(if gga then parse_gga env ts r
     else if gps_mode env = 0 \<and> (gpgsa \<or> bdgsa \<or> glgsa) then parse_gsa_gnss bds ts r
     else if gps_mode env = 1 \<and> gpgsa then parse_gsa_gps ts r
     else if rmc then parse_rmc env ts r
     else if gps_mode env = 0 \<and> gsv then parse_gsv_gnss env bds ts r
     else if gps_mode env = 1 \<and> (gpgsv \<or> glgsv) then parse_gsv_gps env bds ts r
     else if acc then parse_accuracy ts r
     else Some r) = Some r'"
    using assms unfolding parse_sentence_def Let_def bind_eq_Some_conv by blast
  then have "parse_gga env ts r = Some r' \<or> (\<exists>b. parse_gsa_gnss b ts r = Some r') \<or> parse_gsa_gps ts r = Some r' \<or>
    parse_rmc env ts r = Some r' \<or> (\<exists>b. parse_gsv_gnss env b ts r = Some r') \<or>
    (\<exists>b. parse_gsv_gps env b ts r = Some r') \<or> parse_accuracy ts r = Some r' \<or> r' = r"
    by (auto split: if_splits)
  then show ?thesis
    using parse_gga_input parse_gsa_input parse_rmc_input parse_gsv_gnss_input parse_gsv_gps_input
      parse_accuracy_input by auto
qed

lemma report_fix_input: "same_input r (snd (report_fix env r)) \<and> nmea_texts (fst (report_fix env r)) = []"
  by (auto simp: report_fix_def nmea_texts_def)

lemma report_svs_input: "report_svs env r = Some (ev, r') \<Longrightarrow> same_input r r' \<and> nmea_texts ev = []"
  by (cases "gps_mode env = 0"; cases "gps_nmea_end_tag r"; cases "gnss_num_svs r = 0"; cases "gps_num_svs r > 0";
      cases "rd (gps_sv_list r) 0"; auto simp: report_svs_def nmea_texts_def)

lemma parse_input:
  assumes "nmea_reader_parse env r = Some (ev, r')"
  shows "same_input r r' \<and> nmea_texts ev = []"
proof (cases "pos r < 9 \<or> nmea_tokenizer_init (in_buf r) 0 (nat (pos r)) = None")
  case True
  then show ?thesis using assms by (auto simp: nmea_reader_parse_def nmea_texts_def split: if_splits)
next
  case False
  then obtain ts where ts: "nmea_tokenizer_init (in_buf r) 0 (nat (pos r)) = Some ts" by auto
  have long: "\<not> pos r \<ge> int (length (in_buf r))" using assms False by (auto simp: nmea_reader_parse_def)
  show ?thesis
  proof (cases "tok_p (nmea_tokenizer_get ts 0) + 5 > tok_end (nmea_tokenizer_get ts 0) \<or> parse_sentence env ts r = None")
    case True
    then show ?thesis
      using assms False long ts by (auto simp: nmea_reader_parse_def nmea_texts_def Let_def split: if_splits)
  next
    case c: False
    then obtain r1 where r1: "parse_sentence env ts r = Some r1" by auto
    obtain ev1 r2 where f: "report_fix env r1 = (ev1, r2)" by force
    then obtain ev2 where "report_svs env r2 = Some (ev2, r')" "ev = ev1 @ ev2"
      using assms False long ts c r1 by (auto simp: nmea_reader_parse_def Let_def bind_eq_Some_conv)
    with parse_sentence_input [OF r1] report_fix_input [of r1 env] f show ?thesis
      using report_svs_input same_input_trans by fastforce
  qed
qed

lemma line_of_store:
  assumes "\<not> overflow r" "0 \<le> pos r" "pos r < 128" "length (in_buf r) = 129"
  shows "take (nat (pos r + 1)) ((in_buf r)[nat (pos r) := c]) = take (nat (pos r)) (in_buf r) @ [c]"
  using assms by (simp add: nat_add_distrib take_Suc_conv_app_nth)

lemma addc_assemble:
  assumes "reader_inv env k r" "nmea_reader_addc env c r = Some (ev, r')"
  shows "assemble [c] (line_of r) = (nmea_texts ev, line_of r')"
proof -
  have inv: "0 \<le> pos r" "pos r \<le> 128" "length (in_buf r) = 129" using assms(1) by (simp_all add: reader_inv_def)
  consider "overflow r" | "\<not> overflow r" "pos r = 128" | "\<not> overflow r" "pos r < 128" using inv by linarith
  then show ?thesis
  proof cases
    case 1
    then show ?thesis using assms by (auto simp: nmea_reader_addc_def line_of_def nmea_texts_def reader_inv_def)
  next
    case 2
    then show ?thesis
      using assms(2) inv by (auto simp: nmea_reader_addc_def line_of_def nmea_texts_def)
  next
    case 3
    note st = 3(1) inv(1) 3(2) inv(3)
    have ln: "length (take (nat (pos r)) (in_buf r)) < 128" "nat (pos r) < 128" using inv 3 by simp_all
    show ?thesis
    proof (cases "c = CHR 0x0A")
      case False
      then show ?thesis
        using assms(2) ln line_of_store [OF st, of c] 3
        by (auto simp: addc_step [OF st] line_of_def store_def nmea_texts_def)
    next
      case True
      then obtain ev1 r2 where p: "nmea_reader_parse env (store c r) = Some (ev1, r2)"
        "ev = ev1 @ [NmeaCb (timestamp (fix_loc r2)) (take (nat (pos r2)) (in_buf r2))]" "r' = r2\<lparr>pos := 0\<rparr>"
        using assms(2) by (auto simp: addc_step [OF st] bind_eq_Some_conv)
      from parse_input [OF p(1)] have "same_input (store c r) r2" "nmea_texts ev1 = []" by simp_all
      then show ?thesis
        using p True ln line_of_store [OF st, of c] 3
        by (simp add: same_input_def store_def line_of_def nmea_texts_def map_filter_def)
    qed
  qed
qed

lemma line_of_tag [simp]: "line_of (r\<lparr>gps_nmea_end_tag := b\<rparr>) = line_of r"
  by (simp add: line_of_def)

lemma read_chars_assemble:
  assumes "reader_inv env k r" "k + int (length cs) * max_svs env \<le> 2147483647" "0 < GPS_MAX_SVS env"
    and "read_chars env cs r = Some (ev, r')"
  shows "assemble cs (line_of r) = (nmea_texts ev, line_of r')"
  using assms
proof (induction cs arbitrary: r k ev)
  case Nil
  then show ?case by (simp add: nmea_texts_def)
next
  case (Cons c cs)
  define r0 where "r0 = (if cs = [] then r\<lparr>gps_nmea_end_tag := True\<rparr> else r)"
  have r0: "reader_inv env k r0" "line_of r0 = line_of r"
    using Cons.prems(1) by (simp_all add: r0_def reader_inv_def)
  have "0 \<le> int (length cs) * max_svs env" using max_svs_nonneg by simp
  then have k: "k + max_svs env \<le> 2147483647" "k + max_svs env + int (length cs) * max_svs env \<le> 2147483647"
    using Cons.prems(2) by (simp_all add: algebra_simps)
  obtain ev1 r1 where 1: "nmea_reader_addc env c r0 = Some (ev1, r1)" "reader_inv env (k + max_svs env) r1"
    using addc_safe [OF r0(1) k(1) Cons.prems(3), of c] by (auto simp: safe_run_def)
  from Cons.prems(4) 1(1) obtain ev2 where 2: "read_chars env cs r1 = Some (ev2, r')" "ev = ev1 @ ev2"
    by (auto simp: r0_def [symmetric] bind_eq_Some_conv)
  from addc_assemble [OF r0(1) 1(1)] Cons.IH [OF 1(2) k(2) Cons.prems(3) 2(1)] r0(2) 2(2) show ?case
    using assemble_append [of "[c]" cs "line_of r"] by simp
qed



section \<open>Where the code and its intent part\<close>

text \<open>
  A line whose end falls on the last byte of the buffer is given up with its end, so that the
  next line, however short, is skipped as the rest of it.
\<close>

lemma assemble_collect:
  "CHR 0x0A \<notin> set cs \<Longrightarrow> length acc + length cs \<le> 128 \<Longrightarrow>
   assemble (cs @ ds) (Collect acc) = assemble ds (Collect (acc @ cs))"
  by (induction cs arbitrary: acc) auto

theorem line_at_limit_loses_next:
  assumes "length cs = 128" "CHR 0x0A \<notin> set cs" "CHR 0x0A \<notin> set next_line"
  shows "assemble (cs @ [CHR 0x0A] @ next_line @ [CHR 0x0A]) (Collect []) = ([], Collect [])"
proof -
  have skip: "assemble (next_line @ [CHR 0x0A]) Skip = ([], Collect [])"
    using assms(3) by (induction next_line) auto
  have "assemble (cs @ [CHR 0x0A] @ next_line @ [CHR 0x0A]) (Collect []) =
      assemble ([CHR 0x0A] @ next_line @ [CHR 0x0A]) (Collect cs)"
    using assemble_collect [of cs "[]"] assms by simp
  then show ?thesis using skip assms(1) by simp
qed

text \<open>
  A last message of a cycle that comes again without the first one counts the satellites again:
  the number reported grows past the list.
\<close>

theorem repeated_gsv_counts_again:
  assumes "gsv_head ts = Some (n, n, cnt, sv)" "n \<noteq> 1" "sv \<le> 0" "sv_count r \<le> cnt"
    and "0 \<le> gnss_num_svs r" "0 \<le> sv_count r" "gnss_num_svs r + sv_count r \<le> 2147483647"
  shows "parse_gsv_gnss env bds ts r = Some (r\<lparr>gnss_num_svs := gnss_num_svs r + sv_count r\<rparr>)"
proof -
  have "wrap32 (gnss_num_svs r + sv_count r) = gnss_num_svs r + sv_count r"
    using assms by (intro wrap32_id) auto
  with assms show ?thesis by (simp add: parse_gsv_gnss_def)
qed

text \<open>The number 200 is taken for a GLONASS satellite, whose numbers are 65 to 96.\<close>

theorem svid_200_is_glonass: "constellation_of 200 = GNSS_CONSTELLATION_GLONASS"
  by (simp add: constellation_of_def)

end
