(* ===== verification/GpsMnld.thy ===== *)
theory GpsMnld
  imports GpsBuffer NmeaReader
begin

text \<open>
  The messages from the positioning daemon to the GPS HAL and what the HAL does on each of them
  (\<^verbatim>\<open>mnld_to_gps_handler\<close> in \<^verbatim>\<open>hal/gps/hal/gps_mtk_aosp.c\<close>), with the state of the HAL the handler and
  the session share.  The calls to the framework are the list of events a handler returns; an
  access outside an array or through a null pointer is \<open>None\<close>.

  The sizes and the layout of the structures a datagram carries, and the constants of the
  framework's header, are the fields of \<open>mnld_env\<close>.
\<close>

section \<open>The state of the HAL\<close>

datatype gps_status = ENGINE_OFF | SESSION_END | ENGINE_ON | SESSION_BEGIN

datatype sync = M_START | M_STOP | M_CLEANUP | M_INIT | M_THREAD_EXIT | M_MNLDIE

text \<open>
  The globals: the flags, the wait conditions, the callbacks registered, the flags of the
  measurement and navigation interfaces, the files, the sockets.
\<close>

record gps =
  init :: int
  start_flag :: int
  started :: int
  flag_unlock :: int
  sta :: gps_status
  condtion :: "sync \<Rightarrow> bool"
  agps_callbacks :: bool
  gps_ni_callbacks :: bool
  agps_ril_callbacks :: bool
  gpsmeasurement_init_flag :: int
  gpsnavigation_init_flag :: int
  epo_download_failed :: int
  gps_epo_file_count :: int
  send_fd :: int
  files :: "string \<Rightarrow> byte list option"
  sock :: net

definition LOCATION_NLP_FIX :: string where "LOCATION_NLP_FIX = ''/data/misc/gps/LOCATION.DAT''"
definition EPO_FILE :: string where "EPO_FILE = ''/data/misc/gps/EPO.DAT''"
definition EPO_FILE_HAL :: string where "EPO_FILE_HAL = ''/data/misc/gps/EPOHAL.DAT''"

definition release_condition :: "sync \<Rightarrow> gps \<Rightarrow> gps" where
  "release_condition lock g = g\<lparr>condtion := (condtion g)(lock := True)\<rparr>"

text \<open>Waiting: no step while the condition is not set.\<close>

definition get_condition :: "sync \<Rightarrow> gps \<Rightarrow> gps option" where
  "get_condition lock g = (if condtion g lock then Some (g\<lparr>condtion := (condtion g)(lock := False)\<rparr>) else None)"

definition agps_init :: "bool \<Rightarrow> gps \<Rightarrow> gps" where
  "agps_init callbacks g = g\<lparr>agps_callbacks := callbacks\<rparr>"

definition gps_ni_init :: "bool \<Rightarrow> gps \<Rightarrow> gps" where
  "gps_ni_init callbacks g = g\<lparr>gps_ni_callbacks := callbacks\<rparr>"

definition agps_ril_init :: "bool \<Rightarrow> gps \<Rightarrow> gps" where
  "agps_ril_init callbacks g = g\<lparr>agps_ril_callbacks := callbacks\<rparr>"

section \<open>The structures of the messages\<close>

record agps_location =
  al_latitude :: rat
  al_longitude :: rat
  al_altitude :: "rat option"
  al_speed :: "rat option"
  al_bearing :: "rat option"
  al_accuracy :: "rat option"
  al_timestamp :: "int option"

record mtk_gps_measurement =
  flag :: int
  PRN :: int
  TimeOffsetInNs :: rat
  state :: int
  ReGpsTowInNs :: int
  ReGpsTowUnInNs :: int
  Cn0InDbHz :: rat
  PRRateInMeterPreSec :: rat
  PRRateUnInMeterPreSec :: rat
  AcDRState10 :: int
  AcDRInMeters :: rat
  AcDRUnInMeters :: rat
  PRInMeters :: rat
  PRUnInMeters :: rat
  CPInChips :: rat
  CPUnInChips :: rat
  CFInhZ :: rat
  CarrierCycle :: int
  CarrierPhase :: rat
  CarrierPhaseUn :: rat
  LossOfLock :: int
  BitNumber :: int
  TimeFromLastBitInMs :: int
  DopperShiftInHz :: rat
  DopperShiftUnInHz :: rat
  MultipathIndicater :: int
  SnrInDb :: rat
  ElInDeg :: rat
  ElUnInDeg :: rat
  AzInDeg :: rat
  AzUnInDeg :: rat
  UsedInFix :: int

record mtk_gps_clock =
  c_flag :: int
  leapsecond :: int
  c_type :: int
  TimeInNs :: int
  TimeUncertaintyInNs :: rat
  FullBiasInNs :: int
  BiasInNs :: rat
  BiasUncertaintyInNs :: rat
  DriftInNsPerSec :: rat
  DriftUncertaintyInNsPerSec :: rat

record navigation_event =
  ne_type :: int
  ne_prn :: int
  messageID :: int
  submessageID :: int
  ne_length :: nat
  ne_data :: "byte list"

text \<open>What the framework gets.\<close>

record gps_measurement =
  accumulated_delta_range_m :: rat
  accumulated_delta_range_state :: int
  accumulated_delta_range_uncertainty_m :: rat
  azimuth_deg :: rat
  azimuth_uncertainty_deg :: rat
  bit_number :: int
  carrier_cycles :: int
  carrier_phase :: rat
  carrier_phase_uncertainty :: rat
  carrier_frequency_hz :: rat
  m_c_n0_dbhz :: rat
  code_phase_chips :: rat
  code_phase_uncertainty_chips :: rat
  doppler_shift_hz :: rat
  doppler_shift_uncertainty_hz :: rat
  elevation_deg :: rat
  elevation_uncertainty_deg :: rat
  m_flags :: int
  loss_of_lock :: int
  multipath_indicator :: int
  pseudorange_m :: rat
  m_prn :: int
  pseudorange_rate_mps :: rat
  pseudorange_rate_uncertainty_mps :: rat
  pseudorange_uncertainty_m :: rat
  received_gps_tow_ns :: int
  received_gps_tow_uncertainty_ns :: int
  snr_db :: rat
  m_state :: int
  time_from_last_bit_ms :: int
  time_offset_ns :: rat
  m_used_in_fix :: int

record gps_clock =
  bias_ns :: rat
  bias_uncertainty_ns :: rat
  drift_nsps :: rat
  clock_flags :: int
  leap_second :: int
  time_ns :: int
  time_uncertainty_ns :: rat
  clock_type :: int
  full_bias_ns :: int
  drift_uncertainty_nsps :: rat

datatype ni_flag = NEED_NOTIFY | NEED_VERIFY | PRIVACY_OVERRIDE

record ni_notification =
  notification_id :: int
  notify_flags :: "ni_flag list"
  timeout_s :: int
  requestor_id :: "byte list"
  ni_text :: "byte list"
  requestor_id_encoding :: int
  text_encoding :: int

datatype upcall =
    StatusCb gps_status
  | NotifyCb ni_notification
  | DataConnRequest int
  | DataConnRequest2 "byte list"
  | DataConnRelease
  | RequestSetId int
  | RequestRefloc int
  | LocationUp gps_location
  | RequestUtcTime
  | ReleaseWakelock
  | AcquireWakelock
  | SetCapabilities
  | MeasurementCb gps_measurement gps_clock
  | NavigationCb int int int int "byte list"

record mnld_env =
  GPS_NI_SHORT_STRING_MAXLEN :: nat
  GPS_NI_LONG_STRING_MAXLEN :: nat
  GPS_ENC_SUPL_UCS2 :: int
  sizeof_location :: nat
  location_at :: "byte list \<Rightarrow> agps_location"
  sizeof_sockaddr_storage :: nat
  sizeof_measurement :: nat
  measurement_at :: "byte list \<Rightarrow> mtk_gps_measurement"
  sizeof_clock :: nat
  clock_at :: "byte list \<Rightarrow> mtk_gps_clock"
  sizeof_navigation :: nat
  navigation_at :: "byte list \<Rightarrow> navigation_event"
  sizeof_nlp :: nat
  nlp_set_started :: "int \<Rightarrow> byte list \<Rightarrow> byte list"
  location_cb :: bool
  request_utc_time_cb :: bool
  malloc_ok :: bool

section \<open>Commands of the daemon\<close>

definition MNL_AGPS_CMD_NOTIFICATION :: int where "MNL_AGPS_CMD_NOTIFICATION = 230"
definition MNL_AGPS_CMD_DATA_CONN_REQ :: int where "MNL_AGPS_CMD_DATA_CONN_REQ = 231"
definition MNL_AGPS_CMD_DATA_CONN_RELEASE :: int where "MNL_AGPS_CMD_DATA_CONN_RELEASE = 232"
definition MNL_AGPS_CMD_REQUEST_SET_ID :: int where "MNL_AGPS_CMD_REQUEST_SET_ID = 233"
definition MNL_AGPS_CMD_REQUEST_REFLOC :: int where "MNL_AGPS_CMD_REQUEST_REFLOC = 234"
definition MNL_AGPS_CMD_AGPS_LOC :: int where "MNL_AGPS_CMD_AGPS_LOC = 235"
definition MNL_AGPS_CMD_NOTIFICATION_2 :: int where "MNL_AGPS_CMD_NOTIFICATION_2 = 236"
definition MNL_AGPS_CMD_DATA_CONN_REQ2 :: int where "MNL_AGPS_CMD_DATA_CONN_REQ2 = 237"
definition HAL_CMD_UPDATE_EPO_FILE_DONE :: int where "HAL_CMD_UPDATE_EPO_FILE_DONE = 54"
definition HAL_CMD_UPDATE_EPO_FILE_FAIL :: int where "HAL_CMD_UPDATE_EPO_FILE_FAIL = 56"
definition HAL_CMD_MNL_DIE :: int where "HAL_CMD_MNL_DIE = 65"
definition HAL_CMD_GPS_ICON :: int where "HAL_CMD_GPS_ICON = 66"
definition MNL_CMD_GPS_INJECT_TIME_REQ :: int where "MNL_CMD_GPS_INJECT_TIME_REQ = 72"
definition MNL_CMD_GPS_INJECT_LOCATION_REQ :: int where "MNL_CMD_GPS_INJECT_LOCATION_REQ = 73"
definition HAL_CMD_MEASUREMENT :: int where "HAL_CMD_MEASUREMENT = 118"
definition HAL_CMD_NAVIGATION :: int where "HAL_CMD_NAVIGATION = 119"

lemmas mnld_command_defs =
  MNL_AGPS_CMD_NOTIFICATION_def MNL_AGPS_CMD_DATA_CONN_REQ_def MNL_AGPS_CMD_DATA_CONN_RELEASE_def
  MNL_AGPS_CMD_REQUEST_SET_ID_def MNL_AGPS_CMD_REQUEST_REFLOC_def MNL_AGPS_CMD_AGPS_LOC_def
  MNL_AGPS_CMD_NOTIFICATION_2_def MNL_AGPS_CMD_DATA_CONN_REQ2_def HAL_CMD_UPDATE_EPO_FILE_DONE_def
  HAL_CMD_UPDATE_EPO_FILE_FAIL_def HAL_CMD_MNL_DIE_def HAL_CMD_GPS_ICON_def
  MNL_CMD_GPS_INJECT_TIME_REQ_def MNL_CMD_GPS_INJECT_LOCATION_REQ_def HAL_CMD_MEASUREMENT_def
  HAL_CMD_NAVIGATION_def

section \<open>The cases of the handler\<close>

text \<open>The kinds of notification: 1 notify only, 2 and 3 verify, 4 privacy.\<close>

definition flags_of :: "int \<Rightarrow> ni_flag list" where
  "flags_of type =
    (if type = 1 then [NEED_NOTIFY]
     else if type = 2 then [NEED_NOTIFY, NEED_VERIFY]
     else if type = 3 then [NEED_NOTIFY, NEED_VERIFY]
     else if type = 4 then [PRIVACY_OVERRIDE]
     else [])"

text \<open>A name of the message as the hexadecimal text of its UCS-2 form, in a cleared array of \<open>cap\<close> bytes.\<close>

definition hex_name :: "nat \<Rightarrow> byte list \<Rightarrow> byte list option" where
  "hex_name cap name = do {
     (ucs2_buff, usc2_len) \<leftarrow> asc_str_to_usc2_str (replicate 1024 0) name;
     raw_data_to_hex_string (replicate cap 0) ucs2_buff usc2_len }"

definition on_notification :: "mnld_env \<Rightarrow> msg \<Rightarrow> gps \<Rightarrow> (gps \<times> upcall list) option" where
  "on_notification env m g = do {
     (id, m) \<leftarrow> buff_get_int m;
     (type, m) \<leftarrow> buff_get_int m;
     (requestor, m) \<leftarrow> buff_get_string 1024 m;
     (client, m) \<leftarrow> buff_get_string 1024 m;
     rid \<leftarrow> hex_name (GPS_NI_SHORT_STRING_MAXLEN env) requestor;
     str \<leftarrow> hex_name (GPS_NI_LONG_STRING_MAXLEN env) client;
     if gps_ni_callbacks g then
       Some (g, [NotifyCb \<lparr>notification_id = id, notify_flags = flags_of type, timeout_s = 8,
         requestor_id = rid, ni_text = str, requestor_id_encoding = GPS_ENC_SUPL_UCS2 env,
         text_encoding = GPS_ENC_SUPL_UCS2 env\<rparr>])
     else None }"

definition on_notification_2 :: "mnld_env \<Rightarrow> msg \<Rightarrow> gps \<Rightarrow> (gps \<times> upcall list) option" where
  "on_notification_2 env m g = do {
     (id, m) \<leftarrow> buff_get_int m;
     (type, m) \<leftarrow> buff_get_int m;
     (requestor, m) \<leftarrow> buff_get_string (GPS_NI_SHORT_STRING_MAXLEN env) m;
     (client, m) \<leftarrow> buff_get_string (GPS_NI_LONG_STRING_MAXLEN env) m;
     rid \<leftarrow> put_at (replicate (GPS_NI_SHORT_STRING_MAXLEN env) 0) 0 requestor;
     str \<leftarrow> put_at (replicate (GPS_NI_LONG_STRING_MAXLEN env) 0) 0 client;
     (renc, m) \<leftarrow> buff_get_int m;
     (tenc, m) \<leftarrow> buff_get_int m;
     if gps_ni_callbacks g then
       Some (g, [NotifyCb \<lparr>notification_id = id, notify_flags = flags_of type, timeout_s = 8,
         requestor_id = rid, ni_text = str, requestor_id_encoding = renc, text_encoding = tenc\<rparr>])
     else None }"

definition on_agps_location :: "mnld_env \<Rightarrow> msg \<Rightarrow> gps \<Rightarrow> (gps \<times> upcall list) option" where
  "on_agps_location env m g = do {
     (bs, m) \<leftarrow> buff_get_struct (int (sizeof_location env)) m;
     let location = location_at env bs;
     let l = no_location\<lparr>flags := {HAS_LAT_LONG}, latitude := al_latitude location,
       longitude := al_longitude location\<rparr>;
     let l = (case al_altitude location of None \<Rightarrow> l
       | Some v \<Rightarrow> l\<lparr>flags := insert HAS_ALTITUDE (flags l), altitude := v\<rparr>);
     let l = (case al_speed location of None \<Rightarrow> l
       | Some v \<Rightarrow> l\<lparr>flags := insert HAS_SPEED (flags l), speed := v\<rparr>);
     let l = (case al_bearing location of None \<Rightarrow> l
       | Some v \<Rightarrow> l\<lparr>flags := insert HAS_BEARING (flags l), bearing := v\<rparr>);
     let l = (case al_accuracy location of None \<Rightarrow> l
       | Some v \<Rightarrow> l\<lparr>flags := insert HAS_ACCURACY (flags l), accuracy := v\<rparr>);
     let l = (case al_timestamp location of None \<Rightarrow> l | Some v \<Rightarrow> l\<lparr>timestamp := v\<rparr>);
     Some (g, if location_cb env then [LocationUp l] else []) }"

text \<open>The stored position, with the session flag of now, is sent to the daemon.\<close>

definition mtk_gps_send_location_to_mnl :: "mnld_env \<Rightarrow> gps \<Rightarrow> gps option" where
  "mtk_gps_send_location_to_mnl env g =
    (case files g LOCATION_NLP_FIX of
       None \<Rightarrow> Some g
     | Some content \<Rightarrow>
        (let nlp = take (sizeof_nlp env) (content @ replicate (sizeof_nlp env) 0) in do {
         m \<leftarrow> buff_put_int MNL_CMD_GPS_INJECT_LOCATION BUFF;
         m \<leftarrow> buff_put_struct (nlp_set_started env (started g) nlp) (int (sizeof_nlp env)) m;
         if send_fd g \<ge> 0 then do {
           (res, n) \<leftarrow> mtk_daemon_send (fst m) (sock g);
           Some (g\<lparr>sock := n\<rparr>) }
         else Some g }))"

definition on_mnl_die :: "gps \<Rightarrow> gps \<times> upcall list" where
  "on_mnl_die g =
    (let g = g\<lparr>flag_unlock := 0, sta := ENGINE_OFF\<rparr>;
         g = release_condition M_STOP g in
     (g\<lparr>start_flag := 0\<rparr>, [StatusCb SESSION_END, StatusCb ENGINE_OFF, ReleaseWakelock]))"

definition on_gps_icon :: "msg \<Rightarrow> gps \<Rightarrow> (gps \<times> upcall list) option" where
  "on_gps_icon m g = do {
     (status, m) \<leftarrow> buff_get_int m;
     if status = 1 \<and> started g = 0 then
       Some (g\<lparr>sta := SESSION_BEGIN\<rparr>, [StatusCb ENGINE_ON, StatusCb SESSION_BEGIN])
     else if status = 0 \<and> started g = 0 then
       Some (g\<lparr>sta := SESSION_END\<rparr>, [StatusCb ENGINE_OFF, StatusCb SESSION_END])
     else Some (g, []) }"

definition clock_of :: "mtk_gps_clock \<Rightarrow> gps_clock" where
  "clock_of c = \<lparr>bias_ns = BiasInNs c, bias_uncertainty_ns = BiasUncertaintyInNs c,
     drift_nsps = DriftInNsPerSec c, clock_flags = c_flag c, leap_second = leapsecond c,
     time_ns = TimeInNs c, time_uncertainty_ns = TimeUncertaintyInNs c, clock_type = c_type c,
     full_bias_ns = FullBiasInNs c, drift_uncertainty_nsps = DriftUncertaintyInNsPerSec c\<rparr>"

definition measurement_of :: "mtk_gps_measurement \<Rightarrow> gps_measurement" where
  "measurement_of m = \<lparr>accumulated_delta_range_m = AcDRInMeters m,
     accumulated_delta_range_state = AcDRState10 m,
     accumulated_delta_range_uncertainty_m = AcDRUnInMeters m,
     azimuth_deg = AzInDeg m, azimuth_uncertainty_deg = AzUnInDeg m, bit_number = BitNumber m,
     carrier_cycles = CarrierCycle m, carrier_phase = CarrierPhase m,
     carrier_phase_uncertainty = CarrierPhaseUn m, carrier_frequency_hz = CFInhZ m,
     m_c_n0_dbhz = Cn0InDbHz m, code_phase_chips = CPInChips m,
     code_phase_uncertainty_chips = CPUnInChips m, doppler_shift_hz = DopperShiftInHz m,
     doppler_shift_uncertainty_hz = DopperShiftUnInHz m, elevation_deg = ElInDeg m,
     elevation_uncertainty_deg = ElUnInDeg m, m_flags = flag m, loss_of_lock = LossOfLock m,
     multipath_indicator = MultipathIndicater m, pseudorange_m = PRInMeters m, m_prn = PRN m,
     pseudorange_rate_mps = PRRateInMeterPreSec m,
     pseudorange_rate_uncertainty_mps = PRRateUnInMeterPreSec m,
     pseudorange_uncertainty_m = PRUnInMeters m, received_gps_tow_ns = ReGpsTowInNs m,
     received_gps_tow_uncertainty_ns = ReGpsTowUnInNs m, snr_db = SnrInDb m, m_state = state m,
     time_from_last_bit_ms = TimeFromLastBitInMs m, time_offset_ns = TimeOffsetInNs m,
     m_used_in_fix = UsedInFix m\<rparr>"

text \<open>The loop of the code ends after the first of the 32 measurements of the message.\<close>

definition on_measurement :: "mnld_env \<Rightarrow> msg \<Rightarrow> gps \<Rightarrow> (gps \<times> upcall list) option" where
  "on_measurement env m g =
    (if gpsmeasurement_init_flag g = 1 then do {
       (ms, m) \<leftarrow> buff_get_struct (32 * int (sizeof_measurement env)) m;
       (c, m) \<leftarrow> buff_get_struct (int (sizeof_clock env)) m;
       let first = measurement_of (measurement_at env (take (sizeof_measurement env) ms));
       let measurement_count = (if m_prn first \<noteq> 0 then 1 else 0 :: int);
       Some (g, if measurement_count > 0 then [MeasurementCb first (clock_of (clock_at env c))] else []) }
     else Some (g, []))"

definition on_navigation :: "mnld_env \<Rightarrow> msg \<Rightarrow> gps \<Rightarrow> (gps \<times> upcall list) option" where
  "on_navigation env m g =
    (if gpsnavigation_init_flag g = 1 \<and> malloc_ok env then do {
       (bs, m) \<leftarrow> buff_get_struct (int (sizeof_navigation env)) m;
       let e = navigation_at env bs;
       d \<leftarrow> get_at (ne_data e) 0 (int (ne_length e));
       Some (g, [NavigationCb (ne_prn e) (ne_type e) (messageID e) (submessageID e) d]) }
     else Some (g, []))"

section \<open>The handler\<close>

text \<open>What the array holds after the read: the bytes read, zeros behind them.\<close>

definition rx_buffer :: "int \<Rightarrow> byte list \<Rightarrow> byte list" where
  "rx_buffer ret d = (let bs = take (nat ret) d in take 9000 (bs @ replicate 9000 0))"

definition dispatch :: "mnld_env \<Rightarrow> int \<Rightarrow> msg \<Rightarrow> gps \<Rightarrow> (gps \<times> upcall list) option" where
  "dispatch env type m g =
    (if type = MNL_AGPS_CMD_NOTIFICATION then on_notification env m g
     else if type = MNL_AGPS_CMD_NOTIFICATION_2 then on_notification_2 env m g
     else if type = MNL_AGPS_CMD_DATA_CONN_REQ then do {
       (ipaddr, m) \<leftarrow> buff_get_int m;
       (is_emergency, m) \<leftarrow> buff_get_int m;
       if agps_callbacks g then Some (g, [DataConnRequest ipaddr]) else None }
     else if type = MNL_AGPS_CMD_DATA_CONN_REQ2 then do {
       (addr, m) \<leftarrow> buff_get_struct (int (sizeof_sockaddr_storage env)) m;
       (is_emergency, m) \<leftarrow> buff_get_int m;
       if agps_callbacks g then Some (g, [DataConnRequest2 addr]) else None }
     else if type = MNL_AGPS_CMD_DATA_CONN_RELEASE then
       (if agps_callbacks g then Some (g, [DataConnRelease]) else None)
     else if type = MNL_AGPS_CMD_REQUEST_SET_ID then do {
       (flags, m) \<leftarrow> buff_get_int m;
       if agps_ril_callbacks g then Some (g, [RequestSetId flags]) else None }
     else if type = MNL_AGPS_CMD_REQUEST_REFLOC then do {
       (flags, m) \<leftarrow> buff_get_int m;
       if agps_ril_callbacks g then Some (g, [RequestRefloc flags]) else None }
     else if type = MNL_AGPS_CMD_AGPS_LOC then on_agps_location env m g
     else if type = HAL_CMD_UPDATE_EPO_FILE_DONE then
       Some (if epo_download_failed g = 0 \<and> gps_epo_file_count g = 0
             then g\<lparr>files := (files g)(EPO_FILE_HAL := None)\<rparr> else g, [])
     else if type = HAL_CMD_UPDATE_EPO_FILE_FAIL then Some (g, [])
     else if type = MNL_CMD_GPS_INJECT_TIME_REQ then
       Some (g, if request_utc_time_cb env then [RequestUtcTime] else [])
     else if type = MNL_CMD_GPS_INJECT_LOCATION_REQ then
       map_option (\<lambda>g. (g, [])) (mtk_gps_send_location_to_mnl env g)
     else if type = HAL_CMD_MNL_DIE then Some (on_mnl_die g)
     else if type = HAL_CMD_GPS_ICON then on_gps_icon m g
     else if type = HAL_CMD_MEASUREMENT then on_measurement env m g
     else if type = HAL_CMD_NAVIGATION then on_navigation env m g
     else Some (g, []))"

text \<open>
  The datagram at the socket is \<open>d\<close>; \<open>rx\<close> holds the answers of the kernel to the calls that read
  it.  The result of the read is not looked at.
\<close>

definition mnld_to_gps_handler ::
  "mnld_env \<Rightarrow> int \<Rightarrow> net \<Rightarrow> byte list \<Rightarrow> gps \<Rightarrow> (net \<times> gps \<times> upcall list) option" where
  "mnld_to_gps_handler env fd rx d g = do {
     (ret, rx) \<leftarrow> safe_read fd False 9000 rx;
     (type, m) \<leftarrow> buff_get_int (rx_buffer ret d, 0);
     (g, ups) \<leftarrow> dispatch env type m g;
     Some (rx, g, ups) }"

section \<open>Reading a message\<close>

interpretation cr: codec "\<lambda>bs. buff_put_binary bs (int (length bs))" "buff_get_string cap" enc_binary
  "\<lambda>bs. length bs \<le> min cap 2147483647" for cap
proof
  fix bs :: "byte list" and m assume "length bs \<le> min cap 2147483647"
  show "buff_put_binary bs (int (length bs)) m = emit (enc_binary bs) m" by (rule buff_put_binary_emit)
next
  fix bs pre post assume "length (bs :: byte list) \<le> min cap 2147483647"
  then show "buff_get_string cap (pre @ enc_binary bs @ post, length pre)
      = Some (bs, (pre @ enc_binary bs @ post, length pre + length (enc_binary bs)))"
    by (simp add: buff_get_string_def enc_binary_def get_at_mid4 get_counted le4_count)
qed

lemma enc_string_binary: "enc_string s = enc_binary (s @ [0])"
  by (simp add: enc_string_def enc_binary_def add.commute)

lemma rx_buffer_reads:
  assumes "length d \<le> 9000"
  shows "reads (rx_buffer (int (length d)) d, 0) d"
proof -
  have "rx_buffer (int (length d)) d = d @ replicate (9000 - length d) 0"
    using assms by (simp add: rx_buffer_def)
  then show ?thesis by simp
qed

lemma length_rx_buffer [simp]: "length (rx_buffer ret d) = 9000"
  by (simp add: rx_buffer_def Let_def)

lemma safe_read_Done:
  assumes "0 \<le> fd" "answers rx = c # Done k # as" "0 < k"
  shows "\<exists>rx'. safe_read fd False 9000 rx = Some (k, rx') \<and> answers rx' = as"
  using assms by (simp add: safe_read_def)

text \<open>A datagram that arrives whole is dispatched on its first field.\<close>

lemma handler_dispatch:
  assumes "0 \<le> fd" "answers rx = c # Done (int (length d)) # as"
    "d = le4 type @ rest" "length d \<le> 9000" "int_ok type"
    "\<And>m'. reads m' rest \<Longrightarrow> dispatch env type m' g = Some (g', ups)"
  shows "\<exists>rx'. mnld_to_gps_handler env fd rx d g = Some (rx', g', ups) \<and> answers rx' = as"
proof -
  have "0 < int (length d)" using assms(3) by simp
  then obtain rx' where rx': "safe_read fd False 9000 rx = Some (int (length d), rx')" "answers rx' = as"
    using safe_read_Done [OF assms(1, 2)] by blast
  have "reads (rx_buffer (int (length d)) d, 0) (le4 type @ rest)"
    using rx_buffer_reads [OF assms(4)] assms(3) by simp
  then have "buff_get_int (rx_buffer (int (length d)) d, 0) \<bind>
      (\<lambda>(type, m). dispatch env type m g \<bind> (\<lambda>(g, ups). Some (rx', g, ups))) = Some (rx', g', ups)"
    by (rule ci.get_step [OF _ assms(5)]) (simp add: assms(6))
  then show ?thesis using rx' by (simp add: mnld_to_gps_handler_def)
qed

lemma hex_name_ok:
  assumes "0 \<notin> set s" "length s \<le> 509" "4 * length s + 4 \<le> cap"
  shows "\<exists>h. hex_name cap (s @ [0]) = Some h \<and> length h = cap \<and> unhex (take (4 * length s + 4) h) = ucs2 s"
proof -
  obtain out' where out': "asc_str_to_usc2_str (replicate 1024 0) (s @ [0]) = Some (out', 2 * int (length s) + 2)"
    "take (2 * length s + 2) out' = ucs2 s"
    using asc_str_to_usc2_str_run [OF assms(1), of "replicate 1024 0" "1019 - 2 * length s" "[]"] assms(2) by auto
  have "out' = ucs2 s @ drop (2 * length s + 2) out'" using out'(2) by (metis append_take_drop_id)
  then have "raw_data_to_hex_string (replicate cap 0) out' (2 * int (length s) + 2)
      = Some (hex (ucs2 s) @ drop (4 * length s + 4) (replicate cap 0))"
    using raw_data_to_hex_string_run [of "ucs2 s" "replicate cap 0" "2 * int (length s) + 2" "drop (2 * length s + 2) out'"]
      assms(3) by (simp add: ac_simps numeral_eq_Suc)
  then show ?thesis using out' assms(3) by (simp add: hex_name_def unhex_hex)
qed

section \<open>What a message may change\<close>

text \<open>The part of the state that says how far the session is.\<close>

definition session :: "gps \<Rightarrow> int \<times> int \<times> int \<times> int \<times> (sync \<Rightarrow> bool)" where
  "session g = (init g, start_flag g, started g, flag_unlock g, condtion g)"

lemma send_location_session:
  "mtk_gps_send_location_to_mnl env g = Some g' \<Longrightarrow> session g' = session g"
  by (auto simp: mtk_gps_send_location_to_mnl_def session_def Let_def bind_eq_Some_conv
      split: option.splits if_splits)

lemma on_icon_session: "on_gps_icon m g = Some (g', ups) \<Longrightarrow> session g' = session g"
  by (auto simp: on_gps_icon_def session_def bind_eq_Some_conv split: if_splits)

lemma on_others_session:
  "on_notification env m g = Some (g', ups) \<Longrightarrow> g' = g"
  "on_notification_2 env m g = Some (g', ups) \<Longrightarrow> g' = g"
  "on_agps_location env m g = Some (g', ups) \<Longrightarrow> g' = g"
  "on_measurement env m g = Some (g', ups) \<Longrightarrow> g' = g"
  "on_navigation env m g = Some (g', ups) \<Longrightarrow> g' = g"
  by (auto simp: on_notification_def on_notification_2_def on_agps_location_def on_measurement_def
      on_navigation_def bind_eq_Some_conv Let_def split: if_splits)

lemma session_files: "session (g\<lparr>files := f\<rparr>) = session g"
  by (simp add: session_def)

lemma dispatch_session:
  assumes "dispatch env type m g = Some (g', ups)" "type \<noteq> HAL_CMD_MNL_DIE"
  shows "session g' = session g"
  using assms
  by (auto simp: dispatch_def bind_eq_Some_conv session_files dest: on_others_session on_icon_session send_location_session split: if_splits)

lemma on_notification_run:
  "reads m (le4 nid @ le4 type @ enc_binary requestor @ enc_binary client) \<Longrightarrow> int_ok nid \<Longrightarrow> int_ok type
    \<Longrightarrow> length requestor \<le> 1024 \<Longrightarrow> length client \<le> 1024 \<Longrightarrow> gps_ni_callbacks g
    \<Longrightarrow> hex_name (GPS_NI_SHORT_STRING_MAXLEN env) requestor = Some h1
    \<Longrightarrow> hex_name (GPS_NI_LONG_STRING_MAXLEN env) client = Some h2
    \<Longrightarrow> on_notification env m g = Some (g, [NotifyCb \<lparr>notification_id = nid, notify_flags = flags_of type,
      timeout_s = 8, requestor_id = h1, ni_text = h2, requestor_id_encoding = GPS_ENC_SUPL_UCS2 env,
      text_encoding = GPS_ENC_SUPL_UCS2 env\<rparr>])"
  unfolding on_notification_def
  by ((erule ci.get_step cr.get_step cr.get_last, simp, simp)+)

section \<open>Properties\<close>


text \<open>A platform and a state for the examples.\<close>

definition ex_mnld_env :: mnld_env where
  "ex_mnld_env = \<lparr>GPS_NI_SHORT_STRING_MAXLEN = 256, GPS_NI_LONG_STRING_MAXLEN = 2048, GPS_ENC_SUPL_UCS2 = 3,
     sizeof_location = 80,
     location_at = (\<lambda>_. \<lparr>al_latitude = 0, al_longitude = 0, al_altitude = None, al_speed = None,
       al_bearing = None, al_accuracy = None, al_timestamp = None\<rparr>),
     sizeof_sockaddr_storage = 128, sizeof_measurement = 220,
     measurement_at = (\<lambda>bs. \<lparr>flag = 0, PRN = sint (hd (drop 8 bs)), TimeOffsetInNs = 0, state = 0,
       ReGpsTowInNs = 0, ReGpsTowUnInNs = 0, Cn0InDbHz = 0, PRRateInMeterPreSec = 0,
       PRRateUnInMeterPreSec = 0, AcDRState10 = 0, AcDRInMeters = 0, AcDRUnInMeters = 0, PRInMeters = 0,
       PRUnInMeters = 0, CPInChips = 0, CPUnInChips = 0, CFInhZ = 0, CarrierCycle = 0, CarrierPhase = 0,
       CarrierPhaseUn = 0, LossOfLock = 0, BitNumber = 0, TimeFromLastBitInMs = 0, DopperShiftInHz = 0,
       DopperShiftUnInHz = 0, MultipathIndicater = 0, SnrInDb = 0, ElInDeg = 0, ElUnInDeg = 0,
       AzInDeg = 0, AzUnInDeg = 0, UsedInFix = 0\<rparr>),
     sizeof_clock = 68,
     clock_at = (\<lambda>_. \<lparr>c_flag = 0, leapsecond = 0, c_type = 0, TimeInNs = 0, TimeUncertaintyInNs = 0,
       FullBiasInNs = 0, BiasInNs = 0, BiasUncertaintyInNs = 0, DriftInNsPerSec = 0,
       DriftUncertaintyInNsPerSec = 0\<rparr>),
     sizeof_navigation = 56,
     navigation_at = (\<lambda>bs. \<lparr>ne_type = sint (hd (drop 4 bs)), ne_prn = uint (hd (drop 5 bs)), messageID = 0,
       submessageID = 0, ne_length = unat (hd (drop 12 bs)), ne_data = take 40 (drop 16 bs)\<rparr>),
     sizeof_nlp = 40, nlp_set_started = (\<lambda>v bs. bs[33 := of_int v]),
     location_cb = True, request_utc_time_cb = True, malloc_ok = True\<rparr>"

definition ex_gps :: gps where
  "ex_gps = \<lparr>init = 1, start_flag = 0, started = 0, flag_unlock = 0, sta = ENGINE_OFF,
     condtion = (\<lambda>_. False), agps_callbacks = True, gps_ni_callbacks = True, agps_ril_callbacks = True,
     gpsmeasurement_init_flag = 1, gpsnavigation_init_flag = 1, epo_download_failed = 0,
     gps_epo_file_count = 0, send_fd = 3, files = (\<lambda>_. None),
     sock = \<lparr>answers = [Done 1024], errno_of = EINTR, delivered = []\<rparr>\<rparr>"

definition ex_rx :: "nat \<Rightarrow> net" where
  "ex_rx k = \<lparr>answers = [Done 0, Done (int k)], errno_of = EINTR, delivered = []\<rparr>"


text \<open>C31.
  A read from the daemon's socket that fails, after the retries, is not acted on: the cleared
  buffer is a message of no known kind, no call is made and nothing changes.
\<close>

theorem mnld_failed_read:
  assumes "safe_read fd False 9000 rx = Some (ret, rx')" "ret \<le> 0"
  shows "mnld_to_gps_handler env fd rx d g = Some (rx', g, [])"
proof -
  have "le4 0 = replicate 4 0" by (simp add: le4_def numeral_eq_Suc)
  then have "rx_buffer ret d = le4 0 @ replicate 8996 0"
    using assms(2) replicate_add [of 4 8996 "0 :: byte"] by (simp add: rx_buffer_def)
  then show ?thesis
    using assms(1) ci.get_enc [of 0 "[]" "replicate 8996 0"]
    by (simp add: mnld_to_gps_handler_def int_ok_def dispatch_def mnld_command_defs)
qed

theorem mnld_failed_read_witness:
  "mnld_to_gps_handler ex_mnld_env (- 1) (ex_rx 4) [65, 0, 0, 0] ex_gps = Some (ex_rx 4, ex_gps, [])"
  using mnld_failed_read [of "- 1" "ex_rx 4" "- 1" "ex_rx 4" ex_mnld_env "[65, 0, 0, 0]" ex_gps]
  by (simp add: safe_read_def)

lemma buff_get_int_in:
  "off + 4 \<le> length b \<Longrightarrow> buff_get_int (b, off) = Some (le4_value (take 4 (drop off b)), (b, off + 4))"
  by (simp add: buff_get_int_def get_at_def)

lemma buff_get_struct_in:
  "0 \<le> n \<Longrightarrow> off + nat n \<le> length b \<Longrightarrow>
    buff_get_struct n (b, off) = Some (take (nat n) (drop off b), (b, off + nat n))"
  by (simp add: buff_get_struct_def get_at_def)

lemma emit_two:
  "length as + length bs \<le> 1024 \<Longrightarrow>
    emit as BUFF \<bind> (\<lambda>m. emit bs m \<bind> f) = f (datagram (as @ bs), length as + length bs)"
  by (simp only: emit_bind) (simp add: emit_BUFF)

lemma send_location_total:
  assumes "4 + sizeof_nlp env \<le> 1024" "\<And>v bs. length (nlp_set_started env v bs) = length bs"
    "answers (sock g) = Done k # as"
  shows "mtk_gps_send_location_to_mnl env g \<noteq> None"
proof (cases "files g LOCATION_NLP_FIX")
  case (Some content)
  let ?nlp = "nlp_set_started env (started g) (take (sizeof_nlp env) (content @ replicate (sizeof_nlp env) 0))"
  have "length ?nlp = sizeof_nlp env" using assms(2) by simp
  then show ?thesis
    using Some assms(1, 3) buff_put_struct_emit [of ?nlp]
    by (simp add: mtk_gps_send_location_to_mnl_def buff_put_int_emit emit_two mtk_daemon_send_Done Let_def)
qed (simp add: mtk_gps_send_location_to_mnl_def)



section \<open>Departures\<close>

text \<open>The names of a notification are not bounded by the arrays they are written to.\<close>

lemma wr_out: "int (length xs) \<le> i \<Longrightarrow> wr xs i v = None"
  by (simp add: wr_def)

lemma hex_loop_None:
  "0 \<le> i \<Longrightarrow> 2 * i \<le> int (length out) \<Longrightarrow> int (length out) < 2 * (i + int n) \<Longrightarrow> hex_loop out input i n = None"
proof (induction n arbitrary: out i)
  case (Suc n)
  show ?case
  proof (cases "rd input i")
    case (Some b)
    show ?thesis
      using Suc.prems Some Suc.IH [of "i + 1"]
      by (cases "i * 2 + 1 < int (length out)") (auto simp: wr_def Let_def)
  qed simp
qed simp

lemma long_requestor_overflows:
  assumes "0 \<notin> set s" "length s \<le> 509" "cap < 4 * length s + 4"
  shows "hex_name cap (s @ [0]) = None"
proof -
  obtain out' where "asc_str_to_usc2_str (replicate 1024 0) (s @ [0]) = Some (out', 2 * int (length s) + 2)"
    using asc_str_to_usc2_str_run [OF assms(1), of "replicate 1024 0" "1019 - 2 * length s" "[]"] assms(2) by auto
  moreover have "hex_loop (replicate cap 0) out' 0 (nat (2 * int (length s) + 2)) = None"
    using assms(3) by (intro hex_loop_None) auto
  ultimately show ?thesis by (simp add: hex_name_def raw_data_to_hex_string_def)
qed

text \<open>The length of a navigation message is not bounded by the 40 bytes it is copied from.\<close>

lemma navigation_overread:
  assumes "gpsnavigation_init_flag g = 1" "malloc_ok env"
    and "buff_get_struct (int (sizeof_navigation env)) m = Some (bs, m')"
    and "length (ne_data (navigation_at env bs)) < ne_length (navigation_at env bs)"
  shows "on_navigation env m g = None"
  using assms by (simp add: on_navigation_def get_at_def Let_def)

text \<open>A message with measurements is not reported when the first of them has no satellite.\<close>

lemma measurements_behind_first_lost:
  assumes "buff_get_struct (32 * int (sizeof_measurement env)) m = Some (ms, m')"
    and "PRN (measurement_at env (take (sizeof_measurement env) ms)) = 0"
    and "on_measurement env m g = Some (g', ups)"
  shows "ups = []"
  using assms by (auto simp: on_measurement_def measurement_of_def Let_def bind_eq_Some_conv split: if_splits)

end
