(* ===== verification/GpsEpo.thy ===== *)
theory GpsEpo
  imports GpsMnld
begin

text \<open>
  The orbit data the GPS HAL downloads for the receiver (\<^verbatim>\<open>hal/gps/hal/gps_mtk_aosp.c\<close>): the
  configuration file, the names of the pieces, the conversion of GPS time to a date, the
  decision whether the data is expired, the download of a piece and its addition to the data,
  the request to the receiver, and a turn of the thread that does it.

  The clock, \<^verbatim>\<open>mktime\<close>, the builder of the addresses (\<^verbatim>\<open>getEpoUrl\<close> of a library) and the answers
  of the server are parameters.  Times are integers; the file system is the map of \<open>gps\<close>.
\<close>

section \<open>The state\<close>

text \<open>What a download ends with: no handle, no file to write, or the result code and the bytes written.\<close>

datatype dl = NoCurl | NoFile | Got int "byte list"

record epo =
  gps_epo_period :: int
  wifi_epo_period :: int
  gps_epo_download_days :: int
  gps_epo_enable :: int
  gps_epo_wifi_trigger :: int
  gps_epo_type :: int
  gnss_mode :: int
  gps_epo_file_name :: string
  gps_epo_md_file_name :: string
  epo_download_retry :: int
  counter :: int
  epo_data_updated :: int
  file_retrying :: int
  retry_time :: int
  downloads :: "dl list"

definition epo_start :: "dl list \<Rightarrow> epo" where
  "epo_start ds = \<lparr>gps_epo_period = 3, wifi_epo_period = 1, gps_epo_download_days = 30, gps_epo_enable = 1,
     gps_epo_wifi_trigger = 0, gps_epo_type = 0, gnss_mode = 2, gps_epo_file_name = [],
     gps_epo_md_file_name = [], epo_download_retry = 1, counter = 1, epo_data_updated = 0,
     file_retrying = 50, retry_time = 0, downloads = ds\<rparr>"

record ehal =
  eg :: gps
  enw :: network
  ee :: epo

text \<open>
  The environment: the name of the chip, the clock, \<^verbatim>\<open>mktime\<close>, the addresses, the times and the permission of files, the
  read lock.
\<close>

record epo_env =
  combo_chipid :: string
  time_utc :: int
  mktime_local :: "int \<times> int \<times> int \<times> int \<times> int \<times> int \<Rightarrow> int"
  getEpoUrl :: "string \<Rightarrow> byte list \<Rightarrow> string option"
  st_mtime :: "string \<Rightarrow> int"
  open_ok :: "string \<Rightarrow> bool"
  read_lock_ok :: bool

section \<open>The configuration\<close>

definition GPS_CONF_FILE_SIZE :: nat where "GPS_CONF_FILE_SIZE = 100"

definition IS_SPACE :: "char \<Rightarrow> bool" where
  "IS_SPACE ch \<longleftrightarrow> ch = CHR '' '' \<or> ch = CHR 0x09 \<or> ch = CHR 0x0A"

text \<open>One line of a file as \<^verbatim>\<open>fgets\<close> reads it with room for \<open>n\<close> characters.\<close>

fun fgets_line :: "nat \<Rightarrow> string \<Rightarrow> string \<times> string" where
  "fgets_line 0 s = ([], s)"
| "fgets_line (Suc n) [] = ([], [])"
| "fgets_line (Suc n) (c # s) =
    (if c = CHR 0x0A then ([c], s) else (let (l, r) = fgets_line n s in (c # l, r)))"

lemma fgets_line_length: "length (snd (fgets_line n s)) \<le> length s"
  by (induction n s rule: fgets_line.induct) (auto simp: Let_def split_beta)

text \<open>What \<^verbatim>\<open>get_val\<close> finds in a line: an error, a comment, or the key and the value.\<close>

datatype conf_line = BadLine | Comment | Setting string string

definition get_val :: "string \<Rightarrow> conf_line" where
  "get_val pStr =
    (let len = length pStr in
     if len = 0 then BadLine
     else if hd pStr = CHR ''#'' then Comment
     else if last pStr \<noteq> CHR 0x0A \<and> len \<ge> GPS_CONF_FILE_SIZE - 1 then BadLine
     else (let key = takeWhile (\<lambda>c. c \<noteq> CHR ''='') pStr in
       if length key = len then BadLine
       else (let rest = dropWhile IS_SPACE (drop (length key + 1) pStr) in
         Setting key (takeWhile (\<lambda>c. \<not> IS_SPACE c) rest))))"

text \<open>The number of a setting is read without the last character of its text.\<close>

definition conf_int :: "string \<Rightarrow> int option" where
  "conf_int val = str2int (val @ [CHR 0x00]) 0 (length val - 1)"

definition clamp :: "int list \<Rightarrow> int \<Rightarrow> int \<Rightarrow> int" where
  "clamp allowed other v = (if v \<in> set allowed then v else other)"

definition set_conf :: "string \<Rightarrow> string \<Rightarrow> epo \<Rightarrow> epo option" where
  "set_conf key val e =
    (if key = ''EPO_ENABLE'' then do {
       v \<leftarrow> conf_int val; Some (e\<lparr>gps_epo_enable := clamp [1, 0] 1 v\<rparr>) }
     else if key = ''DW_DAYS'' then do {
       v \<leftarrow> conf_int val; Some (e\<lparr>gps_epo_download_days := (if v > 30 \<or> v < 0 then 30 else v)\<rparr>) }
     else if key = ''GPS_EPO_PERIOD'' then do {
       v \<leftarrow> conf_int val; Some (e\<lparr>gps_epo_period := clamp [30, 3, 15] 3 v\<rparr>) }
     else if key = ''WIFI_EPO_PERIOD'' then do {
       v \<leftarrow> conf_int val; Some (e\<lparr>wifi_epo_period := clamp [30, 3, 15] 1 v\<rparr>) }
     else if key = ''EPO_WIFI_TRIGGER'' then do {
       v \<leftarrow> conf_int val; Some (e\<lparr>gps_epo_wifi_trigger := clamp [1, 0] 1 v\<rparr>) }
     else Some e)"

text \<open>The lines of the file; the flag says whether the end was reached.\<close>

function conf_lines :: "(string \<Rightarrow> string \<Rightarrow> epo \<Rightarrow> epo option) \<Rightarrow> string \<Rightarrow> epo \<Rightarrow> (bool \<times> epo) option" where
  "conf_lines setting file e =
    (if file = [] then Some (True, e)
     else (let (line, rest) = fgets_line 99 file in
       case get_val (takeWhile (\<lambda>c. c \<noteq> CHR 0x00) line) of
         BadLine \<Rightarrow> Some (False, e)
       | Comment \<Rightarrow> conf_lines setting rest e
       | Setting key val \<Rightarrow> do { e \<leftarrow> setting key val e; conf_lines setting rest e }))"
  by pat_completeness auto

lemma fgets_line_less: "s \<noteq> [] \<Longrightarrow> fgets_line 99 s = (l, r) \<Longrightarrow> length r < length s"
  using fgets_line_length [of 98 "tl s"]
  by (cases s) (auto simp: numeral_eq_Suc split_beta Let_def split: if_splits)

termination conf_lines
  by (relation "measure (\<lambda>(_, file, _). length file)") (auto dest: fgets_line_less [OF _ sym])

declare conf_lines.simps [simp del]

definition EPO_CONTROL_FILE_PATH :: string where "EPO_CONTROL_FILE_PATH = ''/data/misc/gps.conf''"

definition chars_of :: "byte list \<Rightarrow> string" where
  "chars_of bs = map (\<lambda>b. char_of (unat b)) bs"

definition gps_download_epo_enable :: "ehal \<Rightarrow> (int \<times> ehal) option" where
  "gps_download_epo_enable h =
    (case files (eg h) EPO_CONTROL_FILE_PATH of
       None \<Rightarrow> Some (1, h)
     | Some bs \<Rightarrow> do {
         (complete, e) \<leftarrow> conf_lines set_conf (chars_of bs) (ee h);
         Some (if complete then gps_epo_enable e else 1, h\<lparr>ee := e\<rparr>) })"

text \<open>The mode of the receiver from its property file; \<^verbatim>\<open>atoi\<close> reads the digits of a text.\<close>

definition atoi :: "string \<Rightarrow> int" where
  "atoi s =
    (let s = dropWhile IS_SPACE s;
         neg = (s \<noteq> [] \<and> hd s = CHR ''-'');
         s = (if s \<noteq> [] \<and> (hd s = CHR ''-'' \<or> hd s = CHR ''+'') then tl s else s);
         v = int (digits_value (takeWhile is_digit s)) in
     if neg then max (- v) (- 2147483648) else min v 2147483647)"

definition read_prop :: "gps \<Rightarrow> string \<Rightarrow> epo \<Rightarrow> (int \<times> epo) option" where
  "read_prop g name e =
    (case files g name of
       None \<Rightarrow> Some (- 1, e)
     | Some bs \<Rightarrow> do {
         (complete, e) \<leftarrow> conf_lines
           (\<lambda>key val e. Some (if key = ''GNSS_MODE'' then e\<lparr>gnss_mode := atoi val\<rparr> else e)) (chars_of bs) e;
         Some (if complete then 0 else - 1, e) })"

definition mnl_prop_path :: "string list" where
  "mnl_prop_path = [''/data/misc/gps/mnl.prop'', ''/sbin/mnl.prop'']"

fun read_props :: "gps \<Rightarrow> string list \<Rightarrow> epo \<Rightarrow> epo option" where
  "read_props g [] e = Some e"
| "read_props g (p # ps) e = do {
     (r, e) \<leftarrow> read_prop g p e;
     if r = 0 then Some e else read_props g ps e }"

text \<open>The kind of data for the chip: 1 for GPS only, 0 for both systems.\<close>

definition epo_type_of_chip :: "string \<Rightarrow> int" where
  "epo_type_of_chip chip_id =
    (if chip_id \<in> {''0x6572'', ''0x6582'', ''0x6580'', ''0x6592'', ''0x6571'', ''0x8127'', ''0x0335'', ''0x8163''}
     then 1 else 0)"

definition init_epo_type :: "string \<Rightarrow> gps \<Rightarrow> epo \<Rightarrow> epo option" where
  "init_epo_type chip_id g e =
    (let e = e\<lparr>gps_epo_type := epo_type_of_chip chip_id\<rparr> in
     if gps_epo_type e = 0 then do {
       e \<leftarrow> read_props g mnl_prop_path e;
       Some (if gnss_mode e \<noteq> 0 \<and> gnss_mode e \<noteq> 2 then e\<lparr>gps_epo_type := 1\<rparr> else e) }
     else Some e)"

section \<open>The pieces\<close>

definition gps_download_epo_file_name :: "int \<Rightarrow> epo \<Rightarrow> epo" where
  "gps_download_epo_file_name n e =
    (if 0 \<le> n \<and> n \<le> 9 \<and> gps_epo_type e = 1 then
       e\<lparr>gps_epo_file_name := ''EPO_GPS_3_'' @ dec (n + 1) @ ''.DAT'',
         gps_epo_md_file_name := ''EPO_GPS_3_'' @ dec (n + 1) @ ''.MD5''\<rparr>
     else if 0 \<le> n \<and> n \<le> 9 \<and> gps_epo_type e = 0 then
       e\<lparr>gps_epo_file_name := ''EPO_GR_3_'' @ dec (n + 1) @ ''.DAT'',
         gps_epo_md_file_name := ''EPO_GR_3_'' @ dec (n + 1) @ ''.MD5''\<rparr>
     else e)"

definition in_dir :: "string \<Rightarrow> string" where
  "in_dir name = ''/data/misc/gps/'' @ name"

definition gps_download_epo :: "ehal \<Rightarrow> ehal" where
  "gps_download_epo h = h\<lparr>ee := (ee h)\<lparr>epo_data_updated := 1\<rparr>, eg := (eg h)\<lparr>gps_epo_file_count := 0\<rparr>\<rparr>"

definition unlink :: "string \<Rightarrow> gps \<Rightarrow> gps" where
  "unlink name g = g\<lparr>files := (files g)(name := None)\<rparr>"

section \<open>Times\<close>

text \<open>The year: the days left in it and its distance from 1980.\<close>

fun decide_year :: "nat \<Rightarrow> nat \<Rightarrow> nat \<times> nat" where
  "decide_year iDaysElapsed iYearsElapsed =
    (if iDaysElapsed \<ge> 365 then
       (if iYearsElapsed mod 100 = 20 then
          (if iYearsElapsed mod 400 = 20 then
             (if iDaysElapsed \<ge> 366 then decide_year (iDaysElapsed - 366) (iYearsElapsed + 1)
              else (iDaysElapsed, iYearsElapsed))
           else decide_year (iDaysElapsed - 365) (iYearsElapsed + 1))
        else if iYearsElapsed mod 4 = 0 then
          (if iDaysElapsed \<ge> 366 then decide_year (iDaysElapsed - 366) (iYearsElapsed + 1)
           else (iDaysElapsed, iYearsElapsed))
        else decide_year (iDaysElapsed - 365) (iYearsElapsed + 1))
     else (iDaysElapsed, iYearsElapsed))"

declare decide_year.simps [simp del]

definition fgLeapYear :: "nat \<Rightarrow> bool" where
  "fgLeapYear iYearsElapsed =
    (if iYearsElapsed mod 100 = 20 then iYearsElapsed mod 400 = 20 else iYearsElapsed mod 4 = 0)"

definition doy :: "bool \<Rightarrow> nat list" where
  "doy leap = map (\<lambda>i. [0, 31, 59, 90, 120, 151, 181, 212, 243, 273, 304, 334] ! i + (if leap \<and> 2 \<le> i then 1 else 0))
     [0..<12]"

text \<open>The first month that begins behind the day; 12 when none does.\<close>

definition decide_month :: "nat \<Rightarrow> nat list \<Rightarrow> nat" where
  "decide_month d ds = length (takeWhile (\<lambda>m. \<not> d < m) ds)"

text \<open>Year, month, day, hour, minute and second.\<close>

definition gps_date :: "int \<Rightarrow> int \<Rightarrow> int \<times> int \<times> int \<times> int \<times> int \<times> int" where
  "gps_date i2Wn tow =
    (let iDaysElapsed = nat ((i2Wn * 7 + cdiv tow 86400 + 5) mod 4294967296);
         secs = tow - cdiv tow 86400 * 86400;
         (d, y) = decide_year iDaysElapsed 0;
         ds = doy (fgLeapYear y);
         i = decide_month d ds;
         day = (if i > 0 then int d - int (ds ! (i - 1)) + 1 else 0) in
     (1980 + int y, int i, day, cdiv secs 3600, cdiv (Prelude.cmod secs 3600) 60, secs - cdiv secs 60 * 60))"

definition GpsToUtcTime :: "epo_env \<Rightarrow> int \<Rightarrow> int \<Rightarrow> int" where
  "GpsToUtcTime env i2Wn tow = mktime_local env (gps_date i2Wn tow)"

text \<open>The hours in the first three bytes of a record, as seconds in an unsigned integer.\<close>

definition MTK_EPO_ONE_SV_SIZE :: nat where "MTK_EPO_ONE_SV_SIZE = 72"

definition gps_secs :: "byte list \<Rightarrow> int" where
  "gps_secs szBuf = (uint (szBuf ! 0) + 256 * uint (szBuf ! 1) + 65536 * uint (szBuf ! 2)) * 3600 mod 4294967296"

definition utc_of_secs :: "epo_env \<Rightarrow> int \<Rightarrow> int" where
  "utc_of_secs env u4GpsSecs = GpsToUtcTime env (u4GpsSecs div 604800) (u4GpsSecs mod 604800)"

text \<open>The start of the data is in its first record, the end six hours behind that of its last one.\<close>

definition mtk_gps_sys_epo_period_start :: "epo_env \<Rightarrow> byte list \<Rightarrow> int option" where
  "mtk_gps_sys_epo_period_start env content =
    (if length content < MTK_EPO_ONE_SV_SIZE then None
     else Some (utc_of_secs env (gps_secs content)))"

definition mtk_gps_sys_epo_period_end :: "epo_env \<Rightarrow> byte list \<Rightarrow> int option" where
  "mtk_gps_sys_epo_period_end env content =
    (if length content < MTK_EPO_ONE_SV_SIZE then None
     else (let szBuf = drop (length content - MTK_EPO_ONE_SV_SIZE) content in
       Some (utc_of_secs env ((gps_secs szBuf + 21600) mod 4294967296))))"

text \<open>
  Start, time of download and end of the data of the receiver.  The data of the HAL goes before the
  data in use.  On an error the times found so far stay.
\<close>

definition mtk_gps_epo_file_time_hal :: "epo_env \<Rightarrow> gps \<Rightarrow> int \<times> int \<times> int \<Rightarrow> int \<times> int \<times> int \<times> int" where
  "mtk_gps_epo_file_time_hal env g uTime =
    (let epofile = (if files g EPO_FILE_HAL \<noteq> None then EPO_FILE_HAL else EPO_FILE) in
     case files g epofile of
       None \<Rightarrow> (- 1, uTime)
     | Some content \<Rightarrow>
        (if \<not> open_ok env epofile \<or> \<not> read_lock_ok env then (- 1, uTime)
         else (case mtk_gps_sys_epo_period_start env content of
           None \<Rightarrow> (- 1, uTime)
         | Some start \<Rightarrow>
            (case mtk_gps_sys_epo_period_end env content of
               None \<Rightarrow> (- 1, start, st_mtime env epofile, snd (snd uTime))
             | Some end_time \<Rightarrow> (0, start, st_mtime env epofile, end_time)))))"

text \<open>How long data for so many days is used.\<close>

definition expiry_of_days :: "int \<Rightarrow> int" where
  "expiry_of_days download_day =
    (if download_day < 3 then 0
     else if download_day < 6 then 2 * 24 * 60 * 60
     else if 6 \<le> download_day \<and> download_day < 9 then 5 * 24 * 60 * 60
     else 7 * 24 * 60 * 60)"

definition mtk_epo_is_expired :: "epo_env \<Rightarrow> bool \<Rightarrow> ehal \<Rightarrow> int \<times> ehal" where
  "mtk_epo_is_expired env wifi_tragger h =
    (let etime = gps_epo_period (ee h) * 24 * 60 * 60;
         (res, u0, u1, u2) = mtk_gps_epo_file_time_hal env (eg h) (0, 0, 0);
         expired_set =
          (if wifi_tragger then wifi_epo_period (ee h) * 24 * 60 * 60
           else if u2 - u0 < etime then expiry_of_days (cdiv (u2 - u0) (24 * 60 * 60))
           else etime) in
     if time_utc env \<ge> expired_set + u0
     then (1, h\<lparr>eg := (eg h)\<lparr>gps_epo_file_count := 0\<rparr>\<rparr>) else (0, h))"

section \<open>Downloads\<close>

definition CURLE_FAILED_INIT :: int where "CURLE_FAILED_INIT = 2"

text \<open>One transfer into a file.  The result of the server is taken from the state.\<close>

definition curl_easy_download :: "string \<Rightarrow> ehal \<Rightarrow> (int \<times> ehal) option" where
  "curl_easy_download filename h =
    (case downloads (ee h) of
       [] \<Rightarrow> None
     | d # ds \<Rightarrow>
        (let h = h\<lparr>ee := (ee h)\<lparr>downloads := ds\<rparr>\<rparr> in
         case d of
           NoCurl \<Rightarrow> Some (CURLE_FAILED_INIT, h)
         | NoFile \<Rightarrow> Some (CURLE_FAILED_INIT, h)
         | Got res bs \<Rightarrow> Some (res, h\<lparr>eg := (eg h)\<lparr>files := (files (eg h))(filename \<mapsto> bs)\<rparr>\<rparr>)))"

definition bytes_of :: "string \<Rightarrow> byte list" where
  "bytes_of s = map of_char s"

text \<open>The counter is printed into an array of five characters.\<close>

definition with_counter :: "int \<Rightarrow> byte list \<Rightarrow> byte list option" where
  "with_counter n key =
    (if length (dec n) + 1 \<le> 5 \<and> length key + 9 + length (dec n) + 1 \<le> 70
     then Some (key @ bytes_of ''&counter='' @ bytes_of (dec n)) else None)"

definition zero_key :: "byte list" where
  "zero_key = bytes_of ''0000000000000000''"

text \<open>The key in a file of 48 bytes: its last 16, up to a zero byte.\<close>

definition md_key :: "byte list \<Rightarrow> byte list" where
  "md_key content = c_string (take 16 (drop 32 (take 48 content @ replicate 48 0)))"

fun copy_blocks :: "nat \<Rightarrow> byte list \<Rightarrow> byte list \<Rightarrow> byte list" where
  "copy_blocks 0 src dst = dst"
| "copy_blocks (Suc n) src dst =
    (if src = [] then dst else copy_blocks n (drop 256 src) (dst @ take 256 src))"

text \<open>The piece is added to the data of the HAL, in blocks of 256 bytes.\<close>

definition append_piece :: "epo_env \<Rightarrow> string \<Rightarrow> gps \<Rightarrow> gps" where
  "append_piece env piece g =
    (if \<not> open_ok env EPO_FILE_HAL then g
     else (let old = (case files g EPO_FILE_HAL of None \<Rightarrow> [] | Some bs \<Rightarrow> bs);
               new = (case files g piece of
                   Some src \<Rightarrow> if open_ok env piece then copy_blocks (length src) src old else old
                 | None \<Rightarrow> old) in
           g\<lparr>files := (files g)(EPO_FILE_HAL \<mapsto> new)\<rparr>))"

definition fetch_key :: "epo_env \<Rightarrow> ehal \<Rightarrow> (byte list \<times> ehal) option" where
  "fetch_key env h =
    (let file = in_dir (gps_epo_md_file_name (ee h)) in do {
     (res, h) \<leftarrow> curl_easy_download file h;
     if res = 0 then
       (case files (eg h) file of
          Some content \<Rightarrow>
            if open_ok env file
            then Some (md_key content, h\<lparr>eg := unlink file (eg h), ee := (ee h)\<lparr>counter := 1\<rparr>\<rparr>)
            else Some (zero_key, h\<lparr>ee := (ee h)\<lparr>counter := 1\<rparr>\<rparr>)
        | None \<Rightarrow> Some (zero_key, h\<lparr>ee := (ee h)\<lparr>counter := 1\<rparr>\<rparr>))
     else Some (zero_key, h\<lparr>ee := (ee h)\<lparr>counter := counter (ee h) + 1\<rparr>\<rparr>) })"

definition curl_easy_download_epo :: "epo_env \<Rightarrow> ehal \<Rightarrow> (int \<times> ehal) option" where
  "curl_easy_download_epo env h = do {
     key \<leftarrow> with_counter (counter (ee h)) zero_key;
     case getEpoUrl env (gps_epo_md_file_name (ee h)) key of
       None \<Rightarrow> Some (CURLE_FAILED_INIT, h)
     | Some md_url \<Rightarrow> do {
         (key, h) \<leftarrow> fetch_key env h;
         key \<leftarrow> with_counter (counter (ee h)) key;
         case getEpoUrl env (gps_epo_file_name (ee h)) key of
           None \<Rightarrow> Some (CURLE_FAILED_INIT, h)
         | Some url \<Rightarrow>
            (let piece = in_dir (gps_epo_file_name (ee h)) in do {
             (res, h) \<leftarrow> curl_easy_download piece h;
             if res = 0 then
               (let g = (if gps_epo_file_count (eg h) = 0 then unlink EPO_FILE_HAL (eg h) else eg h) in
                Some (res, h\<lparr>eg := append_piece env piece g, ee := (ee h)\<lparr>counter := 1\<rparr>\<rparr>))
             else Some (res, h\<lparr>eg := unlink piece (eg h), ee := (ee h)\<lparr>counter := counter (ee h) + 1\<rparr>\<rparr>) }) } }"

definition mtk_gps_epo_file_update_hal :: "epo_env \<Rightarrow> ehal \<Rightarrow> (int \<times> ehal) option" where
  "mtk_gps_epo_file_update_hal env h = do {
     (res, h) \<leftarrow> curl_easy_download_epo env h;
     if res \<noteq> 0 then Some (- 1, h\<lparr>eg := (eg h)\<lparr>epo_download_failed := 1\<rparr>\<rparr>) else Some (0, h) }"

section \<open>Adding a piece\<close>

definition mtk_gps_epo_piece_data_start :: "epo_env \<Rightarrow> byte list \<Rightarrow> int option" where
  "mtk_gps_epo_piece_data_start env content =
    (if length content < MTK_EPO_ONE_SV_SIZE then None
     else Some (utc_of_secs env (gps_secs content)))"

definition mtk_gps_epo_piece_data_end :: "epo_env \<Rightarrow> byte list \<Rightarrow> int option" where
  "mtk_gps_epo_piece_data_end env content =
    (if length content < MTK_EPO_ONE_SV_SIZE then None
     else (let szBuf = drop (length content - MTK_EPO_ONE_SV_SIZE) content in
       Some (utc_of_secs env ((gps_secs szBuf + 21600) mod 4294967296))))"

text \<open>
  The time at one end of a piece.  Nothing: the file could not be opened.  Otherwise whether it could
  be read.
\<close>

definition piece_time :: "(byte list \<Rightarrow> int option) \<Rightarrow> epo_env \<Rightarrow> gps \<Rightarrow> string \<Rightarrow> int option option" where
  "piece_time period env g name =
    (case files g name of
       None \<Rightarrow> None
     | Some content \<Rightarrow> if open_ok env name then Some (period content) else None)"

text \<open>The pieces 0 to \<open>n\<close>, the last one first.\<close>

fun unlink_pieces :: "nat \<Rightarrow> epo \<Rightarrow> gps \<Rightarrow> epo \<times> gps" where
  "unlink_pieces 0 e g =
    (let e = gps_download_epo_file_name 0 e in (e, unlink (in_dir (gps_epo_file_name e)) g))"
| "unlink_pieces (Suc n) e g =
    (let e = gps_download_epo_file_name (int (Suc n)) e in
     unlink_pieces n e (unlink (in_dir (gps_epo_file_name e)) g))"

definition mtk_gps_epo_server_data_is_changed :: "epo_env \<Rightarrow> ehal \<Rightarrow> int \<times> ehal" where
  "mtk_gps_epo_server_data_is_changed env h =
    (let g = eg h; e = ee h; n = gps_epo_file_count g;
         ts = piece_time (mtk_gps_epo_piece_data_start env) env g (in_dir (gps_epo_file_name e));
         bad_start = (ts = Some None);
         uTime_start = (case ts of Some (Some t) \<Rightarrow> t | _ \<Rightarrow> 0);
         e = (if n > 0 then gps_download_epo_file_name (n - 1) e else e);
         te = piece_time (mtk_gps_epo_piece_data_end env) env g (in_dir (gps_epo_file_name e));
         bad_end = (n > 0 \<and> te = Some None);
         uTime_end = (if n > 0 then (case te of Some (Some t) \<Rightarrow> t | _ \<Rightarrow> 0)
                      else if n = 0 then uTime_start else 0);
         g = (if bad_start \<or> bad_end then g\<lparr>epo_download_failed := 1\<rparr> else g);
         h = h\<lparr>eg := g, ee := e\<rparr> in
     if uTime_start - uTime_end \<ge> 24 * 60 * 60 then
       (let (e, g) = (if n \<ge> 0 then unlink_pieces (nat n) e g else (e, g)) in
        (1, h\<lparr>eg := (unlink EPO_FILE_HAL g)\<lparr>gps_epo_file_count := 0\<rparr>, ee := e\<rparr>))
     else (if bad_start \<or> bad_end then 1 else 0, h))"

text \<open>The pieces of the download: three days each, at most ten.\<close>

definition piece_count :: "epo \<Rightarrow> int" where
  "piece_count e =
    (let count_temp = cdiv (gps_epo_download_days e) 3 in
     if Prelude.cmod (gps_epo_download_days e) 3 > 0 then count_temp + 1 else count_temp)"

fun remove_pieces :: "nat \<Rightarrow> nat \<Rightarrow> epo \<Rightarrow> gps \<Rightarrow> epo \<times> gps" where
  "remove_pieces i 0 e g = (e, g)"
| "remove_pieces i (Suc n) e g =
    (let e = gps_download_epo_file_name (int i) e in
     remove_pieces (Suc i) n e (unlink (in_dir (gps_epo_file_name e)) g))"

text \<open>The receiver is told to take the data of the HAL; the data in use is removed first.\<close>

definition request_update :: "gps \<Rightarrow> (int \<times> gps) option" where
  "request_update g =
    (let g = unlink EPO_FILE g in do {
     m \<leftarrow> buff_put_int MNL_CMD_UPDATE_EPO_FILE BUFF;
     (ret, n) \<leftarrow> mtk_daemon_send (fst m) (sock g);
     Some (ret, g\<lparr>sock := n\<rparr>) })"

text \<open>After the last piece.  \<open>ret\<close> is the result of the download.\<close>

definition finish_update :: "int \<Rightarrow> ehal \<Rightarrow> (int \<times> ehal) option" where
  "finish_update ret h =
    (let (e, g) = remove_pieces 0 (nat (piece_count (ee h))) (ee h) (eg h);
         e = e\<lparr>epo_data_updated := 0\<rparr>;
         g = g\<lparr>gps_epo_file_count := 0,
           epo_download_failed := (if epo_download_failed g = 1 then 0 else epo_download_failed g)\<rparr> in
     if started g \<noteq> 0 then do {
       (ret, g) \<leftarrow> request_update g;
       Some (ret, h\<lparr>eg := g, ee := e\<rparr>) }
     else Some (ret, h\<lparr>eg := g, ee := e\<rparr>))"

definition mtk_gps_epo_file_update :: "epo_env \<Rightarrow> ehal \<Rightarrow> (int \<times> ehal) option" where
  "mtk_gps_epo_file_update env h = do {
     (ret, h) \<leftarrow> mtk_gps_epo_file_update_hal env h;
     if ret < 0 then Some (- 1, h)
     else (let (is_changed, h) = mtk_gps_epo_server_data_is_changed env h in
       if is_changed = 1 then Some (- 1, h)
       else (let n = gps_epo_file_count (eg h) + 1;
                 h = h\<lparr>eg := (eg h)\<lparr>gps_epo_file_count := n\<rparr>\<rparr> in
         if n < 10 \<and> n < piece_count (ee h) then Some (0, h) else finish_update ret h)) }"

section \<open>The start of a session\<close>

definition start_epo :: "epo_env \<Rightarrow> ehal \<Rightarrow> ehal option" where
  "start_epo env h = do {
     (r, h) \<leftarrow> gps_download_epo_enable h;
     if gps_epo_enable (ee h) = 0 then Some h
     else if files (eg h) EPO_FILE_HAL = None then
       (if files (eg h) EPO_FILE = None then Some (gps_download_epo h)
        else (let (expired, h) = mtk_epo_is_expired env False h in
          if expired \<noteq> 0 then Some (gps_download_epo h) else Some h))
     else if (nw_type (enw h) = nw_data \<and> nw_connected (enw h) = 1 \<and> epo_download_failed (eg h) \<noteq> 0)
       \<or> (nw_connected (enw h) = 0 \<and> epo_download_failed (eg h) \<noteq> 0) \<or> epo_download_failed (eg h) = 0 then
       (let (expired, h) = mtk_epo_is_expired env False h in
        if expired \<noteq> 0 then Some (gps_download_epo (h\<lparr>eg := unlink EPO_FILE_HAL (eg h)\<rparr>))
        else do {
          (ret, g) \<leftarrow> request_update (eg h);
          Some (h\<lparr>eg := g\<rparr>) })
     else Some h }"

section \<open>A turn of the thread\<close>

text \<open>The alarm set after a failed piece allows the next attempt.\<close>

definition retry_alarm_handler :: "epo \<Rightarrow> epo" where
  "retry_alarm_handler e = e\<lparr>epo_download_retry := 1\<rparr>"

definition download_piece :: "epo_env \<Rightarrow> ehal \<Rightarrow> ehal option" where
  "download_piece env h = do {
     let h = h\<lparr>ee := gps_download_epo_file_name (gps_epo_file_count (eg h)) (ee h)\<rparr>;
     (ret, h) \<leftarrow> mtk_gps_epo_file_update env h;
     Some h }"

definition resume_download :: "epo_env \<Rightarrow> ehal \<Rightarrow> ehal option" where
  "resume_download env h = do {
     let e = ee h;
     let e = (if file_retrying e = 50 then e\<lparr>file_retrying := gps_epo_file_count (eg h)\<rparr> else e);
     let h = h\<lparr>ee := e\<rparr>;
     let file_count_temp = gps_epo_file_count (eg h);
     let (res, u0, u1, u2) = mtk_gps_epo_file_time_hal env (eg h) (0, 0, 0);
     h \<leftarrow> (if time_utc env \<ge> u0 + 24 * 60 * 60 then
         Some (h\<lparr>eg := unlink EPO_FILE_HAL ((eg h)\<lparr>epo_download_failed := 0, gps_epo_file_count := 0\<rparr>),
           ee := (ee h)\<lparr>epo_data_updated := 1\<rparr>\<rparr>)
       else download_piece env h);
     let e = ee h;
     let c = gps_epo_file_count (eg h);
     if file_count_temp = c then
       (let e = (if file_retrying e = c then e\<lparr>retry_time := retry_time e + 1\<rparr>
                 else e\<lparr>file_retrying := c, retry_time := 0\<rparr>) in
        if retry_time e < 10 then Some (h\<lparr>ee := e\<lparr>epo_download_retry := 0\<rparr>\<rparr>)
        else Some (h\<lparr>eg := (eg h)\<lparr>epo_download_failed := 0\<rparr>, ee := e\<lparr>retry_time := 0, file_retrying := 50\<rparr>\<rparr>))
     else Some h }"

text \<open>A turn, with the delay before the next one.\<close>

definition epo_turn :: "epo_env \<Rightarrow> ehal \<Rightarrow> (int \<times> ehal) option" where
  "epo_turn env h = do {
     (r, h) \<leftarrow> gps_download_epo_enable h;
     h \<leftarrow> (if epo_data_updated (ee h) = 1 then do {
         h \<leftarrow> download_piece env (h\<lparr>eg := (eg h)\<lparr>epo_download_failed := 0\<rparr>\<rparr>);
         Some (if epo_download_failed (eg h) = 1 then h\<lparr>ee := (ee h)\<lparr>epo_data_updated := 0\<rparr>\<rparr> else h) }
       else Some h);
     h \<leftarrow> (if (started (eg h) \<noteq> 0 \<or> nw_type (enw h) = nw_wifi) \<and> nw_connected (enw h) \<noteq> 0
           \<and> epo_download_failed (eg h) \<noteq> 0 \<and> epo_download_retry (ee h) \<noteq> 0
         then resume_download env h else Some h);
     let h = (if epo_data_updated (ee h) = 0 \<and> gps_epo_wifi_trigger (ee h) \<noteq> 0 \<and> gps_epo_enable (ee h) \<noteq> 0
           \<and> epo_download_failed (eg h) = 0 \<and> nw_connected (enw h) \<noteq> 0 \<and> nw_type (enw h) = nw_wifi
         then (let (expired, h) = mtk_epo_is_expired env True h in
           if expired \<noteq> 0 then (gps_download_epo h)\<lparr>eg := unlink EPO_FILE_HAL (eg (gps_download_epo h))\<rparr> else h)
         else h);
     Some (if epo_data_updated (ee h) = 0 \<and> epo_download_failed (eg h) = 0 then 2000 else 100, h) }"

section \<open>Dates\<close>

text \<open>The civil calendar.\<close>

definition leap :: "nat \<Rightarrow> bool" where
  "leap y \<longleftrightarrow> y mod 4 = 0 \<and> (y mod 100 \<noteq> 0 \<or> y mod 400 = 0)"

definition year_days :: "nat \<Rightarrow> nat" where
  "year_days y = (if leap y then 366 else 365)"

definition month_days :: "nat \<Rightarrow> nat list" where
  "month_days y = [31, if leap y then 29 else 28, 31, 30, 31, 30, 31, 31, 30, 31, 30, 31]"

lemma mod_shift:
  fixes y c m :: nat
  assumes "c < m" "0 < c"
  shows "(m - c + y) mod m = 0 \<longleftrightarrow> y mod m = c"
proof -
  define r where "r = y mod m"
  have "(m - c + y) mod m = (m - c + r) mod m" by (simp add: r_def mod_add_right_eq)
  moreover have "r < m" using assms by (simp add: r_def)
  moreover have "(m - c + r) mod m = r - c" if "c \<le> r"
  proof -
    have "(m - c + r) mod m = (m + (r - c)) mod m" using that assms by simp
    also have "\<dots> = (r - c) mod m" by (rule mod_add_self1)
    finally show ?thesis using \<open>r < m\<close> by simp
  qed
  moreover have "(m - c + r) mod m = m - c + r" if "r < c"
    using that assms by simp
  ultimately show ?thesis using assms unfolding r_def [symmetric] by (cases "c \<le> r") auto
qed

lemma fgLeapYear_leap: "fgLeapYear y = leap (1980 + y)"
proof -
  have "(1980 + y) mod 100 = 0 \<longleftrightarrow> y mod 100 = 20"
    using mod_shift [of 20 100 y] mod_add_left_eq [of 1980 100 y] mod_add_left_eq [of 80 100 y] by simp
  moreover have "(1980 + y) mod 400 = 0 \<longleftrightarrow> y mod 400 = 20"
    using mod_shift [of 20 400 y] mod_add_left_eq [of 1980 400 y] mod_add_left_eq [of 380 400 y] by simp
  moreover have "(1980 + y) mod 4 = y mod 4"
    using mod_add_left_eq [of 1980 4 y] by simp
  moreover have "y mod 100 = 20 \<Longrightarrow> y mod 4 = 0"
    using mod_mod_cancel [of 4 100 y] by simp
  ultimately show ?thesis by (auto simp: fgLeapYear_def leap_def)
qed

lemma decide_year_run:
  "decide_year d y = (d', y') \<Longrightarrow>
    y \<le> y' \<and> d = (\<Sum>k = y..<y'. year_days (1980 + k)) + d' \<and> d' < year_days (1980 + y')"
proof (induction d y rule: decide_year.induct)
  case (1 d y)
  have len: "year_days (1980 + y) = (if y mod 100 = 20 then if y mod 400 = 20 then 366 else 365
      else if y mod 4 = 0 then 366 else 365)"
    by (simp add: year_days_def fgLeapYear_leap [symmetric] fgLeapYear_def)
  show ?case
  proof (cases "d < year_days (1980 + y)")
    case True
    then show ?thesis using 1(5) len by (subst (asm) decide_year.simps) (auto split: if_splits)
  next
    case False
    then have "decide_year (d - year_days (1980 + y)) (y + 1) = (d', y')"
      using 1(5) len by (subst (asm) decide_year.simps) (auto split: if_splits)
    moreover from False this have "y + 1 \<le> y' \<and> d - year_days (1980 + y) = (\<Sum>k = y + 1..<y'. year_days (1980 + k)) + d' \<and> d' < year_days (1980 + y')"
      using 1(1-4) len by (auto split: if_splits)
    ultimately show ?thesis using False by (auto simp: sum.atLeast_Suc_lessThan)
  qed
qed

lemma doy_table: "doy b = (if b then [0, 31, 60, 91, 121, 152, 182, 213, 244, 274, 305, 335]
    else [0, 31, 59, 90, 120, 151, 181, 212, 243, 273, 304, 334])"
  by (simp add: doy_def upt_conv_Cons)

lemma month_ok:
  assumes "d < year_days y" "i = decide_month d (doy (leap y))"
  shows "1 \<le> i \<and> i \<le> 12 \<and> doy (leap y) ! (i - 1) = sum_list (take (i - 1) (month_days y))
    \<and> doy (leap y) ! (i - 1) \<le> d \<and> d < doy (leap y) ! (i - 1) + month_days y ! (i - 1)"
  using assms by (cases "leap y") (auto simp: decide_month_def doy_table month_days_def year_days_def)

text \<open>The days of a date since the first of January 1980.\<close>

definition days_since_1980 :: "nat \<Rightarrow> nat \<Rightarrow> nat \<Rightarrow> nat" where
  "days_since_1980 y mo d = (\<Sum>k = 0..<y - 1980. year_days (1980 + k)) + sum_list (take (mo - 1) (month_days y)) + (d - 1)"

lemma decide_date:
  assumes "decide_year n 0 = (d, y)" "i = decide_month d (doy (fgLeapYear y))"
  shows "1 \<le> i \<and> i \<le> 12 \<and> doy (fgLeapYear y) ! (i - 1) \<le> d
    \<and> d - doy (fgLeapYear y) ! (i - 1) + 1 \<le> month_days (1980 + y) ! (i - 1)
    \<and> days_since_1980 (1980 + y) i (d - doy (fgLeapYear y) ! (i - 1) + 1) = n"
  using decide_year_run [OF assms(1)] month_ok [of d "1980 + y" i] assms(2)
  by (auto simp: fgLeapYear_leap days_since_1980_def)

lemma clock_parts:
  fixes secs :: int
  assumes "0 \<le> secs" "secs < 86400"
  shows "cdiv secs 3600 < 24" "0 \<le> cdiv secs 3600" "cdiv (Prelude.cmod secs 3600) 60 < 60"
    "0 \<le> cdiv (Prelude.cmod secs 3600) 60" "0 \<le> secs - cdiv secs 60 * 60" "secs - cdiv secs 60 * 60 < 60"
    "3600 * cdiv secs 3600 + 60 * cdiv (Prelude.cmod secs 3600) 60 + (secs - cdiv secs 60 * 60) = secs"
proof -
  define m where "m = secs div 60"
  have m: "0 \<le> m" "m < 1440" "secs = 60 * m + secs mod 60" using assms by (auto simp: m_def)
  have "secs mod 3600 = 60 * (m mod 60) + secs mod 60"
    using zmod_zmult2_eq [of 60 secs 60] by (simp add: m_def)
  then have "secs mod 3600 div 60 = m mod 60" by simp
  moreover have "secs div 3600 = m div 60" using zdiv_zmult2_eq [of 60 secs 60] by (simp add: m_def)
  ultimately have e: "cdiv secs 3600 = m div 60" "cdiv (Prelude.cmod secs 3600) 60 = m mod 60" "cdiv secs 60 = m"
    using assms by (simp_all add: cdiv_nonneg cmod_nonneg m_def)
  have "60 * (m div 60) + m mod 60 = m" by simp
  moreover have "0 \<le> secs mod 60" "secs mod 60 < 60" "0 \<le> m mod 60" "m mod 60 < 60" "0 \<le> m div 60" "m div 60 < 24"
    using m(1, 2) by (simp_all add: pos_imp_zdiv_nonneg_iff)
  ultimately show "cdiv secs 3600 < 24" "0 \<le> cdiv secs 3600" "cdiv (Prelude.cmod secs 3600) 60 < 60"
    "0 \<le> cdiv (Prelude.cmod secs 3600) 60" "0 \<le> secs - cdiv secs 60 * 60" "secs - cdiv secs 60 * 60 < 60"
    "3600 * cdiv secs 3600 + 60 * cdiv (Prelude.cmod secs 3600) 60 + (secs - cdiv secs 60 * 60) = secs"
    unfolding e using m by linarith+
qed

text \<open>C38.
  A GPS week and a time of the week become the date and the time of day they denote: the parts are
  those of a date of the civil calendar with its leap years and of a time of day, and the seconds
  they stand for are the GPS seconds, counted from the sixth of January 1980.
\<close>

theorem gps_date_calendar:
  assumes "0 \<le> w" "w \<le> 300000000" "0 \<le> tow" "tow < 604800"
  shows "\<exists>y mo d h mi sec. gps_date w tow = (int y, int mo, int d, h, mi, sec)
    \<and> 1980 \<le> y \<and> 1 \<le> mo \<and> mo \<le> 12 \<and> 1 \<le> d \<and> d \<le> month_days y ! (mo - 1)
    \<and> 0 \<le> h \<and> h < 24 \<and> 0 \<le> mi \<and> mi < 60 \<and> 0 \<le> sec \<and> sec < 60
    \<and> 86400 * int (days_since_1980 y mo d) + 3600 * h + 60 * mi + sec = 604800 * w + tow + 5 * 86400"
proof -
  define n where "n = nat ((w * 7 + cdiv tow 86400 + 5) mod 4294967296)"
  define secs where "secs = tow - cdiv tow 86400 * 86400"
  obtain d y where dy: "decide_year n 0 = (d, y)" by fastforce
  define i where "i = decide_month d (doy (fgLeapYear y))"
  define q where "q = doy (fgLeapYear y) ! (i - 1)"
  note date = decide_date [OF dy i_def, folded q_def]
  have tow: "cdiv tow 86400 = tow div 86400" using assms by (simp add: cdiv_nonneg)
  have "w * 7 + tow div 86400 + 5 < 4294967296" "0 \<le> w * 7 + tow div 86400 + 5" using assms by auto
  then have n: "int n = w * 7 + tow div 86400 + 5" by (simp add: n_def tow)
  have secs: "0 \<le> secs" "secs < 86400" "86400 * (tow div 86400) + secs = tow"
    unfolding secs_def tow by presburger+
  have "gps_date w tow = (1980 + int y, int i, int d - int q + 1,
      cdiv secs 3600, cdiv (Prelude.cmod secs 3600) 60, secs - cdiv secs 60 * 60)"
    using dy date by (simp add: gps_date_def n_def [symmetric] secs_def [symmetric] i_def [symmetric] q_def)
  also have "\<dots> = (int (1980 + y), int i, int (d - q + 1),
      cdiv secs 3600, cdiv (Prelude.cmod secs 3600) 60, secs - cdiv secs 60 * 60)"
    using date by simp
  finally have "gps_date w tow = \<dots>" .
  moreover have "86400 * int (days_since_1980 (1980 + y) i (d - q + 1)) + secs = 604800 * w + tow + 5 * 86400"
    using date n secs(3) by simp
  ultimately show ?thesis using date clock_parts [OF secs(1, 2)]
    by (intro exI [of _ "1980 + y"] exI [of _ i] exI [of _ "d - q + 1"] exI [of _ "cdiv secs 3600"]
        exI [of _ "cdiv (Prelude.cmod secs 3600) 60"] exI [of _ "secs - cdiv secs 60 * 60"]) auto
qed

theorem gps_date_calendar_witness:
  "gps_date 100 90061 = (1981, 12, 7, 1, 1, 1)
   \<and> (\<exists>y mo d h mi sec. gps_date 100 90061 = (int y, int mo, int d, h, mi, sec)
    \<and> 1980 \<le> y \<and> 1 \<le> mo \<and> mo \<le> 12 \<and> 1 \<le> d \<and> d \<le> month_days y ! (mo - 1)
    \<and> 0 \<le> h \<and> h < 24 \<and> 0 \<le> mi \<and> mi < 60 \<and> 0 \<le> sec \<and> sec < 60
    \<and> 86400 * int (days_since_1980 y mo d) + 3600 * h + 60 * mi + sec = 604800 * 100 + 90061 + 5 * 86400)"
proof
  show "gps_date 100 90061 = (1981, 12, 7, 1, 1, 1)"
  proof -
    have "decide_year 706 0 = (340, 1)" by (simp add: decide_year.simps)
    then show ?thesis
      by (simp add: gps_date_def fgLeapYear_def doy_table decide_month_def cdiv_nonneg cmod_nonneg)
  qed
qed (rule gps_date_calendar; simp)

section \<open>The settings\<close>

text \<open>
  The value of a setting loses its last character: a file with lines that end in a line feed alone
  sets a tenth of the days, one with a carriage return before the line feed sets the days.
\<close>

lemma conf_int_drops_last:
  "conf_int ''30'' = Some 3" "conf_int (''30'' @ [CHR 0x0D]) = Some 30" "conf_int ''1'' = Some 0"
  by code_simp+

text \<open>A line without a setting ends the reading of the file: the settings behind it are not seen.\<close>

lemma blank_line_ends_conf:
  "conf_lines s (CHR 0x0A # rest) e = Some (False, e)"
  by (subst conf_lines.simps) (simp add: numeral_eq_Suc get_val_def GPS_CONF_FILE_SIZE_def)

text \<open>After ten thousand failed transfers the counter no longer fits the array it is printed into.\<close>

lemma counter_overruns: "with_counter 10000 zero_key = None"
  by (simp add: with_counter_def dec_def dec_nat.simps)

text \<open>An environment for the examples.\<close>

definition ex_epo_env :: epo_env where
  "ex_epo_env = \<lparr>combo_chipid = ''0x6755'', time_utc = 0, mktime_local = (\<lambda>_. 0), getEpoUrl = (\<lambda>n key. Some n), st_mtime = (\<lambda>_. 0),
     open_ok = (\<lambda>_. True), read_lock_ok = True\<rparr>"

end
