(* ===== verification/GpsSession.thy ===== *)
theory GpsSession
  imports GpsEpo
begin

text \<open>
  The life of a GPS session (\<^verbatim>\<open>hal/gps/hal/gps_mtk_aosp.c\<close>): the calls of the framework, the thread
  of the HAL that reads commands, sentences and messages of the daemon, and the thread that
  keeps the orbit data.  They share the flags and the wait conditions of the state.

  A call of the framework is a sequence of parts, ended by each wait and by each access to a flag
  another thread writes; \<open>exec\<close> says what each event does, and \<open>reachable\<close> interleaves the parts of the
  calls with the events of the threads.  A wait has a step only when its condition is set, a loop that
  waits for a flag only when the flag has the value, so a call that cannot return is one whose client
  has no step.  The framework makes one call at a time; a message of the daemon, the data of the
  device and a turn of the thread for orbit data are each handled in one step.
\<close>

section \<open>The state\<close>

datatype cmd = CMD_QUIT | CMD_START | CMD_STOP | CMD_RESTART | CMD_DOWNLOAD

datatype thread = NoThread | Created | Running | Gone

text \<open>Where the call of the framework is.\<close>

datatype client =
    Idle | InitWait | InitFail
  | StartSpin | StartSend | StartEpo | StartWait | StartCmd | StartReport | StartClear | StartDone
  | StopSpin | StopSend | StopCmd
  | CleanSend | CleanWait | CleanClear | CleanQuit | CleanQuitWait | CleanEpo | CleanEpoWait

text \<open>
  The state of the HAL with the control socket, the place of the client, the threads, whether
  the descriptors are open, the reader with the count of the reports left out, and what the
  framework got.
\<close>

record sess =
  hal :: gps
  nw :: network
  epo_data :: epo
  control :: "cmd list"
  client :: client
  native :: thread
  fds_open :: bool
  reader :: nmea_reader
  count :: rat
  report_time_interval :: rat
  epo_running :: bool
  thread_epo_exit_flag :: bool
  upcalls :: "upcall list"
  reports :: "nmea_event list"

text \<open>The environment of the handlers, and what can fail when the HAL is initialised.\<close>

record sess_env =
  mnld :: mnld_env
  nmea :: nmea_env

record init_env =
  callbacks_ok :: bool
  dev_gps_ok :: bool
  socketpair_ok :: bool
  thread_ok :: bool

definition ehal_of :: "sess \<Rightarrow> ehal" where
  "ehal_of s = \<lparr>eg = hal s, enw = nw s, ee = epo_data s\<rparr>"

definition with_ehal :: "ehal \<Rightarrow> sess \<Rightarrow> sess" where
  "with_ehal h s = s\<lparr>hal := eg h, nw := enw h, epo_data := ee h\<rparr>"

section \<open>Parts of the calls\<close>

definition upcall :: "upcall list \<Rightarrow> sess \<Rightarrow> sess" where
  "upcall us s = s\<lparr>upcalls := upcalls s @ us\<rparr>"

text \<open>A command for the thread is written to its socket; with the socket closed the write fails, which is only logged.\<close>

definition write_control :: "cmd \<Rightarrow> sess \<Rightarrow> sess" where
  "write_control c s = s\<lparr>control := (if fds_open s then control s @ [c] else control s)\<rparr>"

text \<open>
  Opening the device and starting the thread.  On a failure behind the device the state is torn
  down, which waits for the end of a thread.
\<close>

definition gps_state_init :: "init_env \<Rightarrow> sess \<Rightarrow> sess option" where
  "gps_state_init E s =
    (if \<not> dev_gps_ok E then Some (s\<lparr>client := InitWait\<rparr>)
     else do {
       (err, n) \<leftarrow> mtk_init (sock (hal s));
       let s = s\<lparr>hal := (hal s)\<lparr>sock := n\<rparr>\<rparr>;
       if err \<noteq> 0 then Some (s\<lparr>client := InitFail\<rparr>)
       else if \<not> socketpair_ok E then Some (s\<lparr>client := InitFail\<rparr>)
       else if \<not> thread_ok E then Some (s\<lparr>client := InitFail, fds_open := True, control := [CMD_QUIT]\<rparr>)
       else Some (s\<lparr>client := InitWait, fds_open := True, control := [], native := Created\<rparr>) })"

definition mtk_gps_init :: "init_env \<Rightarrow> sess \<Rightarrow> sess option" where
  "mtk_gps_init E s =
    (if init (hal s) \<noteq> 0 then Some s
     else if \<not> callbacks_ok E then Some s
     else gps_state_init E s)"

text \<open>When the thread is ready, the kind of orbit data is read from the chip and the property file.\<close>

definition init_done :: "epo_env \<Rightarrow> sess \<Rightarrow> sess option" where
  "init_done v s = do {
     g \<leftarrow> get_condition M_INIT (hal s);
     e \<leftarrow> init_epo_type (combo_chipid v) g (epo_data s);
     Some (upcall [SetCapabilities] (s\<lparr>hal := g\<lparr>init := 1\<rparr>, epo_data := e, client := Idle\<rparr>)) }"

definition init_failed :: "sess \<Rightarrow> sess option" where
  "init_failed s = do {
     g \<leftarrow> get_condition M_CLEANUP (hal s);
     Some (s\<lparr>hal := g\<lparr>init := 0\<rparr>, client := InitWait, fds_open := False, control := []\<rparr>) }"

text \<open>\<^verbatim>\<open>mtk_gps_start\<close>, part by part.\<close>

definition mtk_gps_start :: "sess \<Rightarrow> sess" where
  "mtk_gps_start s = (if init (hal s) = 0 then s else s\<lparr>client := StartSpin\<rparr>)"

definition start_spin :: "sess \<Rightarrow> sess option" where
  "start_spin s = (if start_flag (hal s) = 1 then None else Some (s\<lparr>client := StartSend\<rparr>))"

definition start_send :: "sess \<Rightarrow> sess option" where
  "start_send s = do {
     (err, n) \<leftarrow> mtk_start (sock (hal s));
     Some (s\<lparr>hal := (hal s)\<lparr>sock := n\<rparr>, client := (if err \<noteq> 0 then Idle else StartEpo)\<rparr>) }"

text \<open>The orbit data is looked at when the daemon has started.\<close>

definition start_look_epo :: "epo_env \<Rightarrow> sess \<Rightarrow> sess option" where
  "start_look_epo v s = do {
     h \<leftarrow> start_epo v (ehal_of s);
     Some ((with_ehal h s)\<lparr>client := StartWait\<rparr>) }"

definition start_wait :: "sess \<Rightarrow> sess option" where
  "start_wait s = do {
     g \<leftarrow> get_condition M_START (hal s);
     Some (s\<lparr>hal := g, client := StartCmd\<rparr>) }"

definition gps_state_start :: "sess \<Rightarrow> sess" where
  "gps_state_start s = write_control CMD_START s"

definition start_cmd :: "sess \<Rightarrow> sess" where
  "start_cmd s = (gps_state_start s)\<lparr>client := StartReport\<rparr>"

definition start_report :: "sess \<Rightarrow> sess" where
  "start_report s = upcall [StatusCb ENGINE_ON, StatusCb SESSION_BEGIN, AcquireWakelock]
     (s\<lparr>hal := (hal s)\<lparr>sta := SESSION_BEGIN\<rparr>, client := StartClear\<rparr>)"

text \<open>Also used by the clean-up: a condition left over from an earlier end is cleared.\<close>

definition clear_stop :: "gps \<Rightarrow> gps" where
  "clear_stop g = (if condtion g M_STOP then g\<lparr>condtion := (condtion g)(M_STOP := False)\<rparr> else g)"

definition start_clear :: "sess \<Rightarrow> sess" where
  "start_clear s = s\<lparr>hal := clear_stop (hal s), client := StartDone\<rparr>"

definition start_done :: "sess \<Rightarrow> sess" where
  "start_done s = s\<lparr>hal := (hal s)\<lparr>start_flag := 1\<rparr>, client := Idle\<rparr>"

text \<open>\<^verbatim>\<open>mtk_gps_stop\<close>.\<close>

definition mtk_gps_stop :: "sess \<Rightarrow> sess" where
  "mtk_gps_stop s = (if init (hal s) = 0 then s else s\<lparr>client := StopSpin\<rparr>)"

definition stop_spin :: "sess \<Rightarrow> sess option" where
  "stop_spin s = (if start_flag (hal s) = 0 then None else Some (s\<lparr>client := StopSend\<rparr>))"

definition stop_send :: "sess \<Rightarrow> sess option" where
  "stop_send s = do {
     (err, n) \<leftarrow> mtk_stop (sock (hal s));
     Some (s\<lparr>hal := (hal s)\<lparr>sock := n\<rparr>, client := (if err \<noteq> 0 then Idle else StopCmd)\<rparr>) }"

definition gps_state_stop :: "sess \<Rightarrow> sess" where
  "gps_state_stop s = write_control CMD_STOP s"

definition stop_cmd :: "sess \<Rightarrow> sess" where
  "stop_cmd s = (gps_state_stop s)\<lparr>client := Idle\<rparr>"

text \<open>\<^verbatim>\<open>mtk_gps_cleanup\<close> with \<^verbatim>\<open>gps_state_done\<close>.\<close>

definition mtk_gps_cleanup :: "sess \<Rightarrow> sess" where
  "mtk_gps_cleanup s = s\<lparr>client := CleanSend\<rparr>"

definition clean_send :: "sess \<Rightarrow> sess option" where
  "clean_send s = do {
     (err, n) \<leftarrow> mtk_cleanup (sock (hal s));
     Some (s\<lparr>hal := (hal s)\<lparr>sock := n\<rparr>,
       client := (if start_flag (hal s) \<noteq> 0 then CleanWait else CleanClear)\<rparr>) }"

definition clean_wait :: "sess \<Rightarrow> sess option" where
  "clean_wait s = do {
     g \<leftarrow> get_condition M_STOP (hal s);
     Some (s\<lparr>hal := g, client := CleanClear\<rparr>) }"

definition clean_clear :: "sess \<Rightarrow> sess" where
  "clean_clear s = s\<lparr>hal := clear_stop (hal s),
     client := (if init (hal s) \<noteq> 0 then CleanQuit else CleanEpo)\<rparr>"

definition clean_quit :: "sess \<Rightarrow> sess" where
  "clean_quit s = (write_control CMD_QUIT s)\<lparr>client := CleanQuitWait\<rparr>"

definition gps_state_done :: "sess \<Rightarrow> sess option" where
  "gps_state_done s = do {
     g \<leftarrow> get_condition M_CLEANUP (hal s);
     Some (s\<lparr>hal := g\<lparr>init := 0\<rparr>, fds_open := False, control := [], client := CleanEpo\<rparr>) }"

definition clean_epo :: "sess \<Rightarrow> sess" where
  "clean_epo s = s\<lparr>thread_epo_exit_flag := True, client := CleanEpoWait\<rparr>"

definition clean_epo_wait :: "sess \<Rightarrow> sess option" where
  "clean_epo_wait s = do {
     g \<leftarrow> get_condition M_THREAD_EXIT (hal s);
     Some (s\<lparr>hal := g, client := Idle\<rparr>) }"

text \<open>The other calls that reach the thread or the daemon.\<close>

definition gps_state_restart :: "sess \<Rightarrow> sess" where
  "gps_state_restart s = write_control CMD_RESTART s"

datatype aiding = FLAG_HOT_START | FLAG_WARM_START | FLAG_COLD_START | FLAG_FULL_START | FLAG_AGPS_START | OtherFlags

definition restart_command :: "aiding \<Rightarrow> int option" where
  "restart_command f = (case f of
       FLAG_HOT_START \<Rightarrow> Some MNL_CMD_RESTART_HOT
     | FLAG_WARM_START \<Rightarrow> Some MNL_CMD_RESTART_WARM
     | FLAG_COLD_START \<Rightarrow> Some MNL_CMD_RESTART_COLD
     | FLAG_FULL_START \<Rightarrow> Some MNL_CMD_RESTART_FULL
     | FLAG_AGPS_START \<Rightarrow> Some MNL_CMD_RESTART_AGPS
     | OtherFlags \<Rightarrow> None)"

definition mtk_gps_delete_aiding_data :: "aiding \<Rightarrow> sess \<Rightarrow> sess option" where
  "mtk_gps_delete_aiding_data f s =
    (let s = gps_state_restart s in
     case restart_command f of
       None \<Rightarrow> Some s
     | Some c \<Rightarrow> do {
         (err, n) \<leftarrow> mtk_restart c (sock (hal s));
         Some (s\<lparr>hal := (hal s)\<lparr>sock := n\<rparr>\<rparr>) })"

definition mtk_gps_set_position_mode :: "nat \<Rightarrow> sess \<Rightarrow> sess" where
  "mtk_gps_set_position_mode min_interval s =
    s\<lparr>report_time_interval := (if min_interval \<le> 1000 then 1 else of_nat min_interval / 1000)\<rparr>"

definition mtk_gps_measurement_init :: "sess \<Rightarrow> sess option" where
  "mtk_gps_measurement_init s = do {
     (err, n) \<leftarrow> mtk_measurement_init (sock (hal s));
     let g = (hal s)\<lparr>sock := n\<rparr>;
     Some (s\<lparr>hal := (if err \<noteq> 0 then g else g\<lparr>gpsmeasurement_init_flag := 1\<rparr>)\<rparr>) }"

definition mtk_gps_measurement_close :: "sess \<Rightarrow> sess option" where
  "mtk_gps_measurement_close s = do {
     (err, n) \<leftarrow> mtk_measurement_close (sock (hal s));
     Some (s\<lparr>hal := (hal s)\<lparr>sock := n, gpsmeasurement_init_flag := 0\<rparr>\<rparr>) }"

definition mtk_gps_navigation_init :: "sess \<Rightarrow> sess option" where
  "mtk_gps_navigation_init s = do {
     (err, n) \<leftarrow> mtk_navigation_init (sock (hal s));
     let g = (hal s)\<lparr>sock := n\<rparr>;
     Some (s\<lparr>hal := (if err \<noteq> 0 then g else g\<lparr>gpsnavigation_init_flag := 1\<rparr>)\<rparr>) }"

definition mtk_gps_navigation_close :: "sess \<Rightarrow> sess option" where
  "mtk_gps_navigation_close s = do {
     (err, n) \<leftarrow> mtk_navigation_close (sock (hal s));
     Some (s\<lparr>hal := (hal s)\<lparr>sock := n, gpsnavigation_init_flag := 0\<rparr>\<rparr>) }"

section \<open>The threads\<close>

text \<open>The thread has made its sockets and is ready.\<close>

definition native_ready :: "nmea_reader \<Rightarrow> sess \<Rightarrow> sess" where
  "native_ready r s = s\<lparr>hal := release_condition M_INIT (hal s), native := Running, reader := r\<rparr>"

definition native_exit :: "sess \<Rightarrow> sess" where
  "native_exit s = s\<lparr>hal := release_condition M_CLEANUP (hal s), native := Gone\<rparr>"

text \<open>The thread ends before it is ready when it cannot make its socket for the codec.\<close>

definition native_fail :: "sess \<Rightarrow> sess" where
  "native_fail s = s\<lparr>native := Gone\<rparr>"

definition on_control :: "cmd \<Rightarrow> sess \<Rightarrow> sess" where
  "on_control c s = (case c of
       CMD_QUIT \<Rightarrow> native_exit s
     | CMD_START \<Rightarrow>
         (if started (hal s) = 0
          then s\<lparr>hal := (hal s)\<lparr>started := 1\<rparr>, reader := nmea_reader_set_callback (reader s) True\<rparr> else s)
     | CMD_STOP \<Rightarrow>
         (if started (hal s) \<noteq> 0
          then s\<lparr>hal := (hal s)\<lparr>started := 0\<rparr>, reader := nmea_reader_set_callback (reader s) False\<rparr> else s)
     | CMD_RESTART \<Rightarrow> s\<lparr>reader := (reader s)\<lparr>fix_mode := 0\<rparr>\<rparr>
     | CMD_DOWNLOAD \<Rightarrow> s)"

text \<open>
  The device can be read: \<open>bs\<close> is what the reads return until there is nothing left.  The first
  data of a session sets the condition the start waits for.  While the interval is longer than the
  count, one read is thrown away.
\<close>

definition on_gps_data :: "sess_env \<Rightarrow> string list \<Rightarrow> sess \<Rightarrow> sess option" where
  "on_gps_data E bs s =
    (let g = hal s;
         g = (if flag_unlock g = 0 then (release_condition M_START g)\<lparr>flag_unlock := 1\<rparr> else g);
         s = s\<lparr>hal := g, count := count s + 1\<rparr> in
     if report_time_interval s > count s then Some s
     else do {
       (evs, r) \<leftarrow> read_all ((nmea E)\<lparr>nav_started := started g\<rparr>) bs (reader s);
       Some (s\<lparr>count := 0, reader := r, reports := reports s @ evs\<rparr>) })"

definition on_mnld :: "sess_env \<Rightarrow> int \<Rightarrow> net \<Rightarrow> byte list \<Rightarrow> sess \<Rightarrow> sess option" where
  "on_mnld E fd rx d s = do {
     (rx, g, us) \<leftarrow> mnld_to_gps_handler (mnld E) fd rx d (hal s);
     Some (upcall us (s\<lparr>hal := g\<rparr>)) }"

definition epo_exit :: "sess \<Rightarrow> sess" where
  "epo_exit s = s\<lparr>hal := release_condition M_THREAD_EXIT (hal s), epo_running := False\<rparr>"

definition mtk_gps_epo_interface_init :: "bool \<Rightarrow> sess \<Rightarrow> sess" where
  "mtk_gps_epo_interface_init created s = (if \<not> created then s else s\<lparr>epo_running := True, thread_epo_exit_flag := False\<rparr>)"

definition on_epo_turn :: "epo_env \<Rightarrow> sess \<Rightarrow> sess option" where
  "on_epo_turn v s = do {
     (delay, h) \<leftarrow> epo_turn v (ehal_of s);
     Some (with_ehal h s) }"

definition on_request :: "request \<Rightarrow> sess \<Rightarrow> sess option" where
  "on_request q s = do {
     (w, n) \<leftarrow> run q (nw s, sock (hal s));
     Some (s\<lparr>nw := w, hal := (hal s)\<lparr>sock := n\<rparr>\<rparr>) }"

section \<open>Runs\<close>

text \<open>The part of the call that comes next.\<close>

definition go_on :: "epo_env \<Rightarrow> sess \<Rightarrow> sess option" where
  "go_on v s = (case client s of
       Idle \<Rightarrow> None
     | InitWait \<Rightarrow> init_done v s
     | InitFail \<Rightarrow> init_failed s
     | StartSpin \<Rightarrow> start_spin s
     | StartSend \<Rightarrow> start_send s
     | StartEpo \<Rightarrow> start_look_epo v s
     | StartWait \<Rightarrow> start_wait s
     | StartCmd \<Rightarrow> Some (start_cmd s)
     | StartReport \<Rightarrow> Some (start_report s)
     | StartClear \<Rightarrow> Some (start_clear s)
     | StartDone \<Rightarrow> Some (start_done s)
     | StopSpin \<Rightarrow> stop_spin s
     | StopSend \<Rightarrow> stop_send s
     | StopCmd \<Rightarrow> Some (stop_cmd s)
     | CleanSend \<Rightarrow> clean_send s
     | CleanWait \<Rightarrow> clean_wait s
     | CleanClear \<Rightarrow> Some (clean_clear s)
     | CleanQuit \<Rightarrow> Some (clean_quit s)
     | CleanQuitWait \<Rightarrow> gps_state_done s
     | CleanEpo \<Rightarrow> Some (clean_epo s)
     | CleanEpoWait \<Rightarrow> clean_epo_wait s)"

datatype call =
    Init init_env | Start | Stop | Cleanup | DeleteAiding aiding | PositionMode nat
  | MeasurementInit | MeasurementClose | NavigationInit | NavigationClose | EpoInit bool | Request request

definition enter :: "call \<Rightarrow> sess \<Rightarrow> sess option" where
  "enter c s = (case c of
       Init i \<Rightarrow> mtk_gps_init i s
     | Start \<Rightarrow> Some (mtk_gps_start s)
     | Stop \<Rightarrow> Some (mtk_gps_stop s)
     | Cleanup \<Rightarrow> Some (mtk_gps_cleanup s)
     | DeleteAiding f \<Rightarrow> mtk_gps_delete_aiding_data f s
     | PositionMode n \<Rightarrow> Some (mtk_gps_set_position_mode n s)
     | MeasurementInit \<Rightarrow> mtk_gps_measurement_init s
     | MeasurementClose \<Rightarrow> mtk_gps_measurement_close s
     | NavigationInit \<Rightarrow> mtk_gps_navigation_init s
     | NavigationClose \<Rightarrow> mtk_gps_navigation_close s
     | EpoInit b \<Rightarrow> Some (mtk_gps_epo_interface_init b s)
     | Request q \<Rightarrow> on_request q s)"

text \<open>
  What can happen: a call, its next part, the events of the two threads, and new answers of the
  kernel and of the server.
\<close>

datatype event =
    Call call | Next epo_env
  | Ready nmea_reader | Unready | Control | Hangup | Data "string list" | Message int net "byte list"
  | EpoTurn epo_env | EpoExit
  | Kernel "io list" | Server "dl list"

definition exec :: "sess_env \<Rightarrow> event \<Rightarrow> sess \<Rightarrow> sess option" where
  "exec E v s = (case v of
       Call c \<Rightarrow> if client s = Idle then enter c s else None
     | Next w \<Rightarrow> go_on w s
     | Ready r \<Rightarrow> if native s = Created then Some (native_ready r s) else None
     | Unready \<Rightarrow> if native s = Created then Some (native_fail s) else None
     | Control \<Rightarrow> if native s = Running \<and> control s \<noteq> []
         then Some (on_control (hd (control s)) (s\<lparr>control := tl (control s)\<rparr>)) else None
     | Hangup \<Rightarrow> if native s = Running then Some (native_exit s) else None
     | Data bs \<Rightarrow> if native s = Running then on_gps_data E bs s else None
     | Message fd rx d \<Rightarrow> if native s = Running then on_mnld E fd rx d s else None
     | EpoTurn w \<Rightarrow> if epo_running s \<and> \<not> thread_epo_exit_flag s then on_epo_turn w s else None
     | EpoExit \<Rightarrow> if epo_running s \<and> thread_epo_exit_flag s then Some (epo_exit s) else None
     | Kernel as \<Rightarrow> Some (s\<lparr>hal := (hal s)\<lparr>sock := (sock (hal s))\<lparr>answers := as\<rparr>\<rparr>\<rparr>)
     | Server ds \<Rightarrow> Some (s\<lparr>epo_data := (epo_data s)\<lparr>downloads := ds\<rparr>\<rparr>))"

definition at_rest :: "sess \<Rightarrow> bool" where
  "at_rest s \<longleftrightarrow> init (hal s) = 0 \<and> start_flag (hal s) = 0 \<and> started (hal s) = 0 \<and> flag_unlock (hal s) = 0
     \<and> (\<forall>l. \<not> condtion (hal s) l) \<and> client s = Idle \<and> native s = NoThread \<and> \<not> fds_open s \<and> control s = []
     \<and> \<not> epo_running s \<and> upcalls s = [] \<and> reports s = []"

inductive reachable :: "sess_env \<Rightarrow> sess \<Rightarrow> bool" for E where
  rest: "at_rest s \<Longrightarrow> reachable E s"
| event: "reachable E s \<Longrightarrow> exec E v s = Some s' \<Longrightarrow> reachable E s'"

end
