(* ===== verification/GpsSafety.thy ===== *)
theory GpsSafety
  imports GpsSession
begin

text \<open>
  The safety and the progress of a GPS session.  The thread for orbit data and the messages of the daemon
  leave the flags and the conditions alone, but for the death of the daemon; with that every event keeps
  the invariant \<open>sess_inv\<close>.  Three runs in which a call does not return are at the end.
\<close>

section \<open>What the threads leave alone\<close>

text \<open>The orbit data is kept without a change to the flags and the conditions.\<close>

lemma session_frame [simp]:
  "session (g\<lparr>files := f\<rparr>) = session g" "session (g\<lparr>sock := n\<rparr>) = session g"
  "session (g\<lparr>epo_download_failed := k\<rparr>) = session g" "session (g\<lparr>gps_epo_file_count := k\<rparr>) = session g"
  "session (g\<lparr>gpsmeasurement_init_flag := k\<rparr>) = session g" "session (g\<lparr>gpsnavigation_init_flag := k\<rparr>) = session g"
  "session (g\<lparr>sta := t\<rparr>) = session g"
  by (simp_all add: session_def)

lemma session_unlink [simp]: "session (unlink f g) = session g"
  by (simp add: unlink_def)

lemma session_append [simp]: "session (append_piece env p g) = session g"
  by (simp add: append_piece_def Let_def)

lemma session_download_epo [simp]: "session (eg (gps_download_epo h)) = session (eg h)"
  by (simp add: gps_download_epo_def)

lemma session_expired [simp]: "session (eg (snd (mtk_epo_is_expired env b h))) = session (eg h)"
  unfolding mtk_epo_is_expired_def Let_def split_beta by (auto simp: if_distrib [of snd])

lemma session_unlink_pieces [simp]: "session (snd (unlink_pieces n e g)) = session g"
  by (induction n arbitrary: e g) (simp_all add: Let_def)

lemma session_remove_pieces [simp]: "session (snd (remove_pieces i n e g)) = session g"
  by (induction n arbitrary: i e g) (simp_all add: Let_def)

lemma session_changed [simp]: "session (eg (snd (mtk_gps_epo_server_data_is_changed env h))) = session (eg h)"
  unfolding mtk_gps_epo_server_data_is_changed_def Let_def
  by (simp add: split_beta)

text \<open>A computation on the state that keeps the flags and the conditions of \<open>h\<close>.\<close>

definition kept :: "ehal \<Rightarrow> ('a \<times> ehal) option \<Rightarrow> bool" where
  "kept h x \<longleftrightarrow> (\<forall>r h'. x = Some (r, h') \<longrightarrow> session (eg h') = session (eg h))"

lemma kept_simps [simp]: "kept h None" "kept h (Some (r, h')) \<longleftrightarrow> session (eg h') = session (eg h)"
  by (simp_all add: kept_def)

lemma kept_any: "(\<And>y. kept h (f y)) \<Longrightarrow> kept h (x \<bind> f)"
  by (cases x) simp_all

lemma kept_bind: "kept h x \<Longrightarrow> (\<And>r h'. session (eg h') = session (eg h) \<Longrightarrow> kept h (f (r, h'))) \<Longrightarrow> kept h (x \<bind> f)"
  by (cases x) auto

lemma kept_trans: "kept h x \<Longrightarrow> session (eg h') = session (eg h) \<Longrightarrow> kept h' x"
  by (simp add: kept_def)

lemma kept_enable: "kept h (gps_download_epo_enable h)"
  by (auto simp: gps_download_epo_enable_def intro!: kept_any split: option.split)

lemma kept_download: "kept h (curl_easy_download f h)"
  by (auto simp: curl_easy_download_def Let_def split: list.split dl.split)

lemma kept_fetch: "kept h (fetch_key env h)"
  unfolding fetch_key_def Let_def by (rule kept_bind [OF kept_download]) (auto split: option.split)

lemma kept_download_epo: "kept h (curl_easy_download_epo env h)"
proof -
  have piece: "kept h (curl_easy_download f h1 \<bind> (\<lambda>(res, h). if res = 0
      then (let g = if gps_epo_file_count (eg h) = 0 then unlink EPO_FILE_HAL (eg h) else eg h in
        Some (res, h\<lparr>eg := append_piece env f g, ee := (ee h)\<lparr>counter := 1\<rparr>\<rparr>))
      else Some (res, h\<lparr>eg := unlink f (eg h), ee := (ee h)\<lparr>counter := counter (ee h) + 1\<rparr>\<rparr>)))"
    if "session (eg h1) = session (eg h)" for h1 f
    by (rule kept_bind [OF kept_trans [OF kept_download that [symmetric]]]) (simp add: Let_def)
  show ?thesis
    unfolding curl_easy_download_epo_def Let_def
    by (rule kept_any, simp split: option.split, intro allI impI, rule kept_bind [OF kept_fetch], simp, rule kept_any)
      (simp add: piece [unfolded Let_def] split: option.split)
qed

lemma kept_update_hal: "kept h (mtk_gps_epo_file_update_hal env h)"
  unfolding mtk_gps_epo_file_update_hal_def by (rule kept_bind [OF kept_download_epo]) simp

lemma kept_request: "request_update g = Some (r, g') \<Longrightarrow> session g' = session g"
  by (auto simp: request_update_def Let_def bind_eq_Some_conv)

lemma kept_finish: "kept h (finish_update r h)"
proof -
  obtain e g where eg: "remove_pieces 0 (nat (piece_count (ee h))) (ee h) (eg h) = (e, g)" by fastforce
  then have "session g = session (eg h)"
    using session_remove_pieces [of 0 "nat (piece_count (ee h))" "ee h" "eg h"] by simp
  then show ?thesis
    by (auto simp: finish_update_def eg Let_def kept_def bind_eq_Some_conv dest: kept_request split: if_splits)
qed

lemma kept_update: "kept h (mtk_gps_epo_file_update env h)"
  unfolding mtk_gps_epo_file_update_def
proof (rule kept_bind [OF kept_update_hal])
  fix r and h1 :: ehal assume h1: "session (eg h1) = session (eg h)"
  have "session (eg (snd (mtk_gps_epo_server_data_is_changed env h1))) = session (eg h)" using h1 by simp
  then show "kept h (case (r, h1) of (ret, h) \<Rightarrow> if ret < 0 then Some (- 1, h)
      else (let (is_changed, h) = mtk_gps_epo_server_data_is_changed env h in
        if is_changed = 1 then Some (- 1, h)
        else (let n = gps_epo_file_count (eg h) + 1; h = h\<lparr>eg := (eg h)\<lparr>gps_epo_file_count := n\<rparr>\<rparr> in
          if n < 10 \<and> n < piece_count (ee h) then Some (0, h) else finish_update ret h)))"
    using h1 by (simp add: Let_def split_beta) (auto intro: kept_trans [OF kept_finish])
qed

text \<open>The same for computations without a result.\<close>

definition kept_alone :: "ehal \<Rightarrow> ehal option \<Rightarrow> bool" where
  "kept_alone h x \<longleftrightarrow> (\<forall>h'. x = Some h' \<longrightarrow> session (eg h') = session (eg h))"

lemma kept_alone_simps [simp]: "kept_alone h None" "kept_alone h (Some h') \<longleftrightarrow> session (eg h') = session (eg h)"
  by (simp_all add: kept_alone_def)

lemma kept_alone_bind:
  "kept_alone h x \<Longrightarrow> (\<And>h'. session (eg h') = session (eg h) \<Longrightarrow> kept_alone h (f h')) \<Longrightarrow> kept_alone h (x \<bind> f)"
  by (cases x) auto

lemma kept_alone_piece: "session (eg h') = session (eg h) \<Longrightarrow> kept_alone h (download_piece env h')"
  using kept_update [of "h'\<lparr>ee := gps_download_epo_file_name (gps_epo_file_count (eg h')) (ee h')\<rparr>" env]
  by (auto simp: download_piece_def Let_def bind_eq_Some_conv kept_def kept_alone_def)

lemma kept_via:
  "kept_alone h x \<Longrightarrow> (\<And>h'. session (eg h') = session (eg h) \<Longrightarrow> kept h (f h')) \<Longrightarrow> kept h (x \<bind> f)"
  by (cases x) auto

lemma start_epo_session: "start_epo env h = Some h' \<Longrightarrow> session (eg h') = session (eg h)"
proof -
  assume a: "start_epo env h = Some h'"
  then obtain r h1 where e: "gps_download_epo_enable h = Some (r, h1)" by (auto simp: start_epo_def bind_eq_Some_conv)
  then have "session (eg h1) = session (eg h)" using kept_enable [of h] by simp
  moreover have "session (eg h') = session (eg h1)"
    using a unfolding start_epo_def e
    by (auto simp: Let_def split_beta bind_eq_Some_conv dest: kept_request split: if_splits)
  ultimately show ?thesis by simp
qed

lemma kept_alone_resume: "session (eg h') = session (eg h) \<Longrightarrow> kept_alone h (resume_download env h')"
  unfolding resume_download_def Let_def split_beta
  by (rule kept_alone_bind) (simp_all add: kept_alone_piece)

lemma kept_alone_first:
  "session (eg h1) = session (eg h) \<Longrightarrow> kept_alone h (if epo_data_updated (ee h1) = 1 then do {
     h \<leftarrow> download_piece env (h1\<lparr>eg := (eg h1)\<lparr>epo_download_failed := 0\<rparr>\<rparr>);
     Some (if epo_download_failed (eg h) = 1 then h\<lparr>ee := (ee h)\<lparr>epo_data_updated := 0\<rparr>\<rparr> else h) } else Some h1)"
  by (auto intro: kept_alone_bind [OF kept_alone_piece])

lemma epo_turn_session: "kept h (epo_turn env h)"
  unfolding epo_turn_def Let_def split_beta
  by (rule kept_bind [OF kept_enable], simp only: fst_conv snd_conv, rule kept_via [OF kept_alone_first], assumption,
      rule kept_via) (simp_all add: kept_alone_resume)

text \<open>A message of the daemon leaves them alone too, unless it says that the daemon died.\<close>

definition quiet :: "(gps \<times> upcall list) option \<Rightarrow> bool" where
  "quiet x \<longleftrightarrow> (\<forall>g ups. x = Some (g, ups) \<longrightarrow> AcquireWakelock \<notin> set ups)"

lemma quiet_simps [simp]: "quiet None" "quiet (Some (g, ups)) \<longleftrightarrow> AcquireWakelock \<notin> set ups"
  by (simp_all add: quiet_def)

lemma quiet_intros:
  "(\<And>y. quiet (f y)) \<Longrightarrow> quiet (x \<bind> f)"
  "quiet a \<Longrightarrow> quiet b \<Longrightarrow> quiet (if c then a else b)"
  "quiet (map_option (\<lambda>g. (g, [])) z)"
  by (cases x; simp) (simp_all add: quiet_def)

lemma handlers_quiet:
  "quiet (on_notification env m g)" "quiet (on_notification_2 env m g)" "quiet (on_agps_location env m g)"
  "quiet (on_measurement env m g)" "quiet (on_navigation env m g)" "quiet (on_gps_icon m g)" "quiet (Some (on_mnl_die g))"
  unfolding on_notification_def on_notification_2_def on_agps_location_def on_measurement_def on_navigation_def
    on_gps_icon_def on_mnl_die_def Let_def split_beta
  by (simp_all add: quiet_intros)

lemma dispatch_quiet: "quiet (dispatch env type m g)"
  unfolding dispatch_def split_beta by (intro quiet_intros handlers_quiet) simp_all

lemma on_mnld_session:
  assumes "mnld_to_gps_handler env fd rx d g = Some (rx', g', ups)"
  shows "AcquireWakelock \<notin> set ups \<and> (session g' = session g \<or> (g', ups) = on_mnl_die g)"
proof -
  obtain type m where "dispatch env type m g = Some (g', ups)"
    using assms by (auto simp: mnld_to_gps_handler_def bind_eq_Some_conv)
  then show ?thesis
    using dispatch_quiet [of env type m g] dispatch_session [of env type m g]
    by (cases "type = HAL_CMD_MNL_DIE") (simp_all add: dispatch_def mnld_command_defs)
qed

section \<open>The invariant\<close>

definition starting :: "client \<Rightarrow> bool" where
  "starting c \<longleftrightarrow> c \<in> {StartSend, StartEpo, StartWait, StartCmd, StartReport, StartClear, StartDone}"

definition woken :: "client \<Rightarrow> bool" where
  "woken c \<longleftrightarrow> c \<in> {StartCmd, StartReport, StartClear, StartDone}"

definition alive :: "thread \<Rightarrow> bool" where
  "alive t \<longleftrightarrow> t = Created \<or> t = Running"

definition acquired :: "sess \<Rightarrow> nat" where
  "acquired s = count_list (upcalls s) AcquireWakelock"

definition released :: "sess \<Rightarrow> nat" where
  "released s = count_list (upcalls s) ReleaseWakelock"

text \<open>The flags hold one bit each.\<close>

definition flags_ok :: "gps \<Rightarrow> bool" where
  "flags_ok g \<longleftrightarrow> {init g, start_flag g, started g, flag_unlock g} \<subseteq> {0, 1}"

text \<open>A start that waits is not overlooked: the condition is set, or the next data sets it.\<close>

definition wake_ok :: "gps \<Rightarrow> client \<Rightarrow> bool" where
  "wake_ok g c \<longleftrightarrow> (starting c \<longrightarrow> start_flag g = 0)
     \<and> (start_flag g = 0 \<and> \<not> woken c \<longrightarrow> flag_unlock g = 0 \<or> condtion g M_START)"

text \<open>The wake lock is not taken again while it is held.\<close>

definition lock_ok :: "gps \<Rightarrow> client \<Rightarrow> nat \<Rightarrow> nat \<Rightarrow> bool" where
  "lock_ok g c a r \<longleftrightarrow> a \<le> r + (if start_flag g \<noteq> 0 \<or> c \<in> {StartClear, StartDone} then 1 else 0)"

text \<open>The thread lives only between the initialisation and the clean-up, with its descriptors open.\<close>

definition thread_ok_inv :: "gps \<Rightarrow> client \<Rightarrow> thread \<Rightarrow> bool \<Rightarrow> bool" where
  "thread_ok_inv g c t fds \<longleftrightarrow> (alive t \<longrightarrow> fds \<and> \<not> condtion g M_CLEANUP)
     \<and> (t = Created \<longrightarrow> c = InitWait \<and> \<not> condtion g M_INIT)
     \<and> (init g = 0 \<and> c \<noteq> InitWait \<longrightarrow> \<not> alive t \<and> \<not> condtion g M_CLEANUP)
     \<and> (c \<in> {InitWait, InitFail} \<longrightarrow> init g = 0)
     \<and> (condtion g M_INIT \<longrightarrow> c = InitWait)"

definition sess_inv :: "sess \<Rightarrow> bool" where
  "sess_inv s \<longleftrightarrow> flags_ok (hal s) \<and> wake_ok (hal s) (client s)
     \<and> lock_ok (hal s) (client s) (acquired s) (released s)
     \<and> thread_ok_inv (hal s) (client s) (native s) (fds_open s)"

lemmas inv_defs = sess_inv_def flags_ok_def wake_ok_def lock_ok_def thread_ok_inv_def
lemmas place_defs = starting_def woken_def alive_def acquired_def released_def

text \<open>The invariant looks at the flags, the conditions, the client, the thread and the wake lock only.\<close>

lemma session_parts:
  "session g' = session g \<longleftrightarrow> init g' = init g \<and> start_flag g' = start_flag g \<and> started g' = started g
    \<and> flag_unlock g' = flag_unlock g \<and> condtion g' = condtion g"
  by (auto simp: session_def)

lemma sess_inv_cong:
  assumes "session (hal s') = session (hal s)" "client s' = client s" "native s' = native s" "fds_open s' = fds_open s"
    and "upcalls s' = upcalls s"
  shows "sess_inv s' = sess_inv s"
  using assms by (simp add: inv_defs session_parts acquired_def released_def)

lemma inv_rest: "at_rest s \<Longrightarrow> sess_inv s"
  by (simp add: at_rest_def inv_defs place_defs)

lemma pred_bind: "(\<And>y. x = Some y \<Longrightarrow> pred_option P (f y)) \<Longrightarrow> pred_option P (x \<bind> f)"
  by (cases x) simp_all

text \<open>What the invariant says when no call is made.\<close>

lemma inv_idle:
  assumes "sess_inv s" "client s = Idle" "init (hal s) = 0"
  shows "\<not> alive (native s)" "\<not> condtion (hal s) M_CLEANUP" "\<not> condtion (hal s) M_INIT"
  using assms by (simp_all add: sess_inv_def thread_ok_inv_def)

lemma inv_init:
  assumes "sess_inv s" "client s = Idle"
  shows "pred_option sess_inv (mtk_gps_init i s)"
proof (cases "init (hal s) = 0")
  case True
  note idle = inv_idle [OF assms True]
  have leaf: "sess_inv (s\<lparr>hal := (hal s)\<lparr>sock := n\<rparr>, client := c, fds_open := fds, control := cs, native := t\<rparr>)"
    if "c = InitWait \<and> t = Created \<and> fds \<or> c = InitWait \<and> t = native s \<or> c = InitFail \<and> t = native s" for n c fds cs t
    using that assms idle True by (elim disjE conjE) (simp_all add: inv_defs place_defs)
  have "sess_inv (s\<lparr>client := InitWait\<rparr>)"
    using leaf [where c = InitWait and t = "native s" and fds = "fds_open s" and n = "sock (hal s)" and cs = "control s"] by simp
  moreover have "sess_inv (s\<lparr>hal := (hal s)\<lparr>sock := n\<rparr>, client := InitFail\<rparr>)" for n
    using leaf [where c = InitFail and t = "native s" and fds = "fds_open s" and n = n and cs = "control s"] by simp
  moreover have "sess_inv (s\<lparr>hal := (hal s)\<lparr>sock := n\<rparr>, client := InitFail, fds_open := True, control := [CMD_QUIT]\<rparr>)" for n
    using leaf [where c = InitFail and t = "native s" and fds = True and n = n and cs = "[CMD_QUIT]"] by simp
  moreover have "sess_inv (s\<lparr>hal := (hal s)\<lparr>sock := n\<rparr>, client := InitWait, fds_open := True, control := [], native := Created\<rparr>)" for n
    using leaf [where c = InitWait and t = Created and fds = True and n = n and cs = "[]"] by simp
  ultimately show ?thesis
    using assms(1) True by (simp add: mtk_gps_init_def gps_state_init_def pred_bind split_beta Let_def)
qed (simp add: mtk_gps_init_def assms)

lemma sess_inv_frame [simp]:
  "sess_inv (s\<lparr>control := cs\<rparr>) = sess_inv s" "sess_inv (s\<lparr>thread_epo_exit_flag := x\<rparr>) = sess_inv s"
  "sess_inv (s\<lparr>epo_running := x\<rparr>) = sess_inv s" "sess_inv (s\<lparr>nw := w\<rparr>) = sess_inv s"
  "sess_inv (s\<lparr>reader := r\<rparr>) = sess_inv s" "sess_inv (s\<lparr>count := q\<rparr>) = sess_inv s"
  "sess_inv (s\<lparr>report_time_interval := q\<rparr>) = sess_inv s" "sess_inv (s\<lparr>reports := e\<rparr>) = sess_inv s"
  "sess_inv (s\<lparr>epo_data := d\<rparr>) = sess_inv s"
  "sess_inv (s\<lparr>hal := (hal s)\<lparr>sock := n\<rparr>\<rparr>) = sess_inv s"
  by (rule sess_inv_cong; simp)+

text \<open>Between places outside the start and the initialisation the client moves freely.\<close>

definition neutral :: "client \<Rightarrow> bool" where
  "neutral c \<longleftrightarrow> \<not> starting c \<and> c \<noteq> InitWait \<and> c \<noteq> InitFail"

lemma inv_move: "sess_inv s \<Longrightarrow> neutral (client s) \<Longrightarrow> neutral c \<Longrightarrow> sess_inv (s\<lparr>client := c\<rparr>)"
  by (auto simp: neutral_def sess_inv_def wake_ok_def lock_ok_def thread_ok_inv_def acquired_def released_def
      starting_def woken_def)

lemma neutral_places [simp]:
  "neutral Idle" "neutral StartSpin" "neutral StopSpin" "neutral StopSend" "neutral StopCmd" "neutral CleanSend"
  "neutral CleanWait" "neutral CleanClear" "neutral CleanQuit" "neutral CleanQuitWait" "neutral CleanEpo" "neutral CleanEpoWait"
  by (simp_all add: neutral_def starting_def)

text \<open>A call that is made.\<close>

lemma inv_enter:
  assumes "sess_inv s" "client s = Idle"
  shows "pred_option sess_inv (enter c s)"
proof -
  have keep: "sess_inv (s\<lparr>hal := (hal s)\<lparr>sock := n\<rparr>\<rparr>)" "sess_inv (s\<lparr>nw := w, hal := (hal s)\<lparr>sock := n\<rparr>\<rparr>)"
    "sess_inv (s\<lparr>hal := (hal s)\<lparr>sock := n, gpsmeasurement_init_flag := a\<rparr>\<rparr>)"
    "sess_inv (s\<lparr>hal := (hal s)\<lparr>sock := n, gpsnavigation_init_flag := a\<rparr>\<rparr>)"
    "sess_inv (s\<lparr>control := cs, hal := (hal s)\<lparr>sock := n\<rparr>\<rparr>)"
    for w n a cs
    using assms(1) by (subst sess_inv_cong [of _ s]; simp)+
  show ?thesis
  proof (cases c)
    case (Init i)
    then show ?thesis using inv_init [OF assms] by (simp add: enter_def)
  next
    case (DeleteAiding f)
    then show ?thesis using assms keep
      by (cases "restart_command f")
        (simp_all add: enter_def mtk_gps_delete_aiding_data_def gps_state_restart_def write_control_def Let_def pred_bind split_beta)
  next
    case (Request q)
    then show ?thesis using keep by (simp add: enter_def on_request_def pred_bind split_beta)
  qed (use assms keep in \<open>simp_all add: enter_def mtk_gps_start_def mtk_gps_stop_def mtk_gps_cleanup_def inv_move
      mtk_gps_set_position_mode_def mtk_gps_epo_interface_init_def mtk_gps_measurement_init_def
      mtk_gps_measurement_close_def mtk_gps_navigation_init_def mtk_gps_navigation_close_def Let_def pred_bind split_beta\<close>)
qed

text \<open>The parts of a call.\<close>

lemma inv_init_done: "sess_inv s \<Longrightarrow> client s = InitWait \<Longrightarrow> pred_option sess_inv (init_done v s)"
proof -
  assume s: "sess_inv s" "client s = InitWait"
  have "sess_inv (upcall [SetCapabilities] (s\<lparr>hal := (hal s)\<lparr>condtion := (condtion (hal s))(M_INIT := False), init := 1\<rparr>,
      epo_data := e, client := Idle\<rparr>))" if "condtion (hal s) M_INIT" for e
    using s that by (simp add: upcall_def) (clarsimp simp: inv_defs place_defs)
  then show ?thesis
    unfolding init_done_def by (intro pred_bind) (auto simp: get_condition_def split: if_splits)
qed

lemma inv_init_failed: "sess_inv s \<Longrightarrow> client s = InitFail \<Longrightarrow> init_failed s = None"
  by (simp add: init_failed_def get_condition_def inv_defs)

lemma inv_start_spin: "sess_inv s \<Longrightarrow> client s = StartSpin \<Longrightarrow> pred_option sess_inv (start_spin s)"
  by (simp add: start_spin_def) (clarsimp simp: inv_defs place_defs)

lemma inv_start_send: "sess_inv s \<Longrightarrow> client s = StartSend \<Longrightarrow> pred_option sess_inv (start_send s)"
  by (simp add: start_send_def split_beta) (rule pred_bind, clarsimp simp: inv_defs place_defs)

lemma inv_start_epo: "sess_inv s \<Longrightarrow> client s = StartEpo \<Longrightarrow> pred_option sess_inv (start_look_epo v s)"
proof -
  assume s: "sess_inv s" "client s = StartEpo"
  have "sess_inv (s\<lparr>hal := eg h, nw := enw h, epo_data := ee h, client := StartWait\<rparr>)" if "start_epo v (ehal_of s) = Some h" for h
    using start_epo_session [OF that] s by (simp add: ehal_of_def session_parts) (clarsimp simp: inv_defs place_defs)
  then show ?thesis by (simp add: start_look_epo_def with_ehal_def pred_bind)
qed

lemma inv_start_wait: "sess_inv s \<Longrightarrow> client s = StartWait \<Longrightarrow> pred_option sess_inv (start_wait s)"
  by (simp add: start_wait_def get_condition_def) (clarsimp simp: inv_defs place_defs)

lemma inv_start_cmd: "sess_inv s \<Longrightarrow> client s = StartCmd \<Longrightarrow> sess_inv (start_cmd s)"
  by (simp add: start_cmd_def gps_state_start_def write_control_def) (clarsimp simp: inv_defs place_defs)

lemma inv_start_report: "sess_inv s \<Longrightarrow> client s = StartReport \<Longrightarrow> sess_inv (start_report s)"
  by (simp add: start_report_def upcall_def) (clarsimp simp: inv_defs place_defs)

lemma inv_start_clear: "sess_inv s \<Longrightarrow> client s = StartClear \<Longrightarrow> sess_inv (start_clear s)"
  by (simp add: start_clear_def clear_stop_def) (clarsimp simp: inv_defs place_defs)

lemma inv_start_done: "sess_inv s \<Longrightarrow> client s = StartDone \<Longrightarrow> sess_inv (start_done s)"
  by (simp add: start_done_def) (clarsimp simp: inv_defs place_defs)

lemma inv_clear_stop: "sess_inv (s\<lparr>hal := clear_stop (hal s)\<rparr>) = sess_inv s"
  by (simp add: inv_defs clear_stop_def acquired_def released_def)

lemma inv_stop_send: "sess_inv s \<Longrightarrow> client s = StopSend \<Longrightarrow> pred_option sess_inv (stop_send s)"
  unfolding stop_send_def by (rule pred_bind) (simp add: inv_move split: prod.split)

lemma inv_clean_send: "sess_inv s \<Longrightarrow> client s = CleanSend \<Longrightarrow> pred_option sess_inv (clean_send s)"
  unfolding clean_send_def by (rule pred_bind) (simp add: inv_move split: prod.split)

lemma inv_clean_wait: "sess_inv s \<Longrightarrow> client s = CleanWait \<Longrightarrow> pred_option sess_inv (clean_wait s)"
  by (simp add: clean_wait_def get_condition_def) (clarsimp simp: inv_defs place_defs)

lemma inv_clean_epo_wait: "sess_inv s \<Longrightarrow> client s = CleanEpoWait \<Longrightarrow> pred_option sess_inv (clean_epo_wait s)"
  by (simp add: clean_epo_wait_def get_condition_def) (clarsimp simp: inv_defs place_defs)

lemma inv_clean_clear: "sess_inv s \<Longrightarrow> client s = CleanClear \<Longrightarrow> sess_inv (clean_clear s)"
  using inv_move [of "s\<lparr>hal := clear_stop (hal s)\<rparr>"] by (simp add: clean_clear_def inv_clear_stop)

lemma inv_state_done: "sess_inv s \<Longrightarrow> client s = CleanQuitWait \<Longrightarrow> pred_option sess_inv (gps_state_done s)"
  by (simp add: gps_state_done_def get_condition_def) (clarsimp simp: inv_defs place_defs)

lemma inv_go_on: "sess_inv s \<Longrightarrow> pred_option sess_inv (go_on v s)"
proof (cases "client s")
  case InitFail
  then show ?thesis if "sess_inv s" using inv_init_failed [OF that] by (simp add: go_on_def)
next
  case StopSpin
  then show ?thesis if "sess_inv s" using that by (simp add: go_on_def stop_spin_def inv_move)
next
  case StopCmd
  then show ?thesis if "sess_inv s" using inv_move [of "write_control CMD_STOP s" Idle] that
    by (simp add: go_on_def stop_cmd_def gps_state_stop_def write_control_def)
next
  case CleanQuit
  then show ?thesis if "sess_inv s" using inv_move [of "write_control CMD_QUIT s"] that
    by (simp add: go_on_def clean_quit_def write_control_def)
next
  case CleanEpo
  then show ?thesis if "sess_inv s" using inv_move [of "s\<lparr>thread_epo_exit_flag := True\<rparr>"] that
    by (simp add: go_on_def clean_epo_def)
qed (simp_all add: go_on_def inv_init_done inv_start_spin inv_start_send inv_start_epo inv_start_wait inv_start_cmd
    inv_start_report inv_start_clear inv_start_done inv_stop_send inv_clean_send inv_clean_wait inv_clean_epo_wait
    inv_clean_clear inv_state_done)

text \<open>The events of the threads.\<close>

lemma inv_thread:
  assumes "sess_inv s" "l \<noteq> M_START" "thread_ok_inv (release_condition l (hal s)) (client s) t (fds_open s)"
  shows "sess_inv (s\<lparr>hal := release_condition l (hal s), native := t\<rparr>)"
  using assms by (simp add: sess_inv_def flags_ok_def wake_ok_def lock_ok_def release_condition_def acquired_def released_def)

lemma inv_native_ready:
  assumes "sess_inv s" "native s = Created"
  shows "sess_inv (native_ready r s)"
proof -
  have "thread_ok_inv (hal s) (client s) (native s) (fds_open s)" using assms(1) by (simp add: sess_inv_def)
  then have "thread_ok_inv (release_condition M_INIT (hal s)) (client s) Running (fds_open s)"
    using assms(2) by (simp add: thread_ok_inv_def release_condition_def alive_def)
  from inv_thread [OF assms(1) _ this] show ?thesis
    by (simp add: native_ready_def)
qed

lemma thread_gone: "thread_ok_inv g c t fds \<Longrightarrow> thread_ok_inv g c Gone fds"
  unfolding thread_ok_inv_def alive_def by blast

lemma inv_native_fail: "sess_inv s \<Longrightarrow> sess_inv (native_fail s)"
  using thread_gone [of "hal s" "client s" "native s" "fds_open s"]
  by (simp add: sess_inv_def native_fail_def acquired_def released_def)

lemma released_cond [simp]:
  "condtion (release_condition l g) k = (k = l \<or> condtion g k)" "init (release_condition l g) = init g"
  "start_flag (release_condition l g) = start_flag g" "started (release_condition l g) = started g"
  "flag_unlock (release_condition l g) = flag_unlock g"
  by (simp_all add: release_condition_def)

lemma thread_exit: "thread_ok_inv g c Running fds \<Longrightarrow> thread_ok_inv (release_condition M_CLEANUP g) c Gone fds"
  unfolding thread_ok_inv_def alive_def released_cond using sync.distinct by blast

lemma inv_native_exit:
  assumes "sess_inv s" "native s = Running"
  shows "sess_inv (native_exit s)"
  using inv_thread [OF assms(1), of M_CLEANUP Gone] thread_exit [of "hal s" "client s" "fds_open s"] assms
  by (simp add: native_exit_def sess_inv_def)

lemma thread_ok_cong:
  "init g' = init g \<Longrightarrow> condtion g' M_CLEANUP = condtion g M_CLEANUP \<Longrightarrow> condtion g' M_INIT = condtion g M_INIT
    \<Longrightarrow> thread_ok_inv g' c t fds = thread_ok_inv g c t fds"
  by (simp only: thread_ok_inv_def)

lemma inv_started: "sess_inv s \<Longrightarrow> k \<in> {0, 1} \<Longrightarrow> sess_inv (s\<lparr>hal := (hal s)\<lparr>started := k\<rparr>\<rparr>)"
  using thread_ok_cong [of "(hal s)\<lparr>started := k\<rparr>" "hal s"]
  by (simp add: sess_inv_def flags_ok_def wake_ok_def lock_ok_def acquired_def released_def)

lemma inv_on_control:
  assumes "sess_inv s" "native s = Running"
  shows "sess_inv (on_control c s)"
proof (cases c)
  case CMD_START
  then show ?thesis using assms(1) inv_started [OF assms(1), of 1]
    by (simp add: on_control_def)
next
  case CMD_STOP
  then show ?thesis using assms(1) inv_started [OF assms(1), of 0]
    by (simp add: on_control_def)
qed (use assms in \<open>simp_all add: on_control_def inv_native_exit\<close>)

definition first_data :: "gps \<Rightarrow> gps" where
  "first_data g = (if flag_unlock g = 0 then (release_condition M_START g)\<lparr>flag_unlock := 1\<rparr> else g)"

lemma inv_first_data: "sess_inv s \<Longrightarrow> sess_inv (s\<lparr>hal := first_data (hal s)\<rparr>)"
proof (cases "flag_unlock (hal s) = 0")
  case True
  then show ?thesis if "sess_inv s"
    using that thread_ok_cong [of "first_data (hal s)" "hal s"]
    by (simp add: sess_inv_def flags_ok_def wake_ok_def lock_ok_def acquired_def released_def first_data_def)
qed (simp add: first_data_def)

lemma on_gps_data_alt:
  "on_gps_data E bs s = (let s1 = s\<lparr>hal := first_data (hal s), count := count s + 1\<rparr> in
     if report_time_interval s > count s + 1 then Some s1
     else map_option (\<lambda>(evs, r). s1\<lparr>count := 0, reader := r, reports := reports s @ evs\<rparr>)
       (read_all ((nmea E)\<lparr>nav_started := started (hal s)\<rparr>) bs (reader s)))"
proof -
  have "started (first_data (hal s)) = started (hal s)" by (simp add: first_data_def release_condition_def)
  then show ?thesis
    unfolding on_gps_data_def Let_def first_data_def [symmetric]
    by (cases "read_all ((nmea E)\<lparr>nav_started := started (hal s)\<rparr>) bs (reader s)") auto
qed

lemma inv_on_gps_data: "sess_inv s \<Longrightarrow> pred_option sess_inv (on_gps_data E bs s)"
  using inv_first_data [of s]
  by (cases "read_all ((nmea E)\<lparr>nav_started := started (hal s)\<rparr>) bs (reader s)")
    (auto simp: on_gps_data_alt Let_def)

lemma inv_die:
  assumes "sess_inv s" "on_mnl_die (hal s) = (g, us)"
  shows "sess_inv (upcall us (s\<lparr>hal := g\<rparr>))"
proof -
  have g: "g = (release_condition M_STOP ((hal s)\<lparr>flag_unlock := 0, sta := ENGINE_OFF\<rparr>))\<lparr>start_flag := 0\<rparr>"
    and us: "us = [StatusCb SESSION_END, StatusCb ENGINE_OFF, ReleaseWakelock]"
    using assms(2) by (simp_all add: on_mnl_die_def Let_def)
  show ?thesis
    using assms(1) thread_ok_cong [of g "hal s"] unfolding us
    by (simp add: sess_inv_def flags_ok_def wake_ok_def lock_ok_def acquired_def released_def upcall_def g split: if_splits)
qed

lemma inv_same_ups:
  assumes "sess_inv s" "session g = session (hal s)" "AcquireWakelock \<notin> set us"
  shows "sess_inv (upcall us (s\<lparr>hal := g\<rparr>))"
proof -
  have "count_list us AcquireWakelock = 0" using assms(3) by simp
  then show ?thesis
    using assms(1, 2) thread_ok_cong [of g "hal s"]
    by (simp add: sess_inv_def flags_ok_def wake_ok_def lock_ok_def acquired_def released_def upcall_def session_parts)
qed

lemma inv_on_mnld: "sess_inv s \<Longrightarrow> pred_option sess_inv (on_mnld E fd rx d s)"
  unfolding on_mnld_def
proof (rule pred_bind)
  fix y assume s: "sess_inv s" and y: "mnld_to_gps_handler (mnld E) fd rx d (hal s) = Some y"
  obtain rx' g us where [simp]: "y = (rx', g, us)" by (cases y)
  show "pred_option sess_inv (case y of (rx, g, us) \<Rightarrow> Some (upcall us (s\<lparr>hal := g\<rparr>)))"
    using on_mnld_session [of "mnld E" fd rx d "hal s" rx' g us] y s inv_die [of s g us] inv_same_ups [of s g us] by auto
qed

lemma inv_epo_turn: "sess_inv s \<Longrightarrow> pred_option sess_inv (on_epo_turn v s)"
  unfolding on_epo_turn_def
proof (rule pred_bind)
  fix y assume s: "sess_inv s" and y: "epo_turn v (ehal_of s) = Some y"
  obtain dly h where [simp]: "y = (dly, h)" by (cases y)
  have "session (eg h) = session (hal s)" using epo_turn_session [of "ehal_of s" v] y by (simp add: ehal_of_def)
  then show "pred_option sess_inv (case y of (delay, h) \<Rightarrow> Some (with_ehal h s))"
    using s sess_inv_cong [of "with_ehal h s" s] by (simp add: with_ehal_def)
qed

lemma inv_epo_exit: "sess_inv s \<Longrightarrow> sess_inv (epo_exit s)"
  using inv_thread [of s M_THREAD_EXIT "native s"] thread_ok_cong [of "release_condition M_THREAD_EXIT (hal s)" "hal s"]
  by (simp add: epo_exit_def sess_inv_def acquired_def released_def)

text \<open>Every event keeps the invariant, so every reachable state has it.\<close>

lemma inv_exec: "sess_inv s \<Longrightarrow> exec E v s = Some s' \<Longrightarrow> sess_inv s'"
proof -
  assume s: "sess_inv s" and e: "exec E v s = Some s'"
  have "pred_option sess_inv (exec E v s)"
  proof (cases v)
    case Control
    then show ?thesis using inv_on_control [of "s\<lparr>control := tl (control s)\<rparr>"] s by (simp add: exec_def)
  qed (use s in \<open>simp_all add: exec_def inv_enter inv_go_on inv_native_ready inv_native_fail inv_native_exit
      inv_on_gps_data inv_on_mnld inv_epo_turn inv_epo_exit\<close>)
  then show ?thesis using e by simp
qed

lemma reachable_inv: "reachable E s \<Longrightarrow> sess_inv s"
  by (induction rule: reachable.induct) (auto intro: inv_rest inv_exec)

fun execs :: "sess_env \<Rightarrow> event list \<Rightarrow> sess \<Rightarrow> sess option" where
  "execs E [] s = Some s"
| "execs E (v # vs) s = do { s \<leftarrow> exec E v s; execs E vs s }"

lemma reachable_execs: "reachable E s \<Longrightarrow> execs E vs s = Some s' \<Longrightarrow> reachable E s'"
  by (induction vs arbitrary: s) (auto simp: bind_eq_Some_conv intro: reachable.event)

text \<open>A run: the HAL is initialised and a session is started, up to the wait for the device.\<close>

definition ex_sess_env :: sess_env where
  "ex_sess_env = \<lparr>mnld = ex_mnld_env, nmea = ex_env 0\<rparr>"

definition ex_sess :: sess where
  "ex_sess = \<lparr>hal = ex_gps\<lparr>init := 0, sock := \<lparr>answers = [Done 1, Done 1, Done 1], errno_of = EINTR, delivered = []\<rparr>\<rparr>,
     nw = \<lparr>nw_connected = 0, nw_type = nw_data\<rparr>, epo_data = epo_start [], control = [], client = Idle, native = NoThread,
     fds_open = False, reader = ex_reader 0, count = 0, report_time_interval = 1, epo_running = False,
     thread_epo_exit_flag = False, upcalls = [], reports = []\<rparr>"

definition ex_start :: "event list" where
  "ex_start = [Call (Init \<lparr>callbacks_ok = True, dev_gps_ok = True, socketpair_ok = True, thread_ok = True\<rparr>),
     Ready (ex_reader 0), Next ex_epo_env, Call Start, Next ex_epo_env, Next ex_epo_env, Next ex_epo_env]"

definition ex_waiting :: sess where
  "ex_waiting = ex_sess\<lparr>hal := (hal ex_sess)\<lparr>init := 1, sock := \<lparr>answers = [Done 1], errno_of = EINTR,
       delivered = [[of_int MNL_CMD_INIT], [of_int MNL_CMD_START]]\<rparr>\<rparr>,
     epo_data := (epo_start [])\<lparr>epo_data_updated := 1\<rparr>, client := StartWait, native := Running, fds_open := True,
     upcalls := [SetCapabilities]\<rparr>"

lemmas call_defs = enter_def go_on_def mtk_gps_init_def gps_state_init_def init_done_def mtk_gps_start_def start_spin_def
  start_send_def start_wait_def start_cmd_def gps_state_start_def write_control_def start_report_def start_clear_def clear_stop_def
  start_done_def mtk_gps_cleanup_def clean_send_def clean_wait_def get_condition_def upcall_def native_ready_def
  release_condition_def mtk_init_def mtk_start_def mtk_cleanup_def mtk_daemon_send_def

lemma ex_started: "execs ex_sess_env ex_start ex_sess = Some ex_waiting"
  by (simp add: ex_start_def exec_def call_defs ex_sess_def ex_waiting_def ex_gps_def numeral_eq_Suc start_look_epo_def
      start_epo_def gps_download_epo_enable_def gps_download_epo_def ehal_of_def with_ehal_def epo_start_def fun_upd_def
      init_epo_type_def epo_type_of_chip_def ex_epo_env_def mnl_prop_path_def read_prop_def)

lemma ex_rest: "reachable E ex_sess"
  by (rule reachable.rest) (simp add: at_rest_def ex_sess_def ex_gps_def)

lemma ex_waiting_reachable: "reachable ex_sess_env ex_waiting"
  by (rule reachable_execs [OF ex_rest ex_started])



text \<open>C36.
  A start that waits for the device is woken: in every reachable state in which the framework waits in
  \<^verbatim>\<open>mtk_gps_start\<close> and the thread runs, the next data of the device is processed to its end and the call
  then returns without a further wait, with the command for the thread written, the session reported to
  the framework and the wake lock taken.
\<close>

theorem start_wakes:
  assumes "reachable E s" "client s = StartWait" "native s = Running"
    and "reader_inv (nmea E) k (reader s)" "0 < GPS_MAX_SVS (nmea E)"
    and "k + int (length (concat bs)) * max_svs (nmea E) \<le> 2147483647"
  shows "\<exists>s'. execs E [Data bs, Next v, Next v, Next v, Next v, Next v] s = Some s'
    \<and> client s' = Idle \<and> start_flag (hal s') = 1 \<and> control s' = control s @ [CMD_START]
    \<and> upcalls s' = upcalls s @ [StatusCb ENGINE_ON, StatusCb SESSION_BEGIN, AcquireWakelock]"
proof -
  define env where "env = (nmea E)\<lparr>nav_started := started (hal s)\<rparr>"
  have env: "reader_inv env k (reader s)" "0 < GPS_MAX_SVS env" "k + int (length (concat bs)) * max_svs env \<le> 2147483647"
    using assms(4-6) by (simp_all add: env_def reader_inv_def max_svs_def)
  obtain ev r where rd: "read_all env bs (reader s) = Some (ev, r)"
    using read_all_safe [OF env] by blast
  define s1 where "s1 = (if report_time_interval s > count s + 1 then s\<lparr>hal := first_data (hal s), count := count s + 1\<rparr>
    else s\<lparr>hal := first_data (hal s), count := 0, reader := r, reports := reports s @ ev\<rparr>)"
  have data: "exec E (Data bs) s = Some s1"
    using rd assms(3) by (simp add: exec_def on_gps_data_alt env_def s1_def Let_def)
  have "wake_ok (hal s) StartWait" using reachable_inv [OF assms(1)] assms(2) by (simp add: sess_inv_def)
  then have wake: "condtion (hal s1) M_START"
    by (auto simp: wake_ok_def starting_def woken_def s1_def first_data_def)
  have "thread_ok_inv (hal s) (client s) (native s) (fds_open s)" using reachable_inv [OF assms(1)] by (simp add: sess_inv_def)
  then have "fds_open s" using assms(3) unfolding thread_ok_inv_def alive_def by blast
  then have s1: "fds_open s1" "client s1 = StartWait" "control s1 = control s" "upcalls s1 = upcalls s"
    using assms(2) by (simp_all add: s1_def)
  show ?thesis
    using wake s1
    by (simp add: data) (simp add: exec_def go_on_def start_wait_def get_condition_def start_cmd_def gps_state_start_def write_control_def
        start_report_def upcall_def start_clear_def start_done_def)
qed

theorem start_wakes_witness:
  "\<exists>s'. execs ex_sess_env [Data [''$GPGSV'', [CHR 0x0A]], Next ex_epo_env, Next ex_epo_env, Next ex_epo_env, Next ex_epo_env, Next ex_epo_env] ex_waiting = Some s'
    \<and> start_flag (hal s') = 1
    \<and> upcalls s' = [SetCapabilities, StatusCb ENGINE_ON, StatusCb SESSION_BEGIN, AcquireWakelock]"
proof -
  have "reader_inv (nmea ex_sess_env) 0 (reader ex_waiting)" "0 < GPS_MAX_SVS (nmea ex_sess_env)"
    "max_svs (nmea ex_sess_env) = 64" "upcalls ex_waiting = [SetCapabilities]"
    using ex_reader_inv [of 0] by (simp_all add: ex_sess_env_def ex_waiting_def ex_sess_def ex_env_def max_svs_def)
  then show ?thesis
    using start_wakes [OF ex_waiting_reachable, of 0 "[''$GPGSV'', [CHR 0x0A]]" ex_epo_env] by (auto simp: ex_waiting_def simp del: execs.simps)
qed

section \<open>Calls that do not return\<close>

text \<open>
  A stop without a session waits for the flag of a session for ever: only a call of the framework sets
  it, and the framework is in the stop.
\<close>

lemma stop_without_start_spins:
  assumes "client s = StopSpin" "start_flag (hal s) = 0" "exec E v s = Some s'"
  shows "client s' = StopSpin \<and> start_flag (hal s') = 0"
proof (cases v)
  case (Message fd rx d)
  then obtain rx' g us where "mnld_to_gps_handler (mnld E) fd rx d (hal s) = Some (rx', g, us)" "s' = upcall us (s\<lparr>hal := g\<rparr>)"
    using assms(3) by (auto simp: exec_def on_mnld_def bind_eq_Some_conv split: if_splits)
  then show ?thesis
    using on_mnld_session assms(1, 2) by (fastforce simp: upcall_def session_parts on_mnl_die_def Let_def)
next
  case (EpoTurn w)
  then show ?thesis
    using assms epo_turn_session [of "ehal_of s" w]
    by (auto simp: exec_def on_epo_turn_def bind_eq_Some_conv kept_def with_ehal_def ehal_of_def session_parts split: if_splits)
next
  case Control
  then show ?thesis
    using assms by (cases "hd (control s)") (auto simp: exec_def on_control_def native_exit_def split: if_splits)
next
  case (Data bs)
  then show ?thesis
    using assms by (auto simp: exec_def on_gps_data_alt first_data_def Let_def split: if_splits)
qed (use assms in \<open>auto simp: exec_def go_on_def stop_spin_def native_ready_def native_fail_def native_exit_def epo_exit_def split: if_splits\<close>)

text \<open>
  When the initialisation fails behind the device, it tears the state down and waits for the end of a
  thread that was never made.
\<close>

lemma failed_init_hangs: "reachable E s \<Longrightarrow> client s = InitFail \<Longrightarrow> go_on v s = None"
  using inv_init_failed [OF reachable_inv] by (simp add: go_on_def)

lemma failed_init_reached:
  "\<exists>s. reachable ex_sess_env s \<and> client s = InitFail"
proof -
  have "execs ex_sess_env [Call (Init \<lparr>callbacks_ok = True, dev_gps_ok = True, socketpair_ok = False, thread_ok = True\<rparr>)] ex_sess
      = Some (ex_sess\<lparr>hal := (hal ex_sess)\<lparr>sock := \<lparr>answers = [Done 1, Done 1], errno_of = EINTR,
          delivered = [[of_int MNL_CMD_INIT]]\<rparr>\<rparr>, client := InitFail\<rparr>)"
    by (simp add: exec_def call_defs ex_sess_def ex_gps_def)
  from reachable_execs [OF ex_rest this] show ?thesis by auto
qed

text \<open>
  The daemon dies after the session was reported and before its flag is set: the start throws the
  condition away and sets the flag, and the clean-up waits for a second death of the daemon.
\<close>

lemma die_message: "mnld_to_gps_handler ex_mnld_env 5 (ex_rx 4) (le4 HAL_CMD_MNL_DIE) g
    = Some (\<lparr>answers = [], errno_of = EINTR, delivered = []\<rparr>, on_mnl_die g)"
proof -
  have "safe_read 5 False 9000 (ex_rx 4) = Some (4, \<lparr>answers = [], errno_of = EINTR, delivered = []\<rparr>)"
    by (simp add: safe_read_def ex_rx_def)
  moreover have "buff_get_int (rx_buffer 4 (le4 HAL_CMD_MNL_DIE), 0)
      = Some (HAL_CMD_MNL_DIE, (rx_buffer 4 (le4 HAL_CMD_MNL_DIE), 4))"
    using ci.get_enc [of HAL_CMD_MNL_DIE "[]" "replicate 8996 0"]
    by (simp add: rx_buffer_def int_ok_def mnld_command_defs)
  ultimately show ?thesis
    by (simp add: mnld_to_gps_handler_def dispatch_def mnld_command_defs split: prod.split)
qed

lemma cleanup_misses_death:
  "\<exists>s. reachable ex_sess_env s \<and> client s = CleanWait \<and> \<not> condtion (hal s) M_STOP \<and> go_on v s = None"
proof -
  let ?vs = "[Data [], Next v, Next v, Next v, Message 5 (ex_rx 4) (le4 HAL_CMD_MNL_DIE), Next v, Next v, Call Cleanup, Next v]"
  have "\<exists>s. execs ex_sess_env ?vs ex_waiting = Some s \<and> client s = CleanWait \<and> \<not> condtion (hal s) M_STOP"
    by (simp add: exec_def on_gps_data_def on_mnld_def ex_sess_env_def die_message on_mnl_die_def call_defs ex_waiting_def
        ex_sess_def ex_gps_def)
  then obtain s where s: "execs ex_sess_env ?vs ex_waiting = Some s" "client s = CleanWait" "\<not> condtion (hal s) M_STOP" by blast
  moreover from s(2, 3) have "go_on v s = None" by (simp add: go_on_def clean_wait_def get_condition_def)
  ultimately show ?thesis using reachable_execs [OF ex_waiting_reachable] by blast
qed

end
