(* ===== verification/GpsDownload.thy ===== *)
theory GpsDownload
  imports GpsEpo
begin

text \<open>
  A complete download of orbit data: with a server that answers every request, each turn of the thread
  adds a piece, and the last one leaves the concatenation of the pieces in the file of the HAL, removes
  the pieces and asks the receiver to take the data.
\<close>

section \<open>A complete download\<close>

text \<open>The names of a piece and of its key.\<close>

definition piece_name :: "int \<Rightarrow> nat \<Rightarrow> string" where
  "piece_name t k = in_dir ((if t = 1 then ''EPO_GPS_3_'' else ''EPO_GR_3_'') @ dec (int k + 1) @ ''.DAT'')"

definition key_name :: "int \<Rightarrow> nat \<Rightarrow> string" where
  "key_name t k = in_dir ((if t = 1 then ''EPO_GPS_3_'' else ''EPO_GR_3_'') @ dec (int k + 1) @ ''.MD5'')"

lemma dec_inj_nat: "dec (int j + 1) = dec (int k + 1) \<Longrightarrow> j = k"
  using digits_value_dec_nat [of "j + 1"] digits_value_dec_nat [of "k + 1"]
  by (simp add: dec_def nat_add_distrib)

lemma piece_name_inj: "piece_name t j = piece_name t k \<longleftrightarrow> j = k"
  by (auto simp: piece_name_def in_dir_def dest: dec_inj_nat)

lemma piece_name_other [simp]:
  "piece_name t k \<noteq> EPO_FILE_HAL" "EPO_FILE_HAL \<noteq> piece_name t k" "piece_name t k \<noteq> EPO_FILE" "EPO_FILE \<noteq> piece_name t k"
  "key_name t k \<noteq> EPO_FILE_HAL" "EPO_FILE_HAL \<noteq> key_name t k"
  by (simp_all add: piece_name_def key_name_def in_dir_def EPO_FILE_HAL_def EPO_FILE_def)

lemma snoc_neq: "xs @ ''.DAT'' \<noteq> ys @ ''.MD5''"
proof
  assume "xs @ ''.DAT'' = ys @ ''.MD5''"
  then have "last (xs @ ''.DAT'') = last (ys @ ''.MD5'')" by (rule arg_cong)
  then show False by simp
qed

lemma key_name_piece [simp]: "key_name t j \<noteq> piece_name t k" "piece_name t k \<noteq> key_name t j"
  using snoc_neq by (auto simp: piece_name_def key_name_def in_dir_def append_assoc [symmetric] simp del: append_assoc)

lemma file_name_set:
  assumes "gps_epo_type e \<in> {0, 1}" "k < 10"
  shows "in_dir (gps_epo_file_name (gps_download_epo_file_name (int k) e)) = piece_name (gps_epo_type e) k"
    and "in_dir (gps_epo_md_file_name (gps_download_epo_file_name (int k) e)) = key_name (gps_epo_type e) k"
  using assms by (auto simp: gps_download_epo_file_name_def piece_name_def key_name_def)

lemma file_name_frame [simp]:
  "gps_epo_type (gps_download_epo_file_name k e) = gps_epo_type e"
  "gps_epo_download_days (gps_download_epo_file_name k e) = gps_epo_download_days e"
  "epo_data_updated (gps_download_epo_file_name k e) = epo_data_updated e"
  "counter (gps_download_epo_file_name k e) = counter e"
  "downloads (gps_download_epo_file_name k e) = downloads e"
  "gps_epo_wifi_trigger (gps_download_epo_file_name k e) = gps_epo_wifi_trigger e"
  by (simp_all add: gps_download_epo_file_name_def)

lemma copy_blocks_all: "length src \<le> n \<Longrightarrow> copy_blocks n src dst = dst @ src"
proof (induction n src dst rule: copy_blocks.induct)
  case (2 n src dst)
  then show ?case by (cases "src = []") auto
qed simp

lemma length_md_key: "length (md_key content) \<le> 16"
  using length_takeWhile_le [of "\<lambda>b. b \<noteq> 0" "take 16 (drop 32 (take 48 content @ replicate 48 0))"]
  by (simp add: md_key_def c_string_def)

lemma dec_1: "dec 1 = ''1''"
  by code_simp

lemma with_counter_1: "length key \<le> 16 \<Longrightarrow> \<exists>k. with_counter 1 key = Some k"
  by (simp add: with_counter_def dec_1)

text \<open>A piece that arrives is stored under its name and added to the data of the HAL.\<close>

lemma fetch_key_ok:
  assumes "downloads (ee h) = Got 0 md # ds" "in_dir (gps_epo_md_file_name (ee h)) = key" "open_ok env key"
  shows "fetch_key env h = Some (md_key md, h\<lparr>eg := (eg h)\<lparr>files := (files (eg h))(key := None)\<rparr>,
    ee := (ee h)\<lparr>downloads := ds, counter := 1\<rparr>\<rparr>)"
  using assms by (simp add: fetch_key_def curl_easy_download_def unlink_def)

lemma append_piece_ok:
  assumes "\<And>n. open_ok env n" "files g piece = Some bs"
  shows "append_piece env piece g
    = g\<lparr>files := (files g)(EPO_FILE_HAL \<mapsto> (case files g EPO_FILE_HAL of None \<Rightarrow> [] | Some old \<Rightarrow> old) @ bs)\<rparr>"
  using assms by (simp add: append_piece_def copy_blocks_all)

definition old_data :: "gps \<Rightarrow> byte list" where
  "old_data g = (case files g EPO_FILE_HAL of Some bs \<Rightarrow> if gps_epo_file_count g = 0 then [] else bs | None \<Rightarrow> [])"

lemma download_epo_ok:
  assumes "downloads (ee h) = Got 0 md # Got 0 piece # ds" "counter (ee h) = 1"
    and "\<And>n key. getEpoUrl env n key \<noteq> None" "\<And>n. open_ok env n"
    and "in_dir (gps_epo_file_name (ee h)) = piece_name t k" "in_dir (gps_epo_md_file_name (ee h)) = key_name t k"
  shows "curl_easy_download_epo env h
    = Some (0, h\<lparr>eg := (eg h)\<lparr>files := (files (eg h))(key_name t k := None, piece_name t k \<mapsto> piece,
        EPO_FILE_HAL \<mapsto> old_data (eg h) @ piece)\<rparr>, ee := (ee h)\<lparr>downloads := ds, counter := 1\<rparr>\<rparr>)"
proof -
  obtain k1 where k1: "with_counter 1 zero_key = Some k1"
    using with_counter_1 [of zero_key] by (auto simp: zero_key_def bytes_of_def)
  obtain k2 where k2: "with_counter 1 (md_key md) = Some k2"
    using with_counter_1 [OF length_md_key] by blast
  obtain u1 u2 where u: "getEpoUrl env (gps_epo_md_file_name (ee h)) k1 = Some u1"
    "getEpoUrl env (gps_epo_file_name (ee h)) k2 = Some u2"
    using assms(3) by blast
  have key: "fetch_key env h = Some (md_key md, h\<lparr>eg := (eg h)\<lparr>files := (files (eg h))(key_name t k := None)\<rparr>,
      ee := (ee h)\<lparr>downloads := Got 0 piece # ds, counter := 1\<rparr>\<rparr>)"
    by (rule fetch_key_ok [OF assms(1, 6, 4)])
  show ?thesis
    using assms(2, 5) k1 k2 u
    by (cases "gps_epo_file_count (eg h) = 0"; cases "files (eg h) EPO_FILE_HAL")
      (simp_all add: curl_easy_download_epo_def key curl_easy_download_def append_piece_ok [OF assms(4)]
        unlink_def old_data_def Let_def)
qed

text \<open>Pieces long enough for a time, each of which begins less than a day behind the end of the one before.\<close>

definition in_order :: "epo_env \<Rightarrow> byte list list \<Rightarrow> bool" where
  "in_order env ps \<longleftrightarrow> (\<forall>p \<in> set ps. MTK_EPO_ONE_SV_SIZE \<le> length p) \<and>
     (\<forall>k. 0 < k \<and> k < length ps \<longrightarrow> (\<exists>b e. mtk_gps_epo_piece_data_start env (ps ! k) = Some b
       \<and> mtk_gps_epo_piece_data_end env (ps ! (k - 1)) = Some e \<and> b - e < 24 * 60 * 60))"

lemma piece_times:
  "MTK_EPO_ONE_SV_SIZE \<le> length p \<Longrightarrow> \<exists>b. mtk_gps_epo_piece_data_start env p = Some b"
  by (simp add: mtk_gps_epo_piece_data_start_def)

lemma not_changed:
  assumes "in_order env ps" "k < length ps" "gps_epo_file_count (eg h) = int k"
    and "files (eg h) (in_dir (gps_epo_file_name (ee h))) = Some (ps ! k)"
    and "0 < k \<Longrightarrow> files (eg h) (in_dir (gps_epo_file_name (gps_download_epo_file_name (int k - 1) (ee h)))) = Some (ps ! (k - 1))"
    and "\<And>n. open_ok env n"
  shows "mtk_gps_epo_server_data_is_changed env h
    = (0, h\<lparr>ee := (if 0 < k then gps_download_epo_file_name (int k - 1) (ee h) else ee h)\<rparr>)"
proof -
  obtain b where b: "mtk_gps_epo_piece_data_start env (ps ! k) = Some b"
    using assms(1, 2) piece_times [of "ps ! k" env] by (auto simp: in_order_def)
  show ?thesis
  proof (cases "0 < k")
    case True
    then obtain e where "mtk_gps_epo_piece_data_end env (ps ! (k - 1)) = Some e" "b - e < 24 * 60 * 60"
      using assms(1, 2) b by (auto simp: in_order_def)
    with True b assms(3-6) show ?thesis
      by (simp add: mtk_gps_epo_server_data_is_changed_def piece_time_def Let_def)
  next
    case False
    with b assms(3, 4, 6) show ?thesis
      by (simp add: mtk_gps_epo_server_data_is_changed_def piece_time_def Let_def)
  qed
qed

text \<open>The state with the first \<open>k\<close> of the pieces stored and the others to come.\<close>

definition answers_of :: "(byte list \<times> byte list) list \<Rightarrow> dl list" where
  "answers_of mps = concat (map (\<lambda>(md, p). [Got 0 md, Got 0 p]) mps)"

definition collected :: "(byte list \<times> byte list) list \<Rightarrow> nat \<Rightarrow> dl list \<Rightarrow> ehal \<Rightarrow> bool" where
  "collected mps k ds h \<longleftrightarrow> gps_epo_type (ee h) \<in> {0, 1} \<and> piece_count (ee h) = int (length mps)
     \<and> counter (ee h) = 1 \<and> downloads (ee h) = answers_of (drop k mps) @ ds
     \<and> gps_epo_file_count (eg h) = int k
     \<and> (0 < k \<longrightarrow> files (eg h) EPO_FILE_HAL = Some (concat (map snd (take k mps)))
          \<and> files (eg h) (piece_name (gps_epo_type (ee h)) (k - 1)) = Some (snd (mps ! (k - 1))))"

definition without :: "int \<Rightarrow> nat list \<Rightarrow> (string \<Rightarrow> byte list option) \<Rightarrow> string \<Rightarrow> byte list option" where
  "without t js fs = fold (\<lambda>j fs. fs(piece_name t j := None)) js fs"

lemma without_other [simp]: "(\<And>j. f \<noteq> piece_name t j) \<Longrightarrow> without t js fs f = fs f"
  unfolding without_def by (induction js arbitrary: fs) auto

lemma without_piece: "without t js fs (piece_name t j) = (if j \<in> set js then None else fs (piece_name t j))"
  unfolding without_def by (induction js arbitrary: fs) (auto simp: piece_name_inj)

lemma without_Cons: "without t (j # js) fs = without t js (fs(piece_name t j := None))"
  by (simp add: without_def)

lemma remove_pieces_files:
  assumes "gps_epo_type e \<in> {0, 1}" "i + n \<le> 10"
  shows "snd (remove_pieces i n e g) = g\<lparr>files := without (gps_epo_type e) [i..<i + n] (files g)\<rparr>"
  using assms
proof (induction n arbitrary: i e g)
  case (Suc n)
  have u: "[i..<i + Suc n] = i # [Suc i..<Suc i + n]" by (simp add: upt_conv_Cons)
  have f: "in_dir (gps_epo_file_name (gps_download_epo_file_name (int i) e)) = piece_name (gps_epo_type e) i"
    using Suc.prems by (intro file_name_set) simp_all
  have "snd (remove_pieces i (Suc n) e g)
      = snd (remove_pieces (Suc i) n (gps_download_epo_file_name (int i) e) (unlink (piece_name (gps_epo_type e) i) g))"
    by (simp only: remove_pieces.simps Let_def f)
  also have "\<dots> = (unlink (piece_name (gps_epo_type e) i) g)\<lparr>files := without (gps_epo_type e) [Suc i..<Suc i + n]
      (files (unlink (piece_name (gps_epo_type e) i) g))\<rparr>"
    using Suc.prems Suc.IH [of "gps_download_epo_file_name (int i) e" "Suc i"] by simp
  finally show ?case unfolding u without_Cons by (simp add: unlink_def)
qed (simp add: without_def)

lemma remove_pieces_frame [simp]: "downloads (fst (remove_pieces i n e g)) = downloads e"
  "gps_epo_wifi_trigger (fst (remove_pieces i n e g)) = gps_epo_wifi_trigger e"
  by (induction n arbitrary: i e g) (simp_all add: Let_def)


lemma piece_count_frame [simp]: "piece_count (gps_download_epo_file_name k e) = piece_count e"
  "piece_count (e\<lparr>downloads := d\<rparr>) = piece_count e" "piece_count (e\<lparr>counter := c\<rparr>) = piece_count e"
  "piece_count (e\<lparr>epo_data_updated := u\<rparr>) = piece_count e"
  by (simp_all add: piece_count_def)

lemma answers_drop:
  "k < length mps \<Longrightarrow> answers_of (drop k mps)
    = Got 0 (fst (mps ! k)) # Got 0 (snd (mps ! k)) # answers_of (drop (Suc k) mps)"
  by (simp add: answers_of_def Cons_nth_drop_Suc [symmetric] split_beta)

lemma old_data_collected: "collected mps k ds h \<Longrightarrow> old_data (eg h) = concat (map snd (take k mps))"
  by (cases "k = 0"; cases "files (eg h) EPO_FILE_HAL") (auto simp: collected_def old_data_def)

text \<open>A piece more.\<close>

definition add_piece :: "(byte list \<times> byte list) list \<Rightarrow> nat \<Rightarrow> dl list \<Rightarrow> ehal \<Rightarrow> ehal" where
  "add_piece mps k ds h =
    (let t = gps_epo_type (ee h); e = gps_download_epo_file_name (int k) (ee h) in
     h\<lparr>eg := (eg h)\<lparr>gps_epo_file_count := int (Suc k),
          files := (files (eg h))(key_name t k := None, piece_name t k \<mapsto> snd (mps ! k),
            EPO_FILE_HAL \<mapsto> concat (map snd (take (Suc k) mps)))\<rparr>,
        ee := (if 0 < k then gps_download_epo_file_name (int k - 1) else id)
          (e\<lparr>downloads := answers_of (drop (Suc k) mps) @ ds, counter := 1\<rparr>)\<rparr>)"

lemma download_piece_step:
  assumes c: "collected mps k ds h" and o: "in_order env (map snd mps)" and k: "k < length mps" "length mps \<le> 10"
    and url: "\<And>n key. getEpoUrl env n key \<noteq> None" and op: "\<And>n. open_ok env n"
  shows "download_piece env h = (if Suc k < length mps then Some (add_piece mps k ds h)
    else map_option snd (finish_update 0 (add_piece mps k ds h)))"
proof -
  define t where "t = gps_epo_type (ee h)"
  define e where "e = gps_download_epo_file_name (int k) (ee h)"
  define h1 where "h1 = h\<lparr>eg := (eg h)\<lparr>files := (files (eg h))(key_name t k := None, piece_name t k \<mapsto> snd (mps ! k),
      EPO_FILE_HAL \<mapsto> concat (map snd (take (Suc k) mps)))\<rparr>,
      ee := e\<lparr>downloads := answers_of (drop (Suc k) mps) @ ds, counter := 1\<rparr>\<rparr>"
  have ty: "gps_epo_type (ee h) \<in> {0, 1}" and n: "piece_count (ee h) = int (length mps)" and cnt: "gps_epo_file_count (eg h) = int k"
    using c by (simp_all add: collected_def)
  have names: "in_dir (gps_epo_file_name e) = piece_name t k" "in_dir (gps_epo_md_file_name e) = key_name t k"
    using file_name_set [of "ee h" k] ty k by (simp_all add: e_def t_def)
  have dl: "curl_easy_download_epo env (h\<lparr>ee := e\<rparr>) = Some (0, h1)"
    using download_epo_ok [of "h\<lparr>ee := e\<rparr>" "fst (mps ! k)" "snd (mps ! k)" "answers_of (drop (Suc k) mps) @ ds" env t k]
      c names url op answers_drop [OF k(1)] old_data_collected [OF c] k(1)
    by (simp add: collected_def e_def h1_def take_Suc_conv_app_nth)
  have prev: "in_dir (gps_epo_file_name (gps_download_epo_file_name (int k - 1) (ee h1))) = piece_name t (k - 1)"
    if "0 < k"
    using file_name_set(1) [of "ee h1" "k - 1"] ty k that by (simp add: h1_def e_def t_def)
  have same: "mtk_gps_epo_server_data_is_changed env h1
      = (0, h1\<lparr>ee := (if 0 < k then gps_download_epo_file_name (int k - 1) (ee h1) else ee h1)\<rparr>)"
  proof (rule not_changed [OF o])
    show "files (eg h1) (in_dir (gps_epo_file_name (ee h1))) = Some (map snd mps ! k)"
      using names k(1) by (simp add: h1_def)
    show "files (eg h1) (in_dir (gps_epo_file_name (gps_download_epo_file_name (int k - 1) (ee h1)))) = Some (map snd mps ! (k - 1))"
      if "0 < k"
      using c k(1) that unfolding prev [OF that] by (simp add: h1_def collected_def t_def piece_name_inj)
  qed (use cnt k op in \<open>simp_all add: h1_def\<close>)
  define h2 where "h2 = h1\<lparr>ee := (if 0 < k then gps_download_epo_file_name (int k - 1) (ee h1) else ee h1)\<rparr>"
  have h2: "gps_epo_file_count (eg h2) = int k" "piece_count (ee h2) = int (length mps)"
    "h2\<lparr>eg := (eg h2)\<lparr>gps_epo_file_count := int k + 1\<rparr>\<rparr> = add_piece mps k ds h"
    using n cnt by (simp_all add: h2_def h1_def e_def add_piece_def t_def Let_def)
  have "download_piece env h = map_option snd (mtk_gps_epo_file_update env (h\<lparr>ee := e\<rparr>))"
    by (cases "mtk_gps_epo_file_update env (h\<lparr>ee := e\<rparr>)") (auto simp: download_piece_def e_def cnt)
  also have "\<dots> = (if int k + 1 < 10 \<and> int k + 1 < int (length mps) then Some (add_piece mps k ds h)
      else map_option snd (finish_update 0 (add_piece mps k ds h)))"
    by (simp add: mtk_gps_epo_file_update_def mtk_gps_epo_file_update_hal_def dl same [folded h2_def] h2 Let_def)
  finally show ?thesis using k by auto
qed

text \<open>The turns that follow one another while pieces are missing.\<close>

fun turns :: "nat \<Rightarrow> epo_env \<Rightarrow> ehal \<Rightarrow> ehal option" where
  "turns 0 env h = Some h"
| "turns (Suc n) env h = do { (delay, h) \<leftarrow> epo_turn env h; turns n env h }"

definition ready :: "ehal \<Rightarrow> bool" where
  "ready h \<longleftrightarrow> epo_data_updated (ee h) = 1 \<and> gps_epo_wifi_trigger (ee h) = 0 \<and> files (eg h) EPO_CONTROL_FILE_PATH = None"

lemma conf_name [simp]: "EPO_CONTROL_FILE_PATH \<noteq> piece_name t k" "EPO_CONTROL_FILE_PATH \<noteq> key_name t k"
  "EPO_CONTROL_FILE_PATH \<noteq> EPO_FILE_HAL"
  by (simp_all add: EPO_CONTROL_FILE_PATH_def piece_name_def key_name_def in_dir_def EPO_FILE_HAL_def)

lemma add_piece_frame [simp]:
  "started (eg (add_piece mps k ds h)) = started (eg h)" "sock (eg (add_piece mps k ds h)) = sock (eg h)"
  "epo_download_failed (eg (add_piece mps k ds h)) = epo_download_failed (eg h)"
  "gps_epo_type (ee (add_piece mps k ds h)) = gps_epo_type (ee h)"
  "piece_count (ee (add_piece mps k ds h)) = piece_count (ee h)"
  "epo_data_updated (ee (add_piece mps k ds h)) = epo_data_updated (ee h)"
  "gps_epo_wifi_trigger (ee (add_piece mps k ds h)) = gps_epo_wifi_trigger (ee h)"
  "files (eg (add_piece mps k ds h)) EPO_CONTROL_FILE_PATH = files (eg h) EPO_CONTROL_FILE_PATH"
  "files (eg (add_piece mps k ds h)) EPO_FILE_HAL = Some (concat (map snd (take (Suc k) mps)))"
  "downloads (ee (add_piece mps k ds h)) = answers_of (drop (Suc k) mps) @ ds"
  by (simp_all add: add_piece_def Let_def)

lemma add_piece_collected: "collected mps k ds h \<Longrightarrow> k < length mps \<Longrightarrow> collected mps (Suc k) ds (add_piece mps k ds h)"
  by (simp add: collected_def) (simp add: add_piece_def Let_def)

lemma turn_step:
  assumes "ready h" "download_piece env (h\<lparr>eg := (eg h)\<lparr>epo_download_failed := 0\<rparr>\<rparr>) = Some h'"
    and "epo_download_failed (eg h') = 0" "gps_epo_wifi_trigger (ee h') = 0"
  shows "\<exists>delay. epo_turn env h = Some (delay, h')"
  using assms by (simp add: epo_turn_def gps_download_epo_enable_def ready_def Let_def)

text \<open>What the last turn leaves.\<close>

definition completed :: "(byte list \<times> byte list) list \<Rightarrow> dl list \<Rightarrow> ehal \<Rightarrow> ehal \<Rightarrow> bool" where
  "completed mps ds h h' \<longleftrightarrow> files (eg h') EPO_FILE_HAL = Some (concat (map snd mps))
     \<and> (\<forall>k < length mps. files (eg h') (piece_name (gps_epo_type (ee h)) k) = None)
     \<and> gps_epo_file_count (eg h') = 0 \<and> epo_download_failed (eg h') = 0 \<and> epo_data_updated (ee h') = 0
     \<and> downloads (ee h') = ds \<and> gps_epo_wifi_trigger (ee h') = gps_epo_wifi_trigger (ee h)
     \<and> delivered (sock (eg h')) = delivered (sock (eg h)) @ (if started (eg h) = 0 then []
         else [datagram (le4 MNL_CMD_UPDATE_EPO_FILE)])"

lemma request_update_sent:
  assumes "answers (sock g) = Done n # as"
  shows "request_update g = Some (0, g\<lparr>files := (files g)(EPO_FILE := None),
    sock := (sock g)\<lparr>answers := as, delivered := delivered (sock g) @ [datagram (le4 MNL_CMD_UPDATE_EPO_FILE)]\<rparr>\<rparr>)"
  using assms
  by (simp add: request_update_def unlink_def Let_def buff_put_int_def BUFF_def put_at_def datagram_def mtk_daemon_send_def)

lemma finish_completed:
  assumes "gps_epo_type (ee h) \<in> {0, 1}" "piece_count (ee h) = int (length mps)" "length mps \<le> 10"
    and "files (eg h) EPO_FILE_HAL = Some (concat (map snd mps))" "epo_download_failed (eg h) = 0" "downloads (ee h) = ds"
    and "started (eg h) \<noteq> 0 \<Longrightarrow> answers (sock (eg h)) = Done n # as"
  shows "\<exists>r h'. finish_update 0 h = Some (r, h') \<and> completed mps ds h h'"
proof -
  obtain e g where eg: "remove_pieces 0 (length mps) (ee h) (eg h) = (e, g)" by fastforce
  have g: "g = (eg h)\<lparr>files := without (gps_epo_type (ee h)) [0..<length mps] (files (eg h))\<rparr>"
    using remove_pieces_files [of "ee h" 0 "length mps" "eg h"] assms(1, 3) eg by simp
  have e: "downloads e = ds" "gps_epo_wifi_trigger e = gps_epo_wifi_trigger (ee h)"
    using remove_pieces_frame [of 0 "length mps" "ee h" "eg h"] assms(6) eg by simp_all
  have fs: "files g EPO_FILE_HAL = Some (concat (map snd mps))"
    "\<And>k. k < length mps \<Longrightarrow> files g (piece_name (gps_epo_type (ee h)) k) = None"
    "started g = started (eg h)" "sock g = sock (eg h)" "epo_download_failed g = 0"
    using assms(4, 5) by (simp_all add: g without_piece)
  show ?thesis
  proof (cases "started (eg h) = 0")
    case True
    then show ?thesis using assms(2) e fs by (simp add: finish_update_def eg completed_def)
  next
    case False
    then show ?thesis using assms(2, 7) e fs
      by (simp add: finish_update_def eg completed_def request_update_sent [of _ n as])
        (simp add: EPO_FILE_def EPO_FILE_HAL_def)
  qed
qed

lemma turns_complete:
  assumes "in_order env (map snd mps)" "length mps \<le> 10"
    and "\<And>n key. getEpoUrl env n key \<noteq> None" "\<And>n. open_ok env n"
  shows "collected mps k ds h \<Longrightarrow> ready h \<Longrightarrow> k < length mps
    \<Longrightarrow> (started (eg h) \<noteq> 0 \<Longrightarrow> answers (sock (eg h)) = Done n # as)
    \<Longrightarrow> \<exists>h'. turns (length mps - k) env h = Some h' \<and> completed mps ds h h'"
proof (induction "length mps - k" arbitrary: k h)
  case (Suc m)
  define h0 where "h0 = h\<lparr>eg := (eg h)\<lparr>epo_download_failed := 0\<rparr>\<rparr>"
  define h1 where "h1 = add_piece mps k ds h0"
  have c0: "collected mps k ds h0" using Suc.prems(1) by (simp add: collected_def h0_def)
  have h1: "gps_epo_wifi_trigger (ee h1) = 0" "epo_download_failed (eg h1) = 0" "started (eg h1) = started (eg h)"
    "sock (eg h1) = sock (eg h)" "gps_epo_type (ee h1) = gps_epo_type (ee h)" "ready h1"
    "gps_epo_wifi_trigger (ee h) = 0"
    using Suc.prems(2) by (simp_all add: h1_def h0_def ready_def)
  note step = download_piece_step [OF c0 assms(1) Suc.prems(3) assms(2-4), folded h1_def]
  show ?case
  proof (cases "Suc k < length mps")
    case True
    then obtain delay where "epo_turn env h = Some (delay, h1)"
      using turn_step [OF Suc.prems(2), folded h0_def] step h1(1, 2) by auto
    moreover have m: "m = length mps - Suc k" using Suc.hyps(2) by simp
    moreover obtain h' where "turns (length mps - Suc k) env h1 = Some h'" "completed mps ds h1 h'"
      using Suc.hyps(1) [of "Suc k" h1] m Suc.prems(4) True h1
        add_piece_collected [OF c0 Suc.prems(3), folded h1_def] by auto
    ultimately show ?thesis using Suc.hyps(2) [symmetric] m h1 by (simp add: completed_def)
  next
    case False
    then have k: "Suc k = length mps" using Suc.prems(3) by simp
    obtain r h' where fin: "finish_update 0 h1 = Some (r, h')" "completed mps ds h1 h'"
      using finish_completed [of h1 mps ds n as] assms(2) c0 Suc.prems(4) k h1
      by (auto simp: collected_def h1_def answers_of_def)
    have "gps_epo_wifi_trigger (ee h') = 0" "epo_download_failed (eg h') = 0"
      using fin(2) h1(1) by (simp_all add: completed_def)
    then obtain delay where "epo_turn env h = Some (delay, h')"
      using turn_step [OF Suc.prems(2), folded h0_def] step False fin(1) by auto
    moreover have "length mps - k = 1" using k by simp
    ultimately show ?thesis using fin(2) h1 by (simp add: completed_def)
  qed
qed simp

text \<open>C37.
  A download that was asked for completes.  The settings want as many pieces of three days as the server
  has, each answered with its key and its data, and each beginning less than a day behind the end of the
  one before.  Then so many turns of the thread leave the concatenation of the pieces, in their order, in
  the file of the HAL, remove the files of the pieces, end the download with no failure noted, and, when
  a session runs, tell the daemon once to take the data.
\<close>

theorem epo_download_complete:
  assumes "epo_data_updated (ee h) = 1" "gps_epo_file_count (eg h) = 0" "counter (ee h) = 1"
    and "gps_epo_wifi_trigger (ee h) = 0" "files (eg h) EPO_CONTROL_FILE_PATH = None" "gps_epo_type (ee h) \<in> {0, 1}"
    and "piece_count (ee h) = int (length mps)" "mps \<noteq> []" "length mps \<le> 10"
    and "downloads (ee h) = concat (map (\<lambda>(md, p). [Got 0 md, Got 0 p]) mps) @ ds" "in_order env (map snd mps)"
    and "\<And>n key. getEpoUrl env n key \<noteq> None" "\<And>n. open_ok env n"
    and "started (eg h) \<noteq> 0 \<Longrightarrow> answers (sock (eg h)) = Done n # as"
  shows "\<exists>h'. turns (length mps) env h = Some h'
    \<and> files (eg h') EPO_FILE_HAL = Some (concat (map snd mps))
    \<and> (\<forall>k < length mps. files (eg h') (piece_name (gps_epo_type (ee h)) k) = None)
    \<and> gps_epo_file_count (eg h') = 0 \<and> epo_download_failed (eg h') = 0 \<and> epo_data_updated (ee h') = 0
    \<and> downloads (ee h') = ds
    \<and> delivered (sock (eg h')) = delivered (sock (eg h)) @ (if started (eg h) = 0 then []
        else [datagram (le4 MNL_CMD_UPDATE_EPO_FILE)])"
proof -
  have "collected mps 0 ds h" "ready h" using assms by (simp_all add: collected_def ready_def answers_of_def)
  then show ?thesis
    using turns_complete [OF assms(11, 9, 12, 13), of 0 ds h n as] assms(8, 14) by (auto simp: completed_def)
qed

definition ex_ehal :: "gps \<Rightarrow> ehal" where
  "ex_ehal g = \<lparr>eg = g\<lparr>started := 1, gps_epo_file_count := 0, files := Map.empty,
       sock := (sock g)\<lparr>answers := [Done 1024], delivered := []\<rparr>\<rparr>,
     enw = \<lparr>nw_connected = 1, nw_type = nw_data\<rparr>,
     ee = (epo_start [Got 0 [1], Got 0 (replicate 72 2), Got 0 [3], Got 0 (replicate 144 4)])
       \<lparr>gps_epo_download_days := 5, epo_data_updated := 1\<rparr>\<rparr>"

theorem epo_download_complete_witness:
  "\<exists>h'. turns 2 ex_epo_env (ex_ehal ex_gps) = Some h'
    \<and> files (eg h') EPO_FILE_HAL = Some (replicate 72 2 @ replicate 144 4)
    \<and> delivered (sock (eg h')) = [datagram (le4 MNL_CMD_UPDATE_EPO_FILE)]"
proof -
  have "in_order ex_epo_env [replicate 72 2, replicate 144 4]"
    by (auto simp: in_order_def less_Suc_eq MTK_EPO_ONE_SV_SIZE_def mtk_gps_epo_piece_data_start_def mtk_gps_epo_piece_data_end_def
        utc_of_secs_def GpsToUtcTime_def ex_epo_env_def)
  moreover have "piece_count (ee (ex_ehal ex_gps)) = 2" by (simp add: ex_ehal_def epo_start_def piece_count_def cdiv_def Prelude.cmod_def)
  ultimately show ?thesis
    using epo_download_complete [of "ex_ehal ex_gps" "[([1], replicate 72 2), ([3], replicate 144 4)]" "[]" ex_epo_env 1024 "[]"]
    by (auto simp: ex_ehal_def epo_start_def ex_epo_env_def numeral_2_eq_2 simp del: turns.simps)
qed

end
