(* ===== verification/Spec2Isabelle.thy ===== *)
theory Spec2Isabelle
  imports MultiHal RilEvent Lights WifiHal GpsSafety GpsDownload
begin

text \<open>
  A verification library for the hardware abstraction layers (HALs) of the device tree
  \<^verbatim>\<open>android_device_lg_my90ds\<close>.  File names are relative to \<^verbatim>\<open>src/\<close>.

  \<^bold>\<open>The program.\<close>  The tree holds C and C++ modules that Android loads into its services and daemons:
  the sensor multi-HAL, the radio interface daemon and its event loop, the lights and power modules, the
  Wi-Fi HAL and the GPS HAL.  They do not call one another; each sits between the framework above and
  a driver, a daemon or a vendor library below.  Inside a module the parts interact as follows.

  \<^item> The multi-HAL loads sub-HALs, gives their sensors global handles, and merges their event
    queues in one poll loop; a queue is filled by a writer thread without holding the lock while
    it stores.
  \<^item> The radio event loop keeps timers and watched descriptors, and calls back the expired and the
    ready ones in each turn.
  \<^item> The Wi-Fi HAL keeps a table of event handlers and one of outstanding commands; its event loop
    dispatches messages to the first, cancellation and clean-up work on the second.
  \<^item> The GPS HAL has a thread that reads commands of the framework, sentences of the device and
    messages of the positioning daemon, a thread that downloads orbit data, and the calls of the
    framework, which wait for the first thread on shared conditions.

  \<^bold>\<open>Conventions.\<close>  A struct is a record, an enumeration a datatype with the source's names, a C
  function a definition of the same name; a definition for a part of a function names the function in its
  section.  \<open>None\<close> is undefined behaviour (an access outside an object, a null pointer) or a wait that
  is not over; the error returns of the code are values.  Effects on the world are lists of
  events: calls upwards, files written, datagrams delivered.  What the code calls and the tree does not hold is
  a field of an environment record (the kernel's answers, the clock, \<^verbatim>\<open>mktime\<close>, netlink, libcurl, sub-HALs,
  the layout of the framework's structures).  An \<^verbatim>\<open>int\<close> is an \<open>int\<close> with the wrap-around written out
  (\<open>wrap32\<close>) where it matters, a byte an \<open>8 word\<close>, a \<^verbatim>\<open>double\<close> the rational it stands for.

  \<^bold>\<open>The theories.\<close>

  \<^descr>[\<open>Prelude\<close>] C arithmetic, checked array accesses, arrays with a fill count, decimal text.
  \<^descr>[\<open>SensorQueue\<close>] \<^verbatim>\<open>hal/sensors/SensorEventQueue.cpp\<close>.  The circular buffer is abstracted to the list
    of its readable events.  The locales \<open>fifo_reader\<close> and \<open>fifo\<close> are what a reader and a writer rely on;
    the queue interprets both.  Shown: storing into a writable region and marking it appends, whatever the reader
    took in between; the region is inside the array and apart from the readable part; a waiting writer is woken.
  \<^descr>[\<open>MultiHal\<close>] \<^verbatim>\<open>hal/sensors/multihal.cpp\<close>.  Handles (locale \<open>handle_table\<close>), loading of the
    sub-HALs, the merged sensor list, the forwarded operations, polling.  Shown: a scan of the queues takes the
    events of each sub-HAL in order and loses none; a call for a listed sensor reaches its owner with
    the local handle.
  \<^descr>[\<open>RilEvent\<close>] \<^verbatim>\<open>hal/libril/ril_event.cpp\<close>.  Events in a heap with pointers; the locale \<open>rings\<close> is the
    contract of the doubly linked lists.  Shown: a turn ends and fires the expired timers by deadline, then the ready
    descriptors by index, each once; adding a timer keeps the list sorted; table, descriptor set and bound agree.
  \<^descr>[\<open>Lights\<close>] \<^verbatim>\<open>hal/light/lights.c\<close> and \<^verbatim>\<open>power/power.c\<close>.  Shown: the LED has the status the notification or
    else the battery asks for; brightness is a mean of the channels; the text of every integer fits.
  \<^descr>[\<open>WifiCommon\<close>] \<^verbatim>\<open>hal/wifi_hal/common.cpp\<close>.  The two tables as interpretations of \<open>slot_table\<close>.  Shown: round
    trips of registering, finding, cancelling and unregistering.
  \<^descr>[\<open>WifiHal\<close>] \<^verbatim>\<open>hal/wifi_hal/wifi_hal.cpp\<close>, \<^verbatim>\<open>cpp_bindings.cpp\<close>.  Shown: which resources
    initialisation holds on every path; the interface array is filled exactly; the event loop exits on request; a
    message goes to the first matching handler; the clean-up ends; requests restore the tables; the bounds
    of the concurrency matrix and of the dump.
  \<^descr>[\<open>Nmea\<close>, \<open>NmeaReader\<close>] the text layer and the reader of \<^verbatim>\<open>hal/gps/hal/gps_mtk_aosp.c\<close>.  Shown: tokens are the
    comma separated fields; numbers and coordinates; whatever bytes arrive, no access leaves a buffer; the
    reader refines the splitting of the stream into lines.
  \<^descr>[\<open>GpsBuffer\<close>] messages to the daemon: fields (locale \<open>codec\<close>, interpreted for integers, binaries, texts
    and structures), the retry loops, every request.  Shown: every request that fits is delivered and
    decoded again by the HAL's own readers; the result of sending; names as hexadecimal UCS-2 text.
  \<^descr>[\<open>GpsMnld\<close>] messages from the daemon: every case of the handler and the wait conditions.  Shown: a notification is
    handed on; other messages are handled inside the buffers; a failed read changes nothing.
  \<^descr>[\<open>GpsEpo\<close>, \<open>GpsDownload\<close>] orbit data: settings, names of the pieces, GPS time, expiry, transfer and merge of
    a piece, a turn of the thread.  Shown: the date of a GPS week and time is that of the civil calendar; a complete
    download leaves the concatenation of the pieces and tells the daemon once.
  \<^descr>[\<open>GpsSession\<close>, \<open>GpsSafety\<close>] the session: the calls of the framework cut into parts at their waits and
    at the flags they share, the events of both threads, and the relation \<open>reachable\<close> of all their interleavings.
    It uses the reader, the messages and the orbit data as they are.  Shown: an invariant on flags,
    conditions, the wake lock and the life of the thread; a start that waits is woken by the next data.

  Behind the properties, most theories prove what the code does where it departs from its comments or its
  evident intent: calls that never return, writes behind an array, settings that are misread.

  \<^bold>\<open>Loops.\<close>  Loops over arrays and lists are structural recursion.  The loops over linked lists of
  \<open>RilEvent\<close> and the clean-up loop of \<open>WifiHal\<close> are partial functions into \<open>option\<close>; that they return is proved
  for states with the invariant (and that the clean-up does not return with a null command in its table).  Retry
  loops consume the kernel's answers: \<open>None\<close> is a call the kernel has not answered.  The copy of a piece
  in \<open>GpsEpo\<close> counts with the length of the piece, which is enough because every block but the empty one is at least a
  byte.  The bounds that occur are the code's: 24 tokens, 129 bytes of a sentence, 1024 bytes of a message,
  ten attempts to send, ten pieces.

  \<^bold>\<open>Not modelled.\<close>  The writer threads of the multi-HAL as a scheduler (the region a writer fills and its
  marking are; any reads in between are allowed).  The building of netlink messages and the name tables of the Wi-Fi HAL, its
  scanning, ranging and offload commands: the attributes are laid out by libnl.  In the GPS HAL the codec socket, the
  injection of time and location (their structures are not in the tree), the choice of the GPS mode from
  a property (a parameter of the reader) and everything under \<^verbatim>\<open>GPS_AT_COMMAND\<close>, which the makefile leaves undefined;
  of a session the interleaving is at the granularity described in \<open>GpsSession\<close>.  Of the radio daemon all but the
  event loop: it converts between generated types and a vendor library.  The graphics extensions, the camera
  utilities, the M4U library and the driver commands of \<^verbatim>\<open>wpa_supplicant\<close> are wrappers around
  drivers and framework classes that are not in the tree; \<^verbatim>\<open>libmagna\<close> forwards symbols; the remaining headers
  are tables and constants.
\<close>

end
